theory Spec2Isabelle
  imports Complex_Main "HOL-Library.Multiset"
begin

chapter \<open>MaterializationEngine: spatial lookup and segmentation ingest\<close>

text \<open>
  A shallow embedding of the chunked spatial-lookup workflow
  (\<^verbatim>\<open>materializationengine/workflows/spatial_lookup.py\<close>) and of the root-id
  resolver and missing-roots repair
  (\<^verbatim>\<open>materializationengine/workflows/ingest_new_annotations.py\<close>).
  Python exceptions are values of \<open>py_error\<close> on the left of a sum; SQL \<open>NULL\<close> and
  pandas \<open>NaN\<close> are \<open>None\<close>; Python dictionaries are association lists or maps;
  external services (database, segmentation volume, chunked graph, checkpoint store)
  are parameters or explicit state.
\<close>

section \<open>Definitions\<close>

subsection \<open>Python values, exceptions and helpers\<close>

datatype py_error =
    UnboundLocalError string
  | TypeError
  | IndexError
  | KeyError string
  | ValueError
  | ZeroDivisionError
  | MergeError
  | ProgrammingError
  | CardinalityViolation
  | SQLAlchemyError
  | ChunkedGraphError
  | VolumeError
  | NotEmbedded

text \<open>
  All but the last are exceptions the source can raise. \<open>NotEmbedded\<close> marks an input
  on which the source goes on without raising but in a way this embedding does not
  follow (stated where it is used); no theorem speaks about the source there.
\<close>

text \<open>
  A cell of a pandas dataframe of dtype \<open>object\<close>: a Python integer, a NumPy array of
  integers, or \<open>NaN\<close> (a missing value).
\<close>

datatype pyval = PInt int | PArr "int list" | PNaN

type_synonym pyrecord = "(string \<times> pyval) list"

text \<open>\<open>str.endswith\<close>.\<close>

definition endswith :: "string \<Rightarrow> string \<Rightarrow> bool" where
  "endswith s suf = (length suf \<le> length s \<and> drop (length s - length suf) s = suf)"

text \<open>Running a fallible function over a list; the first exception wins.\<close>

fun traverse :: "('a \<Rightarrow> 'e + 'b) \<Rightarrow> 'a list \<Rightarrow> 'e + 'b list" where
  "traverse f [] = Inr []"
| "traverse f (x # xs) =
     (case f x of
        Inl e \<Rightarrow> Inl e
      | Inr y \<Rightarrow> (case traverse f xs of Inl e \<Rightarrow> Inl e | Inr ys \<Rightarrow> Inr (y # ys)))"


subsection \<open>Segmentation upsert (\<^verbatim>\<open>insert_segmentation_data\<close>, spatial_lookup.py)\<close>

text \<open>
  A segmentation table maps the primary key \<open>id\<close> to the values of the non-id columns of
  the segmentation model, in the model's column order; a value may be \<open>NULL\<close>.
  The parameter \<open>value_columns\<close> is \<open>SegmentationModel.__table__.columns.keys()\<close>
  without \<open>id\<close>.
\<close>

type_synonym sqlval = "int option"

type_synonym seg_table = "int \<rightharpoonup> sqlval list"

fun convert_array_to_int :: "pyval \<Rightarrow> pyval" where
  "convert_array_to_int (PArr vs) = (if length vs = 1 then PInt (vs ! 0) else PInt 0)"
| "convert_array_to_int (PInt v) = PInt v"
| "convert_array_to_int PNaN = PInt 0"

text \<open>\<open>DataFrame.fillna(0)\<close> on one cell.\<close>

fun fillna0 :: "pyval \<Rightarrow> pyval" where
  "fillna0 PNaN = PInt 0"
| "fillna0 v = v"

text \<open>A bound parameter of the statement: only integers can be adapted.\<close>

fun to_param :: "pyval \<Rightarrow> py_error + int" where
  "to_param (PInt v) = Inr v"
| "to_param (PArr vs) = Inl ProgrammingError"
| "to_param PNaN = Inl ProgrammingError"

text \<open>
  \<open>pd.DataFrame(data)\<close> over a list of records has the union of the records' keys as
  columns; a key missing from a record is \<open>NaN\<close> there.
\<close>

definition data_columns :: "pyrecord list \<Rightarrow> string list" where
  "data_columns data = remdups (concat (map (map fst) data))"

definition cell :: "pyrecord \<Rightarrow> string \<Rightarrow> pyval" where
  "cell r c = (case map_of r c of None \<Rightarrow> PNaN | Some v \<Rightarrow> v)"

text \<open>
  The value of column \<open>c\<close> in the dataframe that is converted to the statement's rows:
  supervoxel columns go through \<open>convert_array_to_int\<close>, the frame is restricted to the
  columns shared with the segmentation model, \<open>NaN\<close> is filled with 0, and
  \<open>reindex(columns=..., fill_value=0)\<close> supplies 0 for model columns absent from the data.
\<close>

definition prepared_cell :: "string list \<Rightarrow> pyrecord \<Rightarrow> string \<Rightarrow> pyval" where
  "prepared_cell common r c =
     (if c \<in> set common
      then fillna0 ((if endswith c ''_supervoxel_id'' then convert_array_to_int (cell r c)
                     else cell r c))
      else PInt 0)"

text \<open>
  \<open>pd.merge\<close> raises when the two frames share no column. Each row of the statement is
  its \<open>id\<close> and its values in model order.
\<close>

definition segmentation_rows ::
  "string list \<Rightarrow> pyrecord list \<Rightarrow> py_error + (int \<times> int list) list" where
  "segmentation_rows value_columns data =
     (let common = filter (\<lambda>c. c \<in> set (data_columns data)) (''id'' # value_columns)
      in if common = [] then Inl MergeError
         else traverse (\<lambda>r.
                case to_param (prepared_cell common r ''id'') of
                  Inl e \<Rightarrow> Inl e
                | Inr i \<Rightarrow>
                    (case traverse (\<lambda>c. to_param (prepared_cell common r c)) value_columns of
                       Inl e \<Rightarrow> Inl e
                     | Inr vs \<Rightarrow> Inr (i, vs))) data)"

text \<open>
  The \<open>SET\<close> clause of \<open>ON CONFLICT (id) DO UPDATE\<close>: per non-id column,
  \<open>CASE WHEN excluded.c != 0 THEN excluded.c ELSE c END\<close>.
\<close>

definition on_conflict_set :: "int list \<Rightarrow> sqlval list \<Rightarrow> sqlval list" where
  "on_conflict_set excluded existing =
     map2 (\<lambda>e x. if e \<noteq> 0 then Some e else x) excluded existing"

fun upsert_row :: "int \<times> int list \<Rightarrow> seg_table \<Rightarrow> seg_table" where
  "upsert_row (i, inc) tbl =
     (case tbl i of
        None \<Rightarrow> tbl(i \<mapsto> map Some inc)
      | Some ex \<Rightarrow> tbl(i \<mapsto> on_conflict_set inc ex))"

text \<open>
  One \<open>INSERT ... ON CONFLICT DO UPDATE\<close> statement. PostgreSQL refuses a statement that
  proposes the same key twice (the command cannot affect a row a second time).
\<close>

definition execute_upsert :: "seg_table \<Rightarrow> (int \<times> int list) list \<Rightarrow> py_error + seg_table" where
  "execute_upsert tbl rows =
     (if \<not> distinct (map fst rows) then Inl CardinalityViolation
      else Inr (fold upsert_row rows tbl))"

definition insert_segmentation_data ::
  "string list \<Rightarrow> pyrecord list \<Rightarrow> seg_table \<Rightarrow> py_error + seg_table" where
  "insert_segmentation_data value_columns data tbl =
     (case segmentation_rows value_columns data of
        Inl e \<Rightarrow> Inl e
      | Inr rows \<Rightarrow> execute_upsert tbl rows)"

text \<open>A sequence of upserts, each its own statement and transaction.\<close>

fun run_upserts :: "string list \<Rightarrow> seg_table \<Rightarrow> pyrecord list list \<Rightarrow> py_error + seg_table" where
  "run_upserts value_columns tbl [] = Inr tbl"
| "run_upserts value_columns tbl (d # ds) =
     (case insert_segmentation_data value_columns d tbl of
        Inl e \<Rightarrow> Inl e
      | Inr t \<Rightarrow> run_upserts value_columns t ds)"

text \<open>The last nonzero value of a list, or 0 when there is none.\<close>

definition last_nonzero :: "int list \<Rightarrow> int" where
  "last_nonzero vs =
     (let ys = filter (\<lambda>v. v \<noteq> 0) vs in if ys = [] then 0 else last ys)"


text \<open>What one incoming row does to the stored row of its key.\<close>

definition row_step :: "int list \<Rightarrow> sqlval list option \<Rightarrow> sqlval list option" where
  "row_step inc r = (case r of None \<Rightarrow> Some (map Some inc) | Some ex \<Rightarrow> Some (on_conflict_set inc ex))"

text \<open>The rows a statement, and a sequence of upserts, supply for the key \<open>i\<close>.\<close>

definition rows_for :: "int \<Rightarrow> (int \<times> int list) list \<Rightarrow> int list list" where
  "rows_for i rows = map snd (filter (\<lambda>r. fst r = i) rows)"

definition supplied_rows :: "string list \<Rightarrow> int \<Rightarrow> pyrecord list list \<Rightarrow> int list list" where
  "supplied_rows value_columns i ds =
     concat (map (\<lambda>d. case segmentation_rows value_columns d of
                          Inl e \<Rightarrow> [] | Inr rows \<Rightarrow> rows_for i rows) ds)"

definition supplied :: "string list \<Rightarrow> int \<Rightarrow> nat \<Rightarrow> pyrecord list list \<Rightarrow> int list" where
  "supplied value_columns i k ds = map (\<lambda>inc. inc ! k) (supplied_rows value_columns i ds)"


subsection \<open>Pivot of supervoxel rows (\<^verbatim>\<open>_safe_pivot_svid_df_to_dict\<close>, spatial_lookup.py)\<close>

text \<open>
  A row of the input frame: the columns \<open>id\<close>, \<open>type\<close> and \<open>svids\<close>. The frame is typed
  with exactly these columns, so the function's check for required columns passes.
\<close>

type_synonym svid_row = "int \<times> string \<times> int"

text \<open>\<open>Series.unique()\<close>: the distinct values in order of first appearance.\<close>

definition unique :: "'a list \<Rightarrow> 'a list" where
  "unique xs = rev (remdups (rev xs))"

text \<open>
  \<open>df.groupby("id")\<close>: the groups come in ascending order of the key, the rows of a group
  in their order in the frame.
\<close>

definition groupby_id :: "svid_row list \<Rightarrow> (int \<times> svid_row list) list" where
  "groupby_id df = map (\<lambda>i. (i, filter (\<lambda>r. fst r = i) df)) (sort (remdups (map fst df)))"

text \<open>
  The output dictionary while it is built: its keys are the entries of \<open>columns\<close>, so it
  is a function from column name to list, read only at those keys. The inner loop of the
  function: \<open>output_dict[col_type][idx] = row["svids"]\<close> with
  \<open>idx = len(output_dict["id"]) - 1\<close>; a list assignment out of range raises.
\<close>

fun set_cells ::
  "string list \<Rightarrow> svid_row list \<Rightarrow> (string \<Rightarrow> int list) \<Rightarrow> py_error + (string \<Rightarrow> int list)" where
  "set_cells columns [] d = Inr d"
| "set_cells columns ((i, col_type, svids) # rows) d =
     (if col_type \<in> set columns
      then (let idx = length (d ''id'') - 1
            in if idx < length (d col_type)
               then set_cells columns rows (d(col_type := (d col_type)[idx := svids]))
               else Inl IndexError)
      else set_cells columns rows d)"

text \<open>The body of the loop over the groups.\<close>

definition pivot_group ::
  "string list \<Rightarrow> int \<times> svid_row list \<Rightarrow> (string \<Rightarrow> int list) \<Rightarrow> py_error + (string \<Rightarrow> int list)" where
  "pivot_group columns g d =
     (let d1 = d(''id'' := d ''id'' @ [fst g]);
          d2 = fold (\<lambda>col d. d(col := d col @ [0])) (tl columns) d1
      in set_cells columns (snd g) d2)"

fun pivot_groups ::
  "string list \<Rightarrow> (int \<times> svid_row list) list \<Rightarrow> (string \<Rightarrow> int list) \<Rightarrow> py_error + (string \<Rightarrow> int list)" where
  "pivot_groups columns [] d = Inr d"
| "pivot_groups columns (g # gs) d =
     (case pivot_group columns g d of
        Inl e \<Rightarrow> Inl e
      | Inr d' \<Rightarrow> pivot_groups columns gs d')"

text \<open>
  The dictionary comprehension \<open>{col: [] for col in columns}\<close> keeps one entry per
  distinct column name, in order of first appearance; the result lists the entries of the
  dictionary in that order.
\<close>

definition safe_pivot_svid_df_to_dict :: "svid_row list \<Rightarrow> py_error + (string \<times> int list) list" where
  "safe_pivot_svid_df_to_dict df =
     (let columns = ''id'' # unique (map (\<lambda>r. fst (snd r)) df)
      in case pivot_groups columns (groupby_id df) (\<lambda>col. []) of
           Inl e \<Rightarrow> Inl e
         | Inr d \<Rightarrow> Inr (map (\<lambda>col. (col, d col)) (unique columns)))"

text \<open>
  The supervoxel id the claims expect in the cell of row \<open>i\<close> and column \<open>t\<close>: that of the
  last input row with this id and type, or 0 when there is none.
\<close>

definition kept_svid :: "svid_row list \<Rightarrow> int \<Rightarrow> string \<Rightarrow> int" where
  "kept_svid df i t =
     (let rs = filter (\<lambda>r. fst r = i \<and> fst (snd r) = t) df
      in if rs = [] then 0 else snd (snd (last rs)))"


subsection \<open>Supervoxel resolver (\<^verbatim>\<open>get_scatter_points\<close>, spatial_lookup.py)\<close>

type_synonym point = "int \<times> int \<times> int"

type_synonym vec3 = "rat \<times> rat \<times> rat"

text \<open>A row of \<open>pts_df\<close>: the columns \<open>id\<close>, \<open>pt_position\<close> and \<open>type\<close>.\<close>

type_synonym pts_row = "int \<times> point \<times> string"

text \<open>
  The segmentation volume: its resolution and its scattered-points operation, which
  returns a dictionary from voxel triple to supervoxel id or raises.
\<close>

record cloudvolume =
  resolution :: vec3
  scattered_points :: "point list \<Rightarrow> vec3 \<Rightarrow> py_error + (point \<times> int) list"

text \<open>
  NumPy divides in IEEE 754 binary64. A finite float64 value is a rational number; the
  result of an operation is the exact result rounded to the nearest value with a 53-bit
  significand, ties to the even significand. \<open>bit_length n\<close> is the number of binary
  digits of \<open>n\<close>.
\<close>

function bit_length :: "int \<Rightarrow> int" where
  "bit_length n = (if n \<le> 0 then 0 else 1 + bit_length (n div 2))"
  by pat_completeness auto
termination
  by (relation "measure nat") auto

declare bit_length.simps [simp del]

text \<open>
  The float64 nearest to a rational \<open>x = \<plusminus> a / b\<close>: \<open>k\<close> is chosen so that
  \<open>a / b * 2 ^ k\<close> lies in \<open>[2 ^ 52, 2 ^ 53)\<close>, its integer part \<open>q\<close> is rounded to \<open>m\<close> by
  the remainder, and the value is \<open>\<plusminus> m / 2 ^ k\<close>. \<open>None\<close> where the result is not a
  normal float64: below \<open>2 ^ -1022\<close> in magnitude (subnormal) or at least \<open>2 ^ 1024\<close>
  (infinity).
\<close>

definition round_to_float64 :: "rat \<Rightarrow> rat option" where
  "round_to_float64 x =
     (if x = 0 then Some 0
      else
        (let a = \<bar>fst (quotient_of x)\<bar>;
             b = snd (quotient_of x);
             k0 = 53 + bit_length b - bit_length a;
             scaled = (if k0 \<ge> 0 then (a * 2 ^ nat k0) div b else a div (b * 2 ^ nat (- k0)));
             k = (if scaled \<ge> 2 ^ 53 then k0 - 1 else k0);
             num = (if k \<ge> 0 then a * 2 ^ nat k else a);
             den = (if k \<ge> 0 then b else b * 2 ^ nat (- k));
             q = num div den;
             r = num mod den;
             m = (if 2 * r > den \<or> (2 * r = den \<and> odd q) then q + 1 else q)
         in if k > 1074 \<or> 971 + k < 0 \<or> (971 + k = 0 \<and> m = 2 ^ 53) then None
            else Some (sgn x * of_int m * (if k \<ge> 0 then 1 / 2 ^ nat k else 2 ^ nat (- k)))))"

text \<open>
  Division of two float64 values; \<open>None\<close> for a zero divisor (NumPy gives \<open>inf\<close> or \<open>nan\<close>)
  and for a quotient that is not a normal float64.
\<close>

definition float64_div :: "rat \<Rightarrow> rat \<Rightarrow> rat option" where
  "float64_div x y = (if y = 0 then None else round_to_float64 (x / y))"

text \<open>
  \<open>x / y\<close> for two numbers that NumPy first converts to float64 (an integer, or a number
  that is a float64 already and is left as it is).
\<close>

definition float64_quotient :: "rat \<Rightarrow> rat \<Rightarrow> rat option" where
  "float64_quotient x y =
     (case (round_to_float64 x, round_to_float64 y) of
        (Some fx, Some fy) \<Rightarrow> float64_div fx fy
      | _ \<Rightarrow> None)"

text \<open>\<open>cv.resolution / coord_resolution\<close>, componentwise in float64.\<close>

definition scale_factor :: "vec3 \<Rightarrow> vec3 \<Rightarrow> vec3 option" where
  "scale_factor res coord_resolution =
     (case (res, coord_resolution) of
        ((rx, ry, rz), (cx, cy, cz)) \<Rightarrow>
          (case (float64_quotient rx cx, float64_quotient ry cy, float64_quotient rz cz) of
             (Some sx, Some sy, Some sz) \<Rightarrow> Some (sx, sy, sz)
           | _ \<Rightarrow> None))"

text \<open>The range of NumPy's default integer type.\<close>

definition int64 :: "int \<Rightarrow> bool" where
  "int64 n = (- (2 ^ 63) \<le> n \<and> n < 2 ^ 63)"

text \<open>
  \<open>np.floor(np.array(point) / scale_factor).astype(int)\<close>: the integer point is
  converted to float64, divided in float64, floored, and cast to a 64-bit integer.
  \<open>None\<close> where a quotient is not a normal float64 or a component does not fit 64 bits
  (the cast is then not defined).
\<close>

definition normalize_positions :: "point \<Rightarrow> vec3 \<Rightarrow> point option" where
  "normalize_positions pt sf =
     (case (pt, sf) of
        ((x, y, z), (sx, sy, sz)) \<Rightarrow>
          (case (float64_quotient (of_int x) sx, float64_quotient (of_int y) sy,
                 float64_quotient (of_int z) sz) of
             (Some qx, Some qy, Some qz) \<Rightarrow>
               if list_all int64 [x, y, z, \<lfloor>qx\<rfloor>, \<lfloor>qy\<rfloor>, \<lfloor>qz\<rfloor>]
               then Some (\<lfloor>qx\<rfloor>, \<lfloor>qy\<rfloor>, \<lfloor>qz\<rfloor>) else None
           | _ \<Rightarrow> None))"

definition match_point_and_get_value :: "point \<Rightarrow> (point \<rightharpoonup> int) \<Rightarrow> int" where
  "match_point_and_get_value pt points_map =
     (case points_map pt of None \<Rightarrow> 0 | Some v \<Rightarrow> v)"

text \<open>
  The slices \<open>df.iloc[batch_start:batch_end]\<close> for
  \<open>batch_start in range(0, len(df), batch_size)\<close>.
\<close>

function batches :: "nat \<Rightarrow> 'a list \<Rightarrow> 'a list list" where
  "batches n xs = (if n = 0 \<or> xs = [] then [] else take n xs # batches n (drop n xs))"
  by pat_completeness auto
termination
  by (relation "measure (\<lambda>(n, xs). length xs)") auto

declare batches.simps [simp del]

text \<open>\<open>sv_id_data.update(batch_sv_data)\<close> for each batch in turn.\<close>

definition merge_batches :: "(point \<times> int) list list \<Rightarrow> (point \<rightharpoonup> int)" where
  "merge_batches ms = fold (\<lambda>b m. m ++ map_of b) ms Map.empty"

text \<open>\<open>Series.str.contains\<close> with a plain pattern: the pattern occurs somewhere in \<open>s\<close>.\<close>

fun str_contains :: "string \<Rightarrow> string \<Rightarrow> bool" where
  "str_contains [] pat = (pat = [])"
| "str_contains (c # cs) pat = (take (length pat) (c # cs) = pat \<or> str_contains cs pat)"

text \<open>
  One row of \<open>result_df\<close> before its \<open>type\<close> column is renamed: the columns \<open>id\<close>,
  \<open>type\<close>, \<open>pt_position\<close> and \<open>svids\<close>.
\<close>

definition result_row ::
  "vec3 \<Rightarrow> (point \<rightharpoonup> int) \<Rightarrow> pts_row \<Rightarrow> py_error + (int \<times> string \<times> point \<times> int)" where
  "result_row sf sv_id_data r =
     (case r of
        (i, pt, t) \<Rightarrow>
          (case normalize_positions pt sf of
             None \<Rightarrow> Inl NotEmbedded
           | Some pt_position_scaled \<Rightarrow>
               Inr (i, t, pt, match_point_and_get_value pt_position_scaled sv_id_data)))"

text \<open>
  \<open>result_df\<close> before the renaming. The parameter \<open>sort_values\<close> is
  \<open>df.sort_values(by="chunk_key")\<close>, which reorders the rows (pandas' default sort is
  not stable, so the order among equal keys is not fixed). The number of batches is
  computed by a division by \<open>batch_size\<close> first. Where a scale or a scaled position is
  not a normal float64, NumPy goes on with \<open>inf\<close> or \<open>nan\<close> and casts it to an integer
  that is not defined: \<open>NotEmbedded\<close>.
\<close>

definition scatter_result_rows ::
  "cloudvolume \<Rightarrow> (pts_row list \<Rightarrow> pts_row list) \<Rightarrow> vec3 \<Rightarrow> nat \<Rightarrow> pts_row list
     \<Rightarrow> py_error + (int \<times> string \<times> point \<times> int) list" where
  "scatter_result_rows cv sort_values coord_resolution batch_size pts_df =
     (if batch_size = 0 then Inl ZeroDivisionError
      else
        (let df = sort_values pts_df;
             bs = batches batch_size df
         in case traverse (\<lambda>batch_df.
                   scattered_points cv (map (\<lambda>r. fst (snd r)) batch_df) coord_resolution) bs of
              Inl e \<Rightarrow> Inl e
            | Inr batch_sv_data \<Rightarrow>
                (case scale_factor (resolution cv) coord_resolution of
                   None \<Rightarrow> Inl NotEmbedded
                 | Some sf \<Rightarrow>
                     traverse (result_row sf (merge_batches batch_sv_data)) (concat bs))))"

text \<open>
  The renaming of the \<open>type\<close> column: \<open>result_df["type"].str.contains("pt").all()\<close>
  decides the suffix for every row.
\<close>

definition rename_types :: "(int \<times> string \<times> point \<times> int) list \<Rightarrow> svid_row list" where
  "rename_types rows =
     (let suffix = (if list_all (\<lambda>r. str_contains (fst (snd r)) ''pt'') rows
                    then ''_supervoxel_id'' else ''_pt_supervoxel_id'')
      in map (\<lambda>(i, t, pt, svids). (i, t @ suffix, svids)) rows)"

definition get_scatter_points ::
  "cloudvolume \<Rightarrow> (pts_row list \<Rightarrow> pts_row list) \<Rightarrow> vec3 \<Rightarrow> nat \<Rightarrow> pts_row list
     \<Rightarrow> py_error + (string \<times> int list) list" where
  "get_scatter_points cv sort_values coord_resolution batch_size pts_df =
     (case scatter_result_rows cv sort_values coord_resolution batch_size pts_df of
        Inl e \<Rightarrow> Inl e
      | Inr rows \<Rightarrow> safe_pivot_svid_df_to_dict (rename_types rows))"

text \<open>
  The column name the specification gives for a type tag: \<open>{type}_supervoxel_id\<close> when
  the tag ends in \<open>pt\<close>, \<open>{type}_pt_supervoxel_id\<close> when it does not.
\<close>

definition spec_column_name :: "string \<Rightarrow> string" where
  "spec_column_name t =
     (if endswith t ''pt'' then t @ ''_supervoxel_id'' else t @ ''_pt_supervoxel_id'')"

text \<open>
  A segmentation volume for the scenarios: resolution \<open>(8, 8, 40)\<close>, and a
  scattered-points operation that finds supervoxel 111 at voxel \<open>(5, 10, 30)\<close>.
\<close>

definition example_volume :: cloudvolume where
  "example_volume =
     \<lparr>resolution = (8, 8, 40), scattered_points = (\<lambda>points cr. Inr [((5, 10, 30), 111)])\<rparr>"

text \<open>
  The scaled key in the words of the specification: \<open>floor(pt / scale)\<close> with
  \<open>scale = segmentation resolution / coord_resolution\<close>, in exact arithmetic.
\<close>

definition spec_scaled_key :: "point \<Rightarrow> vec3 \<Rightarrow> vec3 \<Rightarrow> point" where
  "spec_scaled_key pt res coord_resolution =
     (case (pt, res, coord_resolution) of
        ((x, y, z), (rx, ry, rz), (cx, cy, cz)) \<Rightarrow>
          (\<lfloor>of_int x / (rx / cx)\<rfloor>, \<lfloor>of_int y / (ry / cy)\<rfloor>, \<lfloor>of_int z / (rz / cz)\<rfloor>))"

text \<open>
  A volume that answers a request point by point: supervoxel 111 at voxel \<open>(5, 10, 30)\<close>
  for the point \<open>(10, 20, 30)\<close>, supervoxel 222 at voxel \<open>(62, 10, 30)\<close> for the point
  \<open>(125, 20, 30)\<close>.
\<close>

definition pointwise_volume :: cloudvolume where
  "pointwise_volume =
     \<lparr>resolution = (8, 8, 40),
      scattered_points = (\<lambda>points cr. Inr (concat (map (\<lambda>pt.
         if pt = (10, 20, 30) then [((5, 10, 30), 111)]
         else if pt = (125, 20, 30) then [((62, 10, 30), 222)]
         else []) points)))\<rparr>"


subsection \<open>Checkpoint store\<close>

text \<open>
  The checkpoint record of one table, with the fields the workflow reads and writes.
\<close>

record checkpoint =
  task_id :: string
  status :: string
  total_chunks :: nat
  completed_chunks :: nat
  last_error :: "string option"
  index_rebuild_complete :: bool

type_synonym checkpoint_store = "string \<rightharpoonup> checkpoint"

text \<open>
  Modelled from the spec: \<open>RedisCheckpointManager\<close>
  (\<^verbatim>\<open>materializationengine/blueprints/upload/checkpoint_manager.py\<close>) is not among the
  sources. The specification gives its operations: \<open>initialize(table, task_id)\<close> creates the
  record at workflow start (a record that exists keeps its progress, since
  \<open>completed_chunks\<close> only ever increases and the store persists across restarts),
  \<open>get(table)\<close> reads it, \<open>update(table, fields...)\<close> overwrites fields (last writer wins),
  and \<open>increment_completed(table, rows_processed)\<close> increments \<open>completed_chunks\<close> by one.
\<close>

definition initialize_workflow :: "checkpoint_store \<Rightarrow> string \<Rightarrow> string \<Rightarrow> checkpoint_store" where
  "initialize_workflow store table tid =
     (case store table of
        None \<Rightarrow> store(table \<mapsto> \<lparr>task_id = tid, status = ''initializing'', total_chunks = 0,
                                completed_chunks = 0, last_error = None,
                                index_rebuild_complete = False\<rparr>)
      | Some cp \<Rightarrow> store(table \<mapsto> cp\<lparr>task_id := tid\<rparr>))"

definition get_workflow_data :: "checkpoint_store \<Rightarrow> string \<Rightarrow> checkpoint option" where
  "get_workflow_data store table = store table"

definition update_workflow ::
  "checkpoint_store \<Rightarrow> string \<Rightarrow> (checkpoint \<Rightarrow> checkpoint) \<Rightarrow> checkpoint_store" where
  "update_workflow store table upd =
     (case store table of None \<Rightarrow> store | Some cp \<Rightarrow> store(table \<mapsto> upd cp))"

definition increment_completed :: "checkpoint_store \<Rightarrow> string \<Rightarrow> nat \<Rightarrow> checkpoint_store" where
  "increment_completed store table rows_processed =
     update_workflow store table (\<lambda>cp. cp\<lparr>completed_chunks := completed_chunks cp + 1\<rparr>)"

subsection \<open>Processing one chunk (\<^verbatim>\<open>process_chunk\<close>, spatial_lookup.py)\<close>

record mat_metadata =
  aligned_volume :: string
  annotation_table_name :: string
  segmentation_table_name :: string
  coord_resolution :: vec3
  throttle_queues :: bool

text \<open>
  The arguments of one \<open>process_chunk\<close> task. \<open>database\<close> and \<open>table_name\<close> default to
  \<open>None\<close>; \<open>chunk_info\<close> holds the two numbers of the string \<open>Chunk i/n\<close>.
\<close>

record chunk_task =
  min_corner :: point
  max_corner :: point
  mat_info :: mat_metadata
  get_root_ids :: bool
  upload_to_database :: bool
  chunk_info :: "nat \<times> nat"
  database :: "string option"
  table_name :: "string option"
  report_completion :: bool
  supervoxel_batch_size :: nat

text \<open>
  What the functions called by \<open>process_chunk\<close> return or raise: the rows of the spatial
  query, \<open>get_scatter_points\<close>, \<open>get_new_root_ids\<close> and \<open>insert_segmentation_data\<close>.
\<close>

record chunk_env =
  pts_from_bbox :: "point \<Rightarrow> point \<Rightarrow> mat_metadata \<Rightarrow> py_error + pts_row list"
  scatter_points ::
    "pts_row list \<Rightarrow> mat_metadata \<Rightarrow> nat \<Rightarrow> py_error + (string \<times> int list) list option"
  new_root_ids :: "(string \<times> int list) list \<Rightarrow> mat_metadata \<Rightarrow> py_error + pyrecord list"
  insert_data :: "pyrecord list \<Rightarrow> mat_metadata \<Rightarrow> py_error + bool"

text \<open>The calls a task makes to services, in order, and the checkpoint store.\<close>

datatype service_call =
    SpatialQuery
  | SupervoxelLookup
  | RootLookup
  | Upsert "pyrecord list"
  | IncrementCompleted string nat

record chunk_state =
  checkpoints :: checkpoint_store
  calls :: "service_call list"

text \<open>
  The outcome of a task: it returned \<open>None\<close>, it returned the success dictionary (points
  processed, supervoxel ids found), or its handler called \<open>self.retry\<close> with the exception.
\<close>

datatype chunk_result = ReturnedNone | Success nat nat | Retry py_error

text \<open>Truth value of an optional string: \<open>None\<close> and the empty string are false.\<close>

definition truthy :: "string option \<Rightarrow> bool" where
  "truthy s = (case s of None \<Rightarrow> False | Some v \<Rightarrow> v \<noteq> [])"

text \<open>\<open>get_pts_from_bbox\<close>: \<open>None\<close> when the query returns no row.\<close>

definition get_pts_from_bbox ::
  "chunk_env \<Rightarrow> point \<Rightarrow> point \<Rightarrow> mat_metadata \<Rightarrow> py_error + pts_row list option" where
  "get_pts_from_bbox env lo hi mat =
     (case pts_from_bbox env lo hi mat of
        Inl e \<Rightarrow> Inl e
      | Inr df \<Rightarrow> if df = [] then Inr None else Inr (Some df))"

definition record_call :: "service_call \<Rightarrow> chunk_state \<Rightarrow> chunk_state" where
  "record_call c st = st\<lparr>calls := calls st @ [c]\<rparr>"

text \<open>
  \<open>if report_completion and checkpoint_manager: checkpoint_manager.increment_completed(...)\<close>;
  the manager exists when \<open>database and table_name and report_completion\<close>.
\<close>

definition report :: "chunk_task \<Rightarrow> nat \<Rightarrow> chunk_state \<Rightarrow> chunk_state" where
  "report t rows_processed st =
     (if report_completion t \<and> (truthy (database t) \<and> truthy (table_name t) \<and> report_completion t)
      then (case table_name t of
              None \<Rightarrow> st
            | Some tn \<Rightarrow>
                record_call (IncrementCompleted tn rows_processed)
                  (st\<lparr>checkpoints := increment_completed (checkpoints st) tn rows_processed\<rparr>))
      else st)"

text \<open>
  The part of the body after \<open>svids_count\<close> is known. The variable \<open>root_id_data\<close> is
  bound only in the branch \<open>if get_root_ids and svids_count > 0\<close>; reading it unbound
  raises. Python's \<open>and\<close> evaluates \<open>len(root_id_data)\<close> only when \<open>upload_to_database\<close> is
  true.
\<close>

definition resolve_and_upload ::
  "chunk_env \<Rightarrow> chunk_task \<Rightarrow> (string \<times> int list) list \<Rightarrow> nat \<Rightarrow> nat \<Rightarrow> chunk_state
     \<Rightarrow> chunk_result \<times> chunk_state" where
  "resolve_and_upload env t data points_count svids_count st =
     (let looked_up =
            (if get_root_ids t \<and> svids_count > 0
             then (case new_root_ids env data (mat_info t) of
                     Inl e \<Rightarrow> Inl e
                   | Inr r \<Rightarrow> Inr (Some r, record_call RootLookup st))
             else Inr (None, st))
      in case looked_up of
           Inl e \<Rightarrow> (Retry e, record_call RootLookup st)
         | Inr (root_id_data, st1) \<Rightarrow>
             (if upload_to_database t
              then (case root_id_data of
                      None \<Rightarrow> (Retry (UnboundLocalError ''root_id_data''), st1)
                    | Some r \<Rightarrow>
                        (if length r > 0
                         then (case insert_data env r (mat_info t) of
                                 Inl e \<Rightarrow> (Retry e, record_call (Upsert r) st1)
                               | Inr is_inserted \<Rightarrow>
                                   (Success points_count svids_count,
                                    report t points_count (record_call (Upsert r) st1)))
                         else (Success points_count svids_count, report t points_count st1)))
              else (Success points_count svids_count, report t points_count st1)))"

definition process_chunk :: "chunk_env \<Rightarrow> chunk_task \<Rightarrow> chunk_state \<Rightarrow> chunk_result \<times> chunk_state" where
  "process_chunk env t st =
     (let st1 = record_call SpatialQuery st
      in case get_pts_from_bbox env (min_corner t) (max_corner t) (mat_info t) of
           Inl e \<Rightarrow> (Retry e, st1)
         | Inr None \<Rightarrow> (ReturnedNone, report t 0 st1)
         | Inr (Some pts_df) \<Rightarrow>
             (let points_count = length pts_df;
                  st2 = record_call SupervoxelLookup st1
              in case scatter_points env pts_df (mat_info t) (supervoxel_batch_size t) of
                   Inl e \<Rightarrow> (Retry e, st2)
                 | Inr None \<Rightarrow> (ReturnedNone, st2)
                 | Inr (Some data) \<Rightarrow>
                     (case map_of data ''id'' of
                        None \<Rightarrow> (Retry (KeyError ''id''), st2)
                      | Some ids \<Rightarrow>
                          resolve_and_upload env t data points_count (length ids) st2)))"

text \<open>
  \<open>submit_task\<close> builds the task the driver sends to the queue: it reports completion and
  carries the driver's database and table name.
\<close>

definition submit_task ::
  "point \<Rightarrow> point \<Rightarrow> mat_metadata \<Rightarrow> bool \<Rightarrow> bool \<Rightarrow> nat \<Rightarrow> nat \<Rightarrow> string \<Rightarrow> string \<Rightarrow> nat
     \<Rightarrow> chunk_task" where
  "submit_task lo hi mat roots upload chunk_idx n_chunks db table batch_size =
     \<lparr>min_corner = lo, max_corner = hi, mat_info = mat, get_root_ids = roots,
      upload_to_database = upload, chunk_info = (chunk_idx + 1, n_chunks),
      database = Some db, table_name = Some table, report_completion = True,
      supervoxel_batch_size = batch_size\<rparr>"

text \<open>
  Environments for the scenarios: a chunk whose spatial query finds no point, and a chunk
  holding the annotation 7 of scenario S1, resolved against \<open>example_volume\<close>.
\<close>

definition empty_chunk_env :: chunk_env where
  "empty_chunk_env =
     \<lparr>pts_from_bbox = (\<lambda>lo hi mat. Inr []),
      scatter_points = (\<lambda>df mat n. Inr (Some [])),
      new_root_ids = (\<lambda>data mat. Inr []),
      insert_data = (\<lambda>rows mat. Inr True)\<rparr>"

definition example_chunk_env :: chunk_env where
  "example_chunk_env =
     \<lparr>pts_from_bbox = (\<lambda>lo hi mat. Inr [(7, (10, 20, 30), ''pt'')]),
      scatter_points = (\<lambda>df mat n.
         case get_scatter_points example_volume id (coord_resolution mat) n df of
           Inl e \<Rightarrow> Inl e | Inr data \<Rightarrow> Inr (Some data)),
      new_root_ids = (\<lambda>data mat.
         Inr [[(''id'', PInt 7), (''pt_supervoxel_id'', PInt 111), (''pt_root_id'', PInt 999)]]),
      insert_data = (\<lambda>rows mat. Inr True)\<rparr>"

definition example_mat :: mat_metadata where
  "example_mat =
     \<lparr>aligned_volume = ''volume'', annotation_table_name = ''synapses'',
      segmentation_table_name = ''synapses__pcg'', coord_resolution = (4, 4, 40),
      throttle_queues = False\<rparr>"

definition example_checkpoint :: checkpoint where
  "example_checkpoint =
     \<lparr>task_id = ''task'', status = ''processing'', total_chunks = 10, completed_chunks = 4,
      last_error = None, index_rebuild_complete = False\<rparr>"


subsection \<open>Workflow driver (\<^verbatim>\<open>run_spatial_lookup_workflow\<close>, spatial_lookup.py)\<close>

type_synonym chunk = "point \<times> point"

text \<open>
  Modelled from the spec: \<open>ChunkingStrategy\<close>
  (\<^verbatim>\<open>materializationengine/workflows/chunking.py\<close>) is not among the sources. The
  specification gives its contract: \<open>create_chunk_generator()\<close> yields the
  \<open>(min_corner, max_corner)\<close> pairs in a fixed order, \<open>total_chunks\<close> is known before
  iteration, and \<open>skip_to_index(n)\<close> returns a generator positioned after the first \<open>n\<close>
  pairs. A strategy is therefore the sequence of its chunks.
\<close>

record chunking_strategy =
  chunk_sequence :: "chunk list"

definition create_chunk_generator :: "chunking_strategy \<Rightarrow> chunk list" where
  "create_chunk_generator s = chunk_sequence s"

definition skip_to_index :: "chunking_strategy \<Rightarrow> nat \<Rightarrow> chunk list" where
  "skip_to_index s n = drop n (chunk_sequence s)"

definition strategy_total_chunks :: "chunking_strategy \<Rightarrow> nat" where
  "strategy_total_chunks s = length (chunk_sequence s)"

text \<open>
  The state the driver changes: the checkpoint store, the tasks sent to the queue (in
  order of submission) and the monitor tasks started (table and total chunks).
\<close>

record driver_state =
  store :: checkpoint_store
  submitted :: "chunk_task list"
  monitors :: "(string \<times> nat) list"

text \<open>
  The block \<open>Try to restore from checkpoint\<close>: the number of completed chunks and the
  strategy to use. \<open>from_checkpoint\<close> is \<open>ChunkingStrategy.from_checkpoint\<close>, with \<open>None\<close>
  when the checkpoint has no attribute \<open>chunking_strategy\<close>;
  \<open>checkpoint_data.completed_chunks or 0\<close> is the number itself.
\<close>

definition restore ::
  "bool \<Rightarrow> checkpoint option \<Rightarrow> chunking_strategy \<Rightarrow> (checkpoint \<Rightarrow> chunking_strategy option)
     \<Rightarrow> nat \<times> chunking_strategy" where
  "restore resume checkpoint_data chunking from_checkpoint =
     (if resume
      then (case checkpoint_data of
              None \<Rightarrow> (0, chunking)
            | Some cp \<Rightarrow>
                (completed_chunks cp,
                 case from_checkpoint cp of None \<Rightarrow> chunking | Some restored \<Rightarrow> restored))
      else (0, chunking))"

text \<open>
  The tasks of \<open>for chunk_idx, (min_corner, max_corner) in enumerate(chunk_generator(),
  completed_chunks)\<close>.
\<close>

definition submit_chunks ::
  "chunk list \<Rightarrow> nat \<Rightarrow> mat_metadata \<Rightarrow> bool \<Rightarrow> bool \<Rightarrow> nat \<Rightarrow> string \<Rightarrow> string \<Rightarrow> nat
     \<Rightarrow> chunk_task list" where
  "submit_chunks generator completed mat roots upload n_chunks db table batch_size =
     map (\<lambda>(chunk_idx, (lo, hi)).
            submit_task lo hi mat roots upload chunk_idx n_chunks db table batch_size)
         (zip [completed ..< completed + length generator] generator)"

text \<open>
  The loop over \<open>table_info\<close>. For each entry the generator is started afresh, its chunks
  are submitted, and when at least one task was submitted the checkpoint's
  \<open>completed_chunks\<close> is set to \<open>completed_chunks + chunk_tasks\<close>. Creating the
  segmentation table, dropping its indices and the throttle on the queue do not touch
  this state.
\<close>

fun submit_tables ::
  "mat_metadata list \<Rightarrow> chunk list \<Rightarrow> nat \<Rightarrow> bool \<Rightarrow> bool \<Rightarrow> nat \<Rightarrow> string \<Rightarrow> string \<Rightarrow> nat
     \<Rightarrow> driver_state \<Rightarrow> driver_state" where
  "submit_tables [] generator completed roots upload n_chunks db table batch_size st = st"
| "submit_tables (mat # rest) generator completed roots upload n_chunks db table batch_size st =
     (let tasks = submit_chunks generator completed mat roots upload n_chunks db table batch_size;
          chunk_tasks = length tasks;
          st1 = st\<lparr>submitted := submitted st @ tasks\<rparr>;
          st2 = (if chunk_tasks > 0
                 then st1\<lparr>store := update_workflow (store st1) table
                        (\<lambda>cp. cp\<lparr>completed_chunks := completed + chunk_tasks\<rparr>)\<rparr>
                 else st1)
      in submit_tables rest generator completed roots upload n_chunks db table batch_size st2)"

definition run_spatial_lookup_workflow ::
  "string \<Rightarrow> string \<Rightarrow> string \<Rightarrow> nat \<Rightarrow> bool \<Rightarrow> bool \<Rightarrow> bool \<Rightarrow> chunking_strategy
     \<Rightarrow> (checkpoint \<Rightarrow> chunking_strategy option) \<Rightarrow> mat_metadata list \<Rightarrow> driver_state
     \<Rightarrow> driver_state" where
  "run_spatial_lookup_workflow tid db table batch_size roots upload resume chunking0
       from_checkpoint table_info st =
     (let st1 = st\<lparr>store := initialize_workflow (store st) table tid\<rparr>;
          (completed, chunking) =
             restore resume (get_workflow_data (store st1) table) chunking0 from_checkpoint;
          st2 = st1\<lparr>store := update_workflow (store st1) table
                   (\<lambda>cp. cp\<lparr>total_chunks := strategy_total_chunks chunking,
                            completed_chunks := completed, status := ''processing''\<rparr>)\<rparr>;
          chunk_generator = (if completed > 0 then skip_to_index chunking completed
                             else create_chunk_generator chunking);
          st3 = submit_tables table_info chunk_generator completed roots upload
                  (strategy_total_chunks chunking) db table batch_size st2;
          st4 = st3\<lparr>store := update_workflow (store st3) table (\<lambda>cp. cp\<lparr>status := ''submitted''\<rparr>)\<rparr>
      in st4\<lparr>monitors := monitors st4 @ [(table, strategy_total_chunks chunking)]\<rparr>)"

text \<open>Ten chunks along the x axis, for scenario S2.\<close>

definition ten_chunks :: chunking_strategy where
  "ten_chunks =
     \<lparr>chunk_sequence = map (\<lambda>i. ((1024 * int i, 0, 0), (1024 * int i + 1024, 1024, 1024))) [0 ..< 10]\<rparr>"

text \<open>
  The restart of scenario S2: the checkpoint of a ten-chunk workflow holds four completed
  chunks, and the driver is started again with \<open>resume_from_checkpoint\<close>.
\<close>

definition restart_after_four :: driver_state where
  "restart_after_four =
     run_spatial_lookup_workflow ''restart'' ''volume'' ''synapses'' 50 True True True
       ten_chunks (\<lambda>cp. Some ten_chunks) [example_mat]
       \<lparr>store = [''synapses'' \<mapsto> example_checkpoint], submitted = [], monitors = []\<rparr>"

text \<open>
  The submitted tasks as a worker runs them, one after another in order of submission,
  once the driver has returned: the first task reads the store the driver left, each
  further task the store its predecessor left. (The queue may hand a task to a worker
  earlier; this is the schedule in which no task finishes before the driver's last
  write.)
\<close>

definition run_submitted :: "chunk_env \<Rightarrow> driver_state \<Rightarrow> chunk_state" where
  "run_submitted env st =
     fold (\<lambda>t s. snd (process_chunk env t s)) (submitted st)
       \<lparr>checkpoints = store st, calls = []\<rparr>"

text \<open>The calls of a task's trace that commit an upsert, and those that report a chunk.\<close>

fun is_upsert :: "service_call \<Rightarrow> bool" where
  "is_upsert (Upsert r) = True"
| "is_upsert c = False"

fun is_increment :: "service_call \<Rightarrow> bool" where
  "is_increment (IncrementCompleted tn n) = True"
| "is_increment c = False"


subsection \<open>Completion monitor (\<^verbatim>\<open>monitor_spatial_lookup_completion\<close>, spatial_lookup.py)\<close>

definition max_wait_time :: nat where
  "max_wait_time = 3600 * 24 * 3"

definition polling_interval :: nat where
  "polling_interval = 360"

text \<open>
  What a poll observes: the length of the queue and the checkpoint store as the workers
  have left it. The completion condition of the loop: the table has a checkpoint, the
  queue is empty and every chunk is completed.
\<close>

type_synonym observation = "nat \<times> checkpoint_store"

definition all_done :: "observation \<Rightarrow> string \<Rightarrow> nat \<Rightarrow> bool" where
  "all_done ob table n_chunks =
     (case get_workflow_data (snd ob) table of
        None \<Rightarrow> False
      | Some workflow_data \<Rightarrow> fst ob = 0 \<and> completed_chunks workflow_data \<ge> n_chunks)"

datatype monitor_outcome = MonitorCompleted | MonitorError string

text \<open>
  The result of the monitor: how it ended, the store after its last write, whether it
  called \<open>rebuild_indices_for_spatial_lookup\<close>, the number of polls and the clock at the
  last one.
\<close>

record monitor_result =
  outcome :: monitor_outcome
  final_store :: checkpoint_store
  rebuild_called :: bool
  polls :: nat
  finished_at :: nat

text \<open>
  The \<open>while True\<close> loop, with the clock in seconds made explicit. \<open>observe n\<close> is what
  poll \<open>n\<close> reads, \<open>busy n\<close> the time poll \<open>n\<close> takes besides sleeping, and
  \<open>rebuild_error\<close> the message of the exception the index rebuild raises, if any.
  \<open>now\<close> is \<open>current_time\<close>; \<open>time.sleep(polling_interval)\<close> advances the clock. The loop
  ends because each round advances the clock and the timeout is checked in every round.
\<close>

function monitor_loop ::
  "(nat \<Rightarrow> observation) \<Rightarrow> (nat \<Rightarrow> nat) \<Rightarrow> string option \<Rightarrow> string \<Rightarrow> nat \<Rightarrow> nat \<Rightarrow> nat \<Rightarrow> nat
     \<Rightarrow> monitor_result" where
  "monitor_loop observe busy rebuild_error table n_chunks start_time now n =
     (if all_done (observe n) table n_chunks
      then (case rebuild_error of
              None \<Rightarrow>
                \<lparr>outcome = MonitorCompleted,
                 final_store = update_workflow (snd (observe n)) table
                   (\<lambda>cp. cp\<lparr>status := ''completed'', index_rebuild_complete := True\<rparr>),
                 rebuild_called = True, polls = n + 1, finished_at = now\<rparr>
            | Some e \<Rightarrow>
                \<lparr>outcome = MonitorError e,
                 final_store = update_workflow (snd (observe n)) table
                   (\<lambda>cp. cp\<lparr>status := ''error'', last_error := Some e\<rparr>),
                 rebuild_called = True, polls = n + 1, finished_at = now\<rparr>)
      else if now - start_time > max_wait_time
      then \<lparr>outcome = MonitorError ''Monitoring timed out'',
            final_store = update_workflow (snd (observe n)) table
              (\<lambda>cp. cp\<lparr>status := ''error'', last_error := Some ''Monitoring timed out''\<rparr>),
            rebuild_called = False, polls = n + 1, finished_at = now\<rparr>
      else monitor_loop observe busy rebuild_error table n_chunks start_time
             (now + busy n + polling_interval) (n + 1))"
  by pat_completeness auto
termination
  by (relation "measure (\<lambda>(observe, busy, rebuild_error, table, n_chunks, start_time, now, n).
                  start_time + max_wait_time + 1 - now)")
     (auto simp: polling_interval_def)

declare monitor_loop.simps [simp del]

text \<open>The task: \<open>start_time = time.time()\<close>, then the loop.\<close>

definition monitor_spatial_lookup_completion ::
  "(nat \<Rightarrow> observation) \<Rightarrow> (nat \<Rightarrow> nat) \<Rightarrow> string option \<Rightarrow> string \<Rightarrow> nat \<Rightarrow> nat
     \<Rightarrow> monitor_result" where
  "monitor_spatial_lookup_completion observe busy rebuild_error table n_chunks start_time =
     monitor_loop observe busy rebuild_error table n_chunks start_time start_time 0"

text \<open>Scenario S6: three chunks, all completed, the queue empty at the first poll.\<close>

definition three_done :: "nat \<Rightarrow> observation" where
  "three_done n =
     (0, [''synapses'' \<mapsto> example_checkpoint\<lparr>total_chunks := 3, completed_chunks := 3\<rparr>])"

text \<open>
  The clock at poll \<open>n\<close>: each earlier poll took its own time and then slept for the
  polling interval.
\<close>

fun poll_clock :: "(nat \<Rightarrow> nat) \<Rightarrow> nat \<Rightarrow> nat \<Rightarrow> nat" where
  "poll_clock busy start_time 0 = start_time"
| "poll_clock busy start_time (Suc n) = poll_clock busy start_time n + busy n + polling_interval"


subsection \<open>Root-id resolver (\<^verbatim>\<open>get_new_root_ids\<close>, ingest_new_annotations.py)\<close>

text \<open>
  A pandas dataframe with a default index: its column names, each once, and its rows;
  a row gives the cell of every column, \<open>NaN\<close> where it has none.
\<close>

record frame =
  frame_columns :: "string list"
  frame_rows :: "(string \<Rightarrow> pyval) list"

text \<open>
  \<open>pd.DataFrame(d)\<close> for a dictionary of columns: the columns must have one length.
\<close>

definition frame_of_columns :: "(string \<times> pyval list) list \<Rightarrow> py_error + frame" where
  "frame_of_columns d =
     (case d of
        [] \<Rightarrow> Inr \<lparr>frame_columns = [], frame_rows = []\<rparr>
      | (c, vs) # rest \<Rightarrow>
          if list_all (\<lambda>(c', vs'). length vs' = length vs) rest
          then Inr \<lparr>frame_columns = map fst d,
                    frame_rows = map (\<lambda>i c. case map_of d c of None \<Rightarrow> PNaN | Some col \<Rightarrow> col ! i)
                                     [0 ..< length vs]\<rparr>
          else Inl ValueError)"

text \<open>\<open>pd.DataFrame(records)\<close> and \<open>df.to_dict(orient="records")\<close>.\<close>

definition frame_of_records :: "pyrecord list \<Rightarrow> frame" where
  "frame_of_records recs =
     \<lparr>frame_columns = data_columns recs, frame_rows = map (\<lambda>r c. cell r c) recs\<rparr>"

definition to_records :: "frame \<Rightarrow> pyrecord list" where
  "to_records df = map (\<lambda>r. map (\<lambda>c. (c, r c)) (frame_columns df)) (frame_rows df)"

text \<open>
  \<open>pd.merge(left, right)\<close>: an inner join on the columns the frames share, in the order
  of the left rows; without a shared column it raises.
\<close>

definition merge_frames :: "frame \<Rightarrow> frame \<Rightarrow> py_error + frame" where
  "merge_frames left right =
     (let common = filter (\<lambda>c. c \<in> set (frame_columns right)) (frame_columns left)
      in if common = [] then Inl MergeError
         else Inr \<lparr>frame_columns = frame_columns left @
                      filter (\<lambda>c. c \<notin> set (frame_columns left)) (frame_columns right),
                   frame_rows = concat (map (\<lambda>l.
                      map (\<lambda>r c. if c \<in> set (frame_columns left) then l c else r c)
                        (filter (\<lambda>r. list_all (\<lambda>c. l c = r c) common) (frame_rows right)))
                      (frame_rows left))\<rparr>)"

text \<open>\<open>str.replace(old, new)\<close> for a non-empty \<open>old\<close>.\<close>

function str_replace :: "string \<Rightarrow> string \<Rightarrow> string \<Rightarrow> string" where
  "str_replace old new s =
     (if s = [] \<or> old = [] then s
      else if take (length old) s = old then new @ str_replace old new (drop (length old) s)
      else hd s # str_replace old new (tl s))"
  by pat_completeness auto
termination
  by (relation "measure (\<lambda>(old, new, s). length s)") auto

declare str_replace.simps [simp del]

definition isna :: "pyval \<Rightarrow> bool" where
  "isna v = (v = PNaN)"

text \<open>
  \<open>root_ids_df.loc[data.index, root_id_name] = root_id_array\<close>, where \<open>root_id_array\<close> is
  the squeezed answer of the chunked graph: an array of the length of the index is
  written position by position, a single value is written to every row of the index,
  and any other length raises.
\<close>

definition assign_column :: "frame \<Rightarrow> nat list \<Rightarrow> string \<Rightarrow> int list \<Rightarrow> py_error + frame" where
  "assign_column df index root_id_name root_id_array =
     (if length root_id_array = length index \<or> length root_id_array = 1
      then (let vals = (if length root_id_array = length index then root_id_array
                        else replicate (length index) (root_id_array ! 0))
            in Inr \<lparr>frame_columns = (if root_id_name \<in> set (frame_columns df) then frame_columns df
                                       else frame_columns df @ [root_id_name]),
                    frame_rows = fold (\<lambda>(i, v) rs. rs[i := (rs ! i)(root_id_name := PInt v)])
                                   (zip index vals) (frame_rows df)\<rparr>)
      else Inl ValueError)"

text \<open>
  The loop over the supervoxel columns of the rows without any root id. \<open>get_roots\<close> is
  the chunked-graph service at the materialization timestamp; it returns the root ids
  of the supervoxels it is given, or raises. \<open>missing_root_rows\<close> keeps the cells read
  before the loop. The requests sent to the service are collected with the frame.
\<close>

fun lookup_missing ::
  "(pyval list \<Rightarrow> py_error + int list) \<Rightarrow> string list \<Rightarrow> nat list \<Rightarrow> (string \<Rightarrow> pyval) list
     \<Rightarrow> frame \<Rightarrow> (string \<times> pyval list) list
     \<Rightarrow> py_error + frame \<times> (string \<times> pyval list) list" where
  "lookup_missing get_roots [] index missing_root_rows df requests = Inr (df, requests)"
| "lookup_missing get_roots (col_name # rest) index missing_root_rows df requests =
     (if str_contains col_name ''supervoxel_id''
      then (let root_id_name = str_replace ''supervoxel_id'' ''root_id'' col_name;
                data = map (\<lambda>r. r col_name) missing_root_rows
            in case get_roots data of
                 Inl e \<Rightarrow> Inl e
               | Inr root_id_array \<Rightarrow>
                   (case assign_column df index root_id_name root_id_array of
                      Inl e \<Rightarrow> Inl e
                    | Inr df' \<Rightarrow>
                        lookup_missing get_roots rest index missing_root_rows df'
                          (requests @ [(col_name, data)])))
      else lookup_missing get_roots rest index missing_root_rows df requests)"

text \<open>
  \<open>except SQLAlchemyError\<close> catches the class and its subclasses: the errors SQLAlchemy
  raises for a statement that fails, among them \<open>ProgrammingError\<close> and the driver's
  \<open>CardinalityViolation\<close>, which SQLAlchemy wraps in a \<open>ProgrammingError\<close>.
\<close>

definition is_sqlalchemy_error :: "py_error \<Rightarrow> bool" where
  "is_sqlalchemy_error e =
     (e = SQLAlchemyError \<or> e = ProgrammingError \<or> e = CardinalityViolation)"

text \<open>
  \<open>supervoxel_df.drop(drop_col_names, 1)\<close> for the columns whose name ends in
  \<open>position\<close>: the labels and their cells are gone.
\<close>

definition drop_position_columns :: "frame \<Rightarrow> frame" where
  "drop_position_columns df =
     \<lparr>frame_columns = filter (\<lambda>c. \<not> endswith c ''position'') (frame_columns df),
      frame_rows = map (\<lambda>r c. if endswith c ''position'' then PNaN else r c) (frame_rows df)\<rparr>"

text \<open>
  The list \<open>root_id_columns\<close> of the branch without prior roots, from the columns of
  \<open>supervoxel_df\<close>: one name for each column ending in \<open>supervoxel_id\<close>, in order.
\<close>

definition root_id_columns :: "string list \<Rightarrow> string list" where
  "root_id_columns cols =
     map (str_replace ''supervoxel_id'' ''root_id'')
       (filter (\<lambda>c. str_contains c ''supervoxel_id'')
          (filter (\<lambda>c. endswith c ''supervoxel_id'') cols))"

text \<open>
  The frame before the lookup: the supervoxel frame (position columns dropped) joined
  with the root ids the database holds for its ids, or, when the database returns no row,
  extended by empty root-id columns. \<open>current_root_ids\<close> is the query on the segmentation
  table; an error caught by \<open>except SQLAlchemyError\<close> leaves the empty list, any other
  exception propagates. \<open>pd.concat(..., axis=1)\<close> keeps every label, also one that then
  occurs twice (an input column that already has the name of a new root-id column, or
  two supervoxel columns with one root-id name). Selecting a repeated label gives a
  frame in place of a column and the mask of the lookup becomes two-dimensional: such
  a frame is \<open>NotEmbedded\<close>.
\<close>

definition root_ids_frame ::
  "(pyval list \<Rightarrow> py_error + pyrecord list) \<Rightarrow> (string \<times> pyval list) list \<Rightarrow> py_error + frame" where
  "root_ids_frame current_root_ids materialization_data =
     (case frame_of_columns materialization_data of
        Inl e \<Rightarrow> Inl e
      | Inr df0 \<Rightarrow>
          (let supervoxel_df = drop_position_columns df0
           in if ''id'' \<notin> set (frame_columns supervoxel_df) then Inl (KeyError ''id'')
              else
                (let anno_ids = map (\<lambda>r. r ''id'') (frame_rows supervoxel_df);
                     fetched = (case current_root_ids anno_ids of
                                  Inl e \<Rightarrow> if is_sqlalchemy_error e then Inr [] else Inl e
                                | Inr found \<Rightarrow> Inr found)
                 in case fetched of
                      Inl e \<Rightarrow> Inl e
                    | Inr found \<Rightarrow>
                        if found \<noteq> []
                        then merge_frames supervoxel_df (frame_of_records found)
                        else
                          (let labels = frame_columns supervoxel_df @
                                          root_id_columns (frame_columns supervoxel_df)
                           in if distinct labels
                              then Inr (supervoxel_df\<lparr>frame_columns := labels\<rparr>)
                              else Inl NotEmbedded))))"

text \<open>
  The positions of the rows in which every root-id column is missing:
  \<open>np.logical_and.reduce([root_ids_df[col].isna() for col in cols])\<close>.
\<close>

definition missing_root_index :: "frame \<Rightarrow> nat list" where
  "missing_root_index df =
     (let cols = filter (\<lambda>x. str_contains x ''root_id'') (frame_columns df)
      in filter (\<lambda>i. list_all (\<lambda>col. isna ((frame_rows df ! i) col)) cols)
           [0 ..< length (frame_rows df)])"

text \<open>
  The resolver. Its result is the list of records and, for the claims about the service,
  the requests it made. The timestamp is parsed before anything else and is part of
  \<open>get_roots\<close> here. With no root-id column the mask is the scalar \<open>True\<close>, which
  \<open>DataFrame.loc\<close> does not accept.
\<close>

definition get_new_root_ids ::
  "(pyval list \<Rightarrow> py_error + pyrecord list) \<Rightarrow> (pyval list \<Rightarrow> py_error + int list)
     \<Rightarrow> (string \<times> pyval list) list \<Rightarrow> py_error + pyrecord list \<times> (string \<times> pyval list) list" where
  "get_new_root_ids current_root_ids get_roots materialization_data =
     (case root_ids_frame current_root_ids materialization_data of
        Inl e \<Rightarrow> Inl e
      | Inr root_ids_df \<Rightarrow>
          (let supervoxel_col_names =
                 filter (\<lambda>c. endswith c ''supervoxel_id'' \<and> \<not> endswith c ''position'')
                   (map fst materialization_data);
               index = missing_root_index root_ids_df
           in if filter (\<lambda>x. str_contains x ''root_id'') (frame_columns root_ids_df) = []
              then Inl (KeyError ''True'')
              else if index = [] then Inr (to_records root_ids_df, [])
              else (case lookup_missing get_roots supervoxel_col_names index
                           (map (\<lambda>i. frame_rows root_ids_df ! i) index) root_ids_df [] of
                      Inl e \<Rightarrow> Inl e
                    | Inr (df, requests) \<Rightarrow> Inr (to_records df, requests))))"

text \<open>
  Scenario S5: three segmentation rows with supervoxels 100, 200, 300 and no root id;
  a chunked graph that answers every request (here with ten times the supervoxel id),
  and one that is down.
\<close>

definition three_supervoxels :: "(string \<times> pyval list) list" where
  "three_supervoxels =
     [(''id'', [PInt 1, PInt 2, PInt 3]), (''pt_supervoxel_id'', [PInt 100, PInt 200, PInt 300])]"

definition answering_graph :: "pyval list \<Rightarrow> py_error + int list" where
  "answering_graph supervoxels =
     Inr (map (\<lambda>v. case v of PInt n \<Rightarrow> 10 * n | PArr a \<Rightarrow> 0 | PNaN \<Rightarrow> 0) supervoxels)"

definition failing_graph :: "pyval list \<Rightarrow> py_error + int list" where
  "failing_graph supervoxels = Inl ChunkedGraphError"

definition failing_database :: "pyval list \<Rightarrow> py_error + pyrecord list" where
  "failing_database ids = Inl SQLAlchemyError"

text \<open>
  A database that holds the root id 5 for the annotation 1 and no root id for the
  annotations 2 and 3.
\<close>

definition prior_roots_database :: "pyval list \<Rightarrow> py_error + pyrecord list" where
  "prior_roots_database ids =
     Inr [[(''id'', PInt 1), (''pt_root_id'', PInt 5)],
          [(''id'', PInt 2), (''pt_root_id'', PNaN)],
          [(''id'', PInt 3), (''pt_root_id'', PNaN)]]"


subsection \<open>Missing-roots repair (\<^verbatim>\<open>get_ids_with_missing_roots\<close>, \<^verbatim>\<open>lookup_root_ids\<close>, ingest_new_annotations.py)\<close>

text \<open>A row of the segmentation table as the repair reads it: its id and its named cells.\<close>

type_synonym seg_row = "int \<times> (string \<times> sqlval) list"

text \<open>
  An element of the list \<open>get_ids_with_missing_roots\<close> returns: a chunk of ids, or a bare
  id (the branch \<open>min_id == max_id\<close> returns \<open>[min_id]\<close>).
\<close>

datatype chunk_item = IdItem int | ChunkItem "int list"

text \<open>
  Modelled from the spec: \<open>create_chunks\<close> (\<^verbatim>\<open>materializationengine/shared_tasks.py\<close>) is
  not among the sources; the specification says the id range is partitioned into
  fixed-size chunks.
\<close>

definition create_chunks :: "int list \<Rightarrow> nat \<Rightarrow> int list list" where
  "create_chunks data_list chunk_size = batches chunk_size data_list"

text \<open>
  The ids of the rows in which some column with \<open>root_id\<close> in its name \<open>IS NULL\<close>, and the
  \<open>MIN\<close> and \<open>MAX\<close> aggregates (\<open>None\<close> over no row).
\<close>

definition ids_missing_a_root :: "seg_row list \<Rightarrow> int list" where
  "ids_missing_a_root table =
     map fst (filter (\<lambda>(i, cells).
        list_ex (\<lambda>(c, v). str_contains c ''root_id'' \<and> v = None) cells) table)"

definition sql_min :: "int list \<Rightarrow> int option" where
  "sql_min xs = (case xs of [] \<Rightarrow> None | x # rest \<Rightarrow> Some (fold min rest x))"

definition sql_max :: "int list \<Rightarrow> int option" where
  "sql_max xs = (case xs of [] \<Rightarrow> None | x # rest \<Rightarrow> Some (fold max rest x))"

text \<open>
  \<open>get_ids_with_missing_roots\<close>. \<open>if min_id and max_id\<close> is false for \<open>None\<close> and for 0.
  The result \<open>None\<close> is Python's \<open>None\<close>.
\<close>

definition get_ids_with_missing_roots :: "seg_row list \<Rightarrow> chunk_item list option" where
  "get_ids_with_missing_roots table =
     (let max_id = sql_max (ids_missing_a_root table);
          min_id = sql_min (ids_missing_a_root table)
      in case (min_id, max_id) of
           (Some mn, Some mx) \<Rightarrow>
             if mn \<noteq> 0 \<and> mx \<noteq> 0
             then (if mn < mx then Some (map ChunkItem (create_chunks [mn .. mx] 500))
                   else if mn = mx then Some [IdItem mn]
                   else None)
             else None
         | _ \<Rightarrow> None)"

text \<open>
  \<open>process_missing_roots_workflow\<close> for one table: the repair units it schedules, one
  per element of a non-empty result.
\<close>

definition scheduled_repair_units :: "seg_row list \<Rightarrow> chunk_item list" where
  "scheduled_repair_units table =
     (case get_ids_with_missing_roots table of None \<Rightarrow> [] | Some chunks \<Rightarrow> chunks)"

text \<open>
  The outcome of a repair unit: the rows it updated by primary key
  (\<open>session.bulk_update_mappings\<close>), nothing to update, or \<open>self.retry\<close> with the exception.
\<close>

datatype repair_result = RepairUpdated "pyrecord list" | RepairEmpty | RepairRetry py_error

text \<open>
  \<open>lookup_root_ids\<close>. Its first statement indexes its argument,
  \<open>[missing_root_id_chunk[0], missing_root_id_chunk[-1]]\<close>: an integer cannot be
  indexed, an empty list has no element. \<open>sql_supervoxel_ids\<close> is
  \<open>get_sql_supervoxel_ids\<close>, which reads the supervoxel columns of the ids between the two
  bounds from SQL and returns \<open>None\<close> when the query fails; \<open>bulk_update\<close> is the commit of
  the bulk update, with the exception it raises, if any.
\<close>

definition lookup_root_ids ::
  "(int \<times> int \<Rightarrow> (string \<times> pyval list) list option)
     \<Rightarrow> (pyval list \<Rightarrow> py_error + pyrecord list) \<Rightarrow> (pyval list \<Rightarrow> py_error + int list)
     \<Rightarrow> (pyrecord list \<Rightarrow> py_error option) \<Rightarrow> chunk_item \<Rightarrow> repair_result" where
  "lookup_root_ids sql_supervoxel_ids current_root_ids get_roots bulk_update missing_root_id_chunk =
     (case missing_root_id_chunk of
        IdItem i \<Rightarrow> RepairRetry TypeError
      | ChunkItem ids \<Rightarrow>
          if ids = [] then RepairRetry IndexError
          else
            (let chunk = (hd ids, last ids);
                 supervoxel_data = (case sql_supervoxel_ids chunk of None \<Rightarrow> [] | Some d \<Rightarrow> d)
             in case get_new_root_ids current_root_ids get_roots supervoxel_data of
                  Inl e \<Rightarrow> RepairRetry e
                | Inr (root_id_data, requests) \<Rightarrow>
                    if root_id_data = [] then RepairEmpty
                    else (case bulk_update root_id_data of
                            Some e \<Rightarrow> RepairRetry e
                          | None \<Rightarrow> RepairUpdated root_id_data)))"

text \<open>
  Scenario S5 read from SQL, and a table in which only the row 7 misses its root id.
\<close>

definition three_rows_sql :: "int \<times> int \<Rightarrow> (string \<times> pyval list) list option" where
  "three_rows_sql chunk = Some three_supervoxels"

definition no_prior_roots :: "pyval list \<Rightarrow> py_error + pyrecord list" where
  "no_prior_roots ids = Inr []"

definition committing :: "pyrecord list \<Rightarrow> py_error option" where
  "committing root_id_data = None"

definition three_missing :: "seg_row list" where
  "three_missing =
     [(1, [(''pt_supervoxel_id'', Some 100), (''pt_root_id'', None)]),
      (2, [(''pt_supervoxel_id'', Some 200), (''pt_root_id'', None)]),
      (3, [(''pt_supervoxel_id'', Some 300), (''pt_root_id'', None)])]"

definition one_missing :: "seg_row list" where
  "one_missing =
     [(6, [(''pt_supervoxel_id'', Some 110), (''pt_root_id'', Some 998)]),
      (7, [(''pt_supervoxel_id'', Some 111), (''pt_root_id'', None)])]"


section \<open>Lemmas and theorems\<close>

lemma traverse_length: "traverse f xs = Inr ys \<Longrightarrow> length ys = length xs"
  by (induction xs arbitrary: ys) (auto split: sum.splits)

lemma traverse_member:
  "traverse f xs = Inr ys \<Longrightarrow> y \<in> set ys \<Longrightarrow> \<exists>x \<in> set xs. f x = Inr y"
  by (induction xs arbitrary: ys) (auto split: sum.splits)

lemma segmentation_rows_length:
  assumes "segmentation_rows cols data = Inr rows" and "(i, inc) \<in> set rows"
  shows "length inc = length cols"
proof -
  from assms obtain r where
    "(case to_param (prepared_cell (filter (\<lambda>c. c \<in> set (data_columns data)) (''id'' # cols)) r ''id'') of
        Inl e \<Rightarrow> Inl e
      | Inr j \<Rightarrow>
          (case traverse (\<lambda>c. to_param (prepared_cell (filter (\<lambda>c. c \<in> set (data_columns data)) (''id'' # cols)) r c)) cols of
             Inl e \<Rightarrow> Inl e
           | Inr vs \<Rightarrow> Inr (j, vs))) = Inr (i, inc)"
    unfolding segmentation_rows_def Let_def
    by (auto split: if_splits dest!: traverse_member)
  then show ?thesis
    by (auto split: sum.splits dest: traverse_length)
qed

lemma fold_upsert_row:
  "fold upsert_row rows tbl i = fold row_step (rows_for i rows) (tbl i)"
proof (induction rows arbitrary: tbl)
  case Nil
  then show ?case by (simp add: rows_for_def)
next
  case (Cons r rows)
  obtain j inc where r: "r = (j, inc)" by (cases r)
  show ?case
    using Cons.IH [of "upsert_row r tbl"]
    by (auto simp: r rows_for_def row_step_def split: option.splits)
qed

lemma rows_for_distinct:
  assumes "distinct (map fst rows)" and "(i, inc) \<in> set rows"
  shows "rows_for i rows = [inc]"
  using assms
proof (induction rows)
  case Nil
  then show ?case by simp
next
  case (Cons r rows)
  show ?case
  proof (cases "r = (i, inc)")
    case True
    with Cons.prems have "i \<notin> fst ` set rows" by auto
    then have "filter (\<lambda>r. fst r = i) rows = []"
      by (auto simp: filter_empty_conv)
    with True show ?thesis by (simp add: rows_for_def)
  next
    case False
    with Cons.prems have mem: "(i, inc) \<in> set rows" by simp
    then have "i \<in> fst ` set rows" by force
    with Cons.prems have "fst r \<noteq> i" by auto
    with Cons.IH mem Cons.prems show ?thesis by (simp add: rows_for_def)
  qed
qed

lemma run_upserts_row:
  "run_upserts cols tbl ds = Inr tbl' \<Longrightarrow>
   tbl' i = fold row_step (supplied_rows cols i ds) (tbl i)"
proof (induction ds arbitrary: tbl)
  case Nil
  then show ?case by (simp add: supplied_rows_def)
next
  case (Cons d ds)
  from Cons.prems obtain rows t where
    rows: "segmentation_rows cols d = Inr rows" and
    t: "execute_upsert tbl rows = Inr t" and
    rest: "run_upserts cols t ds = Inr tbl'"
    by (auto simp: insert_segmentation_data_def split: sum.splits)
  from t have "t = fold upsert_row rows tbl"
    by (auto simp: execute_upsert_def split: if_splits)
  then have "t i = fold row_step (rows_for i rows) (tbl i)"
    by (simp add: fold_upsert_row)
  with Cons.IH [OF rest] rows show ?case
    by (simp add: supplied_rows_def)
qed

lemma supplied_rows_length:
  "inc \<in> set (supplied_rows cols i ds) \<Longrightarrow> length inc = length cols"
  by (auto simp: supplied_rows_def rows_for_def split: sum.splits
           dest: segmentation_rows_length [OF sym])

lemma last_nonzero_snoc:
  "last_nonzero (vs @ [v]) = (if v \<noteq> 0 then v else last_nonzero vs)"
  by (simp add: last_nonzero_def)

lemma on_conflict_set_nth:
  "length inc = length ex \<Longrightarrow> k < length ex \<Longrightarrow>
   on_conflict_set inc ex ! k = (if inc ! k \<noteq> 0 then Some (inc ! k) else ex ! k)"
  by (simp add: on_conflict_set_def)

lemma row_step_simps:
  "row_step inc None = Some (map Some inc)"
  "row_step inc (Some ex) = Some (on_conflict_set inc ex)"
  by (simp_all add: row_step_def)

lemma length_on_conflict_set:
  "length (on_conflict_set inc ex) = min (length inc) (length ex)"
  by (simp add: on_conflict_set_def)

lemma fold_row_step_None:
  assumes "vs \<noteq> []" and "\<forall>inc \<in> set vs. length inc = n" and "k < n"
  shows "\<exists>r. fold row_step vs None = Some r \<and> length r = n \<and>
             r ! k = Some (last_nonzero (map (\<lambda>inc. inc ! k) vs))"
  using assms
proof (induction vs rule: rev_nonempty_induct)
  case (single v)
  then show ?case
    by (simp add: row_step_simps last_nonzero_def)
next
  case (snoc v vs)
  then obtain r where r: "fold row_step vs None = Some r" "length r = n"
      "r ! k = Some (last_nonzero (map (\<lambda>inc. inc ! k) vs))"
    by auto
  from snoc.prems have v: "length v = n" by simp
  show ?case
    using r v \<open>k < n\<close>
    by (simp add: row_step_simps on_conflict_set_nth last_nonzero_snoc length_on_conflict_set)
qed

lemma fold_row_step_Some:
  assumes "\<forall>inc \<in> set vs. length inc = n" and "length ex = n" and "k < n"
  shows "\<exists>r. fold row_step vs (Some ex) = Some r \<and> length r = n \<and>
             r ! k = (if \<forall>inc \<in> set vs. inc ! k = 0 then ex ! k
                      else Some (last_nonzero (map (\<lambda>inc. inc ! k) vs)))"
  using assms
proof (induction vs rule: rev_induct)
  case Nil
  then show ?case by simp
next
  case (snoc v vs)
  then obtain r where r: "fold row_step vs (Some ex) = Some r" "length r = n"
      "r ! k = (if \<forall>inc \<in> set vs. inc ! k = 0 then ex ! k
                else Some (last_nonzero (map (\<lambda>inc. inc ! k) vs)))"
    by auto
  from snoc.prems have v: "length v = n" by simp
  have zero: "\<forall>inc \<in> set vs. inc ! k = 0 \<Longrightarrow> last_nonzero (map (\<lambda>inc. inc ! k) vs) = 0"
    by (simp add: last_nonzero_def filter_empty_conv)
  show ?case
    using r v \<open>k < n\<close>
    by (auto simp: row_step_simps on_conflict_set_nth last_nonzero_snoc length_on_conflict_set zero)
qed

text \<open>
  Claim C1. An upsert onto an existing row sets each non-id column to the incoming value
  when that value is nonzero and keeps the stored value otherwise. Consequently, after
  any sequence of upserts starting from an empty table, a column of row \<open>i\<close> holds the
  last nonzero value supplied for it, or 0 when every supplied value was 0.
\<close>

theorem upsert_zero_preserving:
  assumes "k < length cols"
  shows "(segmentation_rows cols data = Inr rows \<and> (i, inc) \<in> set rows \<and>
          insert_segmentation_data cols data tbl = Inr tbl' \<and>
          tbl i = Some ex \<and> length ex = length cols
          \<longrightarrow> (\<exists>r. tbl' i = Some r \<and>
                    r ! k = (if inc ! k \<noteq> 0 then Some (inc ! k) else ex ! k)))
       \<and> (run_upserts cols Map.empty ds = Inr final \<and> supplied cols i k ds \<noteq> []
          \<longrightarrow> (\<exists>r. final i = Some r \<and> r ! k = Some (last_nonzero (supplied cols i k ds))))"
proof (intro conjI impI)
  assume a: "segmentation_rows cols data = Inr rows \<and> (i, inc) \<in> set rows \<and>
          insert_segmentation_data cols data tbl = Inr tbl' \<and>
          tbl i = Some ex \<and> length ex = length cols"
  then have ex: "execute_upsert tbl rows = Inr tbl'"
    by (auto simp: insert_segmentation_data_def)
  then have d: "distinct (map fst rows)" and t: "tbl' = fold upsert_row rows tbl"
    by (auto simp: execute_upsert_def split: if_splits)
  from a have len: "length inc = length cols"
    using segmentation_rows_length by blast
  from d a have "rows_for i rows = [inc]"
    by (simp add: rows_for_distinct)
  then have "tbl' i = Some (on_conflict_set inc ex)"
    using a by (simp add: t fold_upsert_row row_step_simps)
  then show "\<exists>r. tbl' i = Some r \<and>
                    r ! k = (if inc ! k \<noteq> 0 then Some (inc ! k) else ex ! k)"
    using len a assms by (simp add: on_conflict_set_nth)
next
  assume b: "run_upserts cols Map.empty ds = Inr final \<and> supplied cols i k ds \<noteq> []"
  then have row: "final i = fold row_step (supplied_rows cols i ds) None"
    using run_upserts_row [of cols Map.empty ds final i] by simp
  from b have ne: "supplied_rows cols i ds \<noteq> []"
    by (auto simp: supplied_def)
  have "\<forall>inc \<in> set (supplied_rows cols i ds). length inc = length cols"
    by (simp add: supplied_rows_length)
  from fold_row_step_None [OF ne this assms] show
    "\<exists>r. final i = Some r \<and> r ! k = Some (last_nonzero (supplied cols i k ds))"
    by (auto simp: row supplied_def)
qed

text \<open>
  Scenario S4: the row 7 holds \<open>pt_root_id = 42\<close> and is upserted again with
  \<open>pt_root_id = 0\<close>.
\<close>

theorem upsert_zero_preserving_witness:
  "(1::nat) < length [''pt_supervoxel_id'', ''pt_root_id''] \<and>
   (\<exists>tbl'. insert_segmentation_data [''pt_supervoxel_id'', ''pt_root_id'']
        [[(''id'', PInt 7), (''pt_supervoxel_id'', PInt 111), (''pt_root_id'', PNaN)]]
        [7 \<mapsto> [Some 111, Some 42]] = Inr tbl' \<and>
      (\<exists>r. tbl' 7 = Some r \<and> r ! 1 = Some 42)) \<and>
   (\<exists>final. run_upserts [''pt_supervoxel_id'', ''pt_root_id''] Map.empty
        [[[(''id'', PInt 7), (''pt_supervoxel_id'', PInt 111), (''pt_root_id'', PInt 42)]],
         [[(''id'', PInt 7), (''pt_supervoxel_id'', PInt 111), (''pt_root_id'', PNaN)]]] = Inr final \<and>
      (\<exists>r. final 7 = Some r \<and> r ! 1 = Some 42))"
proof -
  let ?cols = "[''pt_supervoxel_id'', ''pt_root_id'']"
  let ?d0 = "[[(''id'', PInt 7), (''pt_supervoxel_id'', PInt 111), (''pt_root_id'', PNaN)]]"
  let ?d42 = "[[(''id'', PInt 7), (''pt_supervoxel_id'', PInt 111), (''pt_root_id'', PInt 42)]]"
  let ?tbl = "[7 \<mapsto> [Some 111, Some (42::int)]] :: seg_table"
  have k: "(1::nat) < length ?cols" by simp
  have rows0: "segmentation_rows ?cols ?d0 = Inr [(7, [111, 0])]"
    by (simp add: segmentation_rows_def data_columns_def prepared_cell_def cell_def endswith_def)
  have rows42: "segmentation_rows ?cols ?d42 = Inr [(7, [111, 42])]"
    by (simp add: segmentation_rows_def data_columns_def prepared_cell_def cell_def endswith_def)
  have ins: "insert_segmentation_data ?cols ?d0 ?tbl = Inr (?tbl(7 \<mapsto> [Some 111, Some 42]))"
    by (simp add: insert_segmentation_data_def rows0 execute_upsert_def on_conflict_set_def)
  have run: "run_upserts ?cols Map.empty [?d42, ?d0] =
      Inr ((Map.empty(7 \<mapsto> [Some 111, Some 42]))(7 \<mapsto> [Some 111, Some 42]))"
    by (simp add: insert_segmentation_data_def rows0 rows42 execute_upsert_def on_conflict_set_def)
  have sup: "supplied ?cols 7 1 [?d42, ?d0] = [42, 0]"
    by (simp add: supplied_def supplied_rows_def rows_for_def rows0 rows42)
  have ln: "last_nonzero [42, 0] = 42"
    by (simp add: last_nonzero_def)
  from upsert_zero_preserving [OF k, of ?d0 "[(7, [111, 0])]" 7 "[111, 0]" ?tbl
      "?tbl(7 \<mapsto> [Some 111, Some 42])" "[Some 111, Some 42]" "[?d42, ?d0]"
      "(Map.empty(7 \<mapsto> [Some 111, Some 42]))(7 \<mapsto> [Some 111, Some 42])"]
  show ?thesis
    using k rows0 ins run sup ln by simp
qed


subsection \<open>The pivot in closed form\<close>

lemma set_unique [simp]: "set (unique xs) = set xs"
  by (simp add: unique_def)

lemma distinct_unique [simp]: "distinct (unique xs)"
  by (simp add: unique_def)

lemma unique_distinct: "distinct xs \<Longrightarrow> unique xs = xs"
  by (simp add: unique_def distinct_remdups_id)

lemma fold_append_zero:
  "distinct cs \<Longrightarrow>
   fold (\<lambda>col d. d(col := d col @ [0::int])) cs d = (\<lambda>c. if c \<in> set cs then d c @ [0] else d c)"
proof (induction cs arbitrary: d)
  case Nil
  then show ?case by simp
next
  case (Cons a cs)
  then show ?case by (auto simp: fun_eq_iff)
qed

lemma fold_last_match:
  "fold (\<lambda>r acc. if P r then f r else acc) rs a =
     (if filter P rs = [] then a else f (last (filter P rs)))"
  by (induction rs rule: rev_induct) auto

lemma set_cells_result:
  assumes "\<forall>r \<in> set g. fst (snd r) \<in> set columns \<and> fst (snd r) \<noteq> ''id''"
    and "\<forall>c \<in> set columns. length (d c) = length (d ''id'')"
    and "d ''id'' \<noteq> []"
  shows "set_cells columns g d =
     Inr (\<lambda>c. (d c)[length (d ''id'') - 1 :=
            fold (\<lambda>r acc. if fst (snd r) = c then snd (snd r) else acc) g
              (d c ! (length (d ''id'') - 1))])"
  using assms
proof (induction g arbitrary: d)
  case Nil
  then show ?case by (simp add: fun_eq_iff)
next
  case (Cons r g)
  obtain i t sv where r: "r = (i, t, sv)" by (cases r)
  let ?n = "length (d ''id'') - 1"
  let ?d1 = "d(t := (d t)[?n := sv])"
  from Cons.prems r have t: "t \<in> set columns" "t \<noteq> ''id''" by auto
  with Cons.prems have len: "?n < length (d t)" by auto
  have step: "set_cells columns (r # g) d = set_cells columns g ?d1"
    using t len by (simp add: r Let_def)
  have id1: "?d1 ''id'' = d ''id''" using t by simp
  have "set_cells columns g ?d1 =
     Inr (\<lambda>c. (?d1 c)[length (?d1 ''id'') - 1 :=
            fold (\<lambda>r acc. if fst (snd r) = c then snd (snd r) else acc) g
              (?d1 c ! (length (?d1 ''id'') - 1))])"
  proof (rule Cons.IH)
    show "\<forall>r \<in> set g. fst (snd r) \<in> set columns \<and> fst (snd r) \<noteq> ''id''"
      using Cons.prems by simp
    show "\<forall>c \<in> set columns. length (?d1 c) = length (?d1 ''id'')"
      using Cons.prems t by simp
    show "?d1 ''id'' \<noteq> []" using Cons.prems t by simp
  qed
  then show ?case
    unfolding step id1 using len by (auto simp: fun_eq_iff r)
qed

lemma pivot_group_result:
  assumes cols: "distinct cols" "''id'' \<notin> set cols"
    and g: "\<forall>r \<in> set g. fst (snd r) \<in> set cols"
    and d: "\<forall>c \<in> set cols. length (d c) = length (d ''id'')"
  shows "pivot_group (''id'' # cols) (i, g) d =
     Inr (\<lambda>c. if c = ''id'' then d ''id'' @ [i]
               else if c \<in> set cols
                    then d c @ [fold (\<lambda>r acc. if fst (snd r) = c then snd (snd r) else acc) g 0]
                    else d c)"
proof -
  let ?d1 = "d(''id'' := d ''id'' @ [i])"
  let ?d2 = "\<lambda>c. if c \<in> set cols then ?d1 c @ [0] else ?d1 c"
  have d2: "fold (\<lambda>col d. d(col := d col @ [0])) cols ?d1 = ?d2"
    using cols by (simp add: fold_append_zero)
  have id2: "?d2 ''id'' = d ''id'' @ [i]" using cols by simp
  have "set_cells (''id'' # cols) g ?d2 =
     Inr (\<lambda>c. (?d2 c)[length (?d2 ''id'') - 1 :=
            fold (\<lambda>r acc. if fst (snd r) = c then snd (snd r) else acc) g
              (?d2 c ! (length (?d2 ''id'') - 1))])"
  proof (rule set_cells_result)
    show "\<forall>r \<in> set g. fst (snd r) \<in> set (''id'' # cols) \<and> fst (snd r) \<noteq> ''id''"
      using g cols by auto
    show "\<forall>c \<in> set (''id'' # cols). length (?d2 c) = length (?d2 ''id'')"
      using d cols by auto
    show "?d2 ''id'' \<noteq> []" using cols by simp
  qed
  moreover have "(\<lambda>c. (?d2 c)[length (?d2 ''id'') - 1 :=
            fold (\<lambda>r acc. if fst (snd r) = c then snd (snd r) else acc) g
              (?d2 c ! (length (?d2 ''id'') - 1))]) =
        (\<lambda>c. if c = ''id'' then d ''id'' @ [i]
               else if c \<in> set cols
                    then d c @ [fold (\<lambda>r acc. if fst (snd r) = c then snd (snd r) else acc) g 0]
                    else d c)"
  proof (rule ext)
    fix c
    have noid: "fold (\<lambda>r acc. if fst (snd r) = ''id'' then snd (snd r) else acc) g a = a" for a
      using g cols by (induction g arbitrary: a) auto
    have other: "c \<notin> set cols \<Longrightarrow>
        fold (\<lambda>r acc. if fst (snd r) = c then snd (snd r) else acc) g a = a" for a
      using g by (induction g arbitrary: a) auto
    show "(?d2 c)[length (?d2 ''id'') - 1 :=
            fold (\<lambda>r acc. if fst (snd r) = c then snd (snd r) else acc) g
              (?d2 c ! (length (?d2 ''id'') - 1))] =
        (if c = ''id'' then d ''id'' @ [i]
               else if c \<in> set cols
                    then d c @ [fold (\<lambda>r acc. if fst (snd r) = c then snd (snd r) else acc) g 0]
                    else d c)"
    proof (cases "c \<in> set cols")
      case True
      with d have len: "length (d ''id'') = length (d c)" by simp
      from True cols have "c \<noteq> ''id''" by auto
      with True cols show ?thesis by (simp add: len)
    next
      case False
      then show ?thesis by (simp add: noid other)
    qed
  qed
  ultimately show ?thesis
    by (simp add: pivot_group_def Let_def d2)
qed

lemma kept_svid_fold:
  "fold (\<lambda>r acc. if fst (snd r) = t then snd (snd r) else acc) (filter (\<lambda>r. fst r = i) df) 0 =
     kept_svid df i t"
  by (simp add: fold_last_match kept_svid_def Let_def)

lemma pivot_groups_result:
  assumes cols: "distinct cols" "''id'' \<notin> set cols"
    and df: "\<forall>r \<in> set df. fst (snd r) \<in> set cols"
    and d: "d = (\<lambda>c. if c = ''id'' then is
                     else if c \<in> set cols then map (\<lambda>i. kept_svid df i c) is else [])"
  shows "pivot_groups (''id'' # cols) (map (\<lambda>i. (i, filter (\<lambda>r. fst r = i) df)) js) d =
     Inr (\<lambda>c. if c = ''id'' then is @ js
               else if c \<in> set cols then map (\<lambda>i. kept_svid df i c) (is @ js) else [])"
  using d
proof (induction js arbitrary: d "is")
  case Nil
  then show ?case by (auto simp: fun_eq_iff)
next
  case (Cons j js)
  let ?g = "filter (\<lambda>r. fst r = j) df"
  let ?d' = "\<lambda>c. if c = ''id'' then is @ [j]
               else if c \<in> set cols then map (\<lambda>i. kept_svid df i c) (is @ [j]) else []"
  have "pivot_group (''id'' # cols) (j, ?g) d =
     Inr (\<lambda>c. if c = ''id'' then d ''id'' @ [j]
               else if c \<in> set cols
                    then d c @ [fold (\<lambda>r acc. if fst (snd r) = c then snd (snd r) else acc) ?g 0]
                    else d c)"
  proof (rule pivot_group_result [OF cols])
    show "\<forall>r \<in> set ?g. fst (snd r) \<in> set cols" using df by simp
    show "\<forall>c \<in> set cols. length (d c) = length (d ''id'')"
      using cols by (auto simp: Cons.prems)
  qed
  also have "(\<lambda>c. if c = ''id'' then d ''id'' @ [j]
               else if c \<in> set cols
                    then d c @ [fold (\<lambda>r acc. if fst (snd r) = c then snd (snd r) else acc) ?g 0]
                    else d c) = ?d'"
    by (auto simp: fun_eq_iff Cons.prems kept_svid_fold)
  finally have g: "pivot_group (''id'' # cols) (j, ?g) d = Inr ?d'" .
  from Cons.IH [of ?d' "is @ [j]"] g show ?case by (simp cong: if_cong)
qed

lemma pivot_closed_form:
  assumes "''id'' \<notin> (\<lambda>r. fst (snd r)) ` set df"
  shows "safe_pivot_svid_df_to_dict df =
     Inr ((''id'', sort (remdups (map fst df))) #
          map (\<lambda>t. (t, map (\<lambda>i. kept_svid df i t) (sort (remdups (map fst df)))))
              (unique (map (\<lambda>r. fst (snd r)) df)))"
proof -
  let ?cols = "unique (map (\<lambda>r. fst (snd r)) df)"
  let ?ids = "sort (remdups (map fst df))"
  have cols: "distinct ?cols" "''id'' \<notin> set ?cols"
    using assms by auto
  have df: "\<forall>r \<in> set df. fst (snd r) \<in> set ?cols" by simp
  have "pivot_groups (''id'' # ?cols) (map (\<lambda>i. (i, filter (\<lambda>r. fst r = i) df)) ?ids) (\<lambda>c. []) =
     Inr (\<lambda>c. if c = ''id'' then [] @ ?ids
               else if c \<in> set ?cols then map (\<lambda>i. kept_svid df i c) ([] @ ?ids) else [])"
    by (rule pivot_groups_result [OF cols df]) (auto simp: fun_eq_iff)
  moreover have "unique (''id'' # ?cols) = ''id'' # ?cols"
    using cols by (intro unique_distinct) simp
  moreover have "\<forall>x \<in> set df. fst (snd x) \<noteq> ''id''"
    using assms by force
  ultimately show ?thesis
    by (simp add: safe_pivot_svid_df_to_dict_def groupby_id_def Let_def cong: if_cong)
qed


subsection \<open>The supervoxel resolver\<close>

lemma concat_batches: "0 < n \<Longrightarrow> concat (batches n xs) = xs"
proof (induction n xs rule: batches.induct)
  case (1 n xs)
  show ?case
  proof (cases "xs = []")
    case True
    then show ?thesis by (simp add: batches.simps [of n "[]"])
  next
    case False
    with "1" show ?thesis by (simp add: batches.simps [of n xs])
  qed
qed

lemma traverse_nth:
  "traverse f xs = Inr ys \<Longrightarrow>
   length ys = length xs \<and> (\<forall>j < length xs. f (xs ! j) = Inr (ys ! j))"
proof (induction xs arbitrary: ys)
  case Nil
  then show ?case by simp
next
  case (Cons x xs)
  then obtain y ys' where y: "f x = Inr y" "traverse f xs = Inr ys'" "ys = y # ys'"
    by (auto split: sum.splits)
  from Cons.IH [OF y(2)] y(1,3) show ?case
    by (auto simp: nth_Cons split: nat.splits)
qed

lemma traverse_map:
  assumes "traverse f xs = Inr ys" and "\<forall>x \<in> set xs. \<forall>y. f x = Inr y \<longrightarrow> y = h x"
  shows "ys = map h xs"
  using assms
proof (induction xs arbitrary: ys)
  case Nil
  then show ?case by simp
next
  case (Cons x xs)
  then obtain y ys' where y: "f x = Inr y" "traverse f xs = Inr ys'" "ys = y # ys'"
    by (auto split: sum.splits)
  with Cons show ?case by auto
qed

text \<open>\<open>dict.update\<close>: a key holds the value of the last batch that returned it.\<close>

lemma fold_update_last:
  "fold (\<lambda>b m. m ++ map_of b) ms m0 key =
     (if filter (\<lambda>b. map_of b key \<noteq> None) ms = [] then m0 key
      else map_of (last (filter (\<lambda>b. map_of b key \<noteq> None) ms)) key)"
proof (induction ms rule: rev_induct)
  case Nil
  then show ?case by simp
next
  case (snoc b ms)
  show ?case
  proof (cases "map_of b key")
    case None
    with snoc show ?thesis by (simp add: map_add_def)
  next
    case (Some v)
    then show ?thesis by (simp add: map_add_def)
  qed
qed

lemma merge_batches_last:
  "merge_batches ms key =
     (if filter (\<lambda>b. map_of b key \<noteq> None) ms = [] then None
      else map_of (last (filter (\<lambda>b. map_of b key \<noteq> None) ms)) key)"
  by (simp add: merge_batches_def fold_update_last)

lemma scatter_result_rows_run:
  assumes "scatter_result_rows cv srt cres bs pts = Inr rows"
  shows "\<exists>maps sf.
      traverse (\<lambda>batch_df. scattered_points cv (map (\<lambda>r. fst (snd r)) batch_df) cres)
        (batches bs (srt pts)) = Inr maps \<and>
      scale_factor (resolution cv) cres = Some sf \<and>
      traverse (result_row sf (merge_batches maps)) (srt pts) = Inr rows"
proof (cases "bs = 0")
  case True
  with assms show ?thesis by (simp add: scatter_result_rows_def)
next
  case False
  then have c: "concat (batches bs (srt pts)) = srt pts"
    by (simp add: concat_batches)
  show ?thesis
  proof (cases "traverse (\<lambda>batch_df. scattered_points cv (map (\<lambda>r. fst (snd r)) batch_df) cres)
        (batches bs (srt pts))")
    case (Inl e)
    with assms False show ?thesis by (simp add: scatter_result_rows_def Let_def)
  next
    case (Inr maps)
    show ?thesis
    proof (cases "scale_factor (resolution cv) cres")
      case None
      with assms False Inr show ?thesis by (simp add: scatter_result_rows_def Let_def)
    next
      case (Some sf)
      with assms False Inr c show ?thesis by (simp add: scatter_result_rows_def Let_def)
    qed
  qed
qed

lemma result_row_Inr:
  "result_row sf m (i, pt, t) = Inr y \<Longrightarrow>
   \<exists>key. normalize_positions pt sf = Some key \<and> y = (i, t, pt, match_point_and_get_value key m)"
  by (auto simp: result_row_def split: option.splits)

lemma scatter_result_rows_closed_form:
  assumes "scatter_result_rows cv srt cres bs pts = Inr rows"
  shows "\<exists>svid. rows = map (\<lambda>(i, pt, t). (i, t, pt, svid pt)) (srt pts)"
proof -
  from scatter_result_rows_run [OF assms] obtain maps sf where
    run: "traverse (result_row sf (merge_batches maps)) (srt pts) = Inr rows"
    by blast
  let ?svid = "\<lambda>pt. match_point_and_get_value (the (normalize_positions pt sf)) (merge_batches maps)"
  have "rows = map (\<lambda>(i, pt, t). (i, t, pt, ?svid pt)) (srt pts)"
    using run by (rule traverse_map) (auto dest!: result_row_Inr)
  then show ?thesis by (rule exI [where x = ?svid])
qed

text \<open>
  Claim C2 as stated fails in float64: with segmentation resolution 50 and coordinate
  resolution 6 the scale is the float64 next above \<open>25/3\<close>, the quotient of 125 by it
  rounds to the float64 next below 15, and the key is 14, where the exact floor of
  \<open>125 / (50 / 6)\<close> is 15.
\<close>

theorem scaled_key_float64_counterexample:
  "scale_factor (50, 8, 40) (6, 4, 40) = Some (4691249611844267 / 562949953421312, 2, 1) \<and>
   normalize_positions (125, 20, 30) (4691249611844267 / 562949953421312, 2, 1) =
     Some (14, 10, 30) \<and>
   spec_scaled_key (125, 20, 30) (50, 8, 40) (6, 4, 40) = (15, 10, 30)"
  by code_simp

text \<open>
  Claim C2, amended. The scale is the float64 quotient of the segmentation resolution by
  the coordinate resolution, componentwise; every input point is emitted once; the key
  of a point is the componentwise floor of the float64 quotient of the point (converted
  to float64) by the scale; the merged map holds for a key the answer of the last
  sub-batch whose scattered-points dictionary has it; and the supervoxel id emitted
  for the point is the merged map's value at its key, or 0 when no sub-batch returned
  the key.
\<close>

theorem scaled_key_lookup:
  assumes "resolution cv = (rx, ry, rz)"
    and "mset (sort_values pts_df) = mset pts_df"
    and "scatter_result_rows cv sort_values (cx, cy, cz) batch_size pts_df = Inr rows"
  shows "\<exists>sx sy sz maps.
      float64_quotient rx cx = Some sx \<and> float64_quotient ry cy = Some sy \<and>
      float64_quotient rz cz = Some sz \<and>
      length maps = length (batches batch_size (sort_values pts_df)) \<and>
      (\<forall>j < length maps.
         scattered_points cv (map (\<lambda>r. fst (snd r)) (batches batch_size (sort_values pts_df) ! j))
           (cx, cy, cz) = Inr (maps ! j)) \<and>
      (\<forall>key. merge_batches maps key =
         (if filter (\<lambda>b. map_of b key \<noteq> None) maps = [] then None
          else map_of (last (filter (\<lambda>b. map_of b key \<noteq> None) maps)) key)) \<and>
      mset (map (\<lambda>(i, t, pt, svid). (i, pt, t)) rows) = mset pts_df \<and>
      (\<forall>(i, t, (x, y, z), svid) \<in> set rows.
         \<exists>qx qy qz.
           float64_quotient (of_int x) sx = Some qx \<and> float64_quotient (of_int y) sy = Some qy \<and>
           float64_quotient (of_int z) sz = Some qz \<and>
           svid = (case merge_batches maps (\<lfloor>qx\<rfloor>, \<lfloor>qy\<rfloor>, \<lfloor>qz\<rfloor>) of
                     None \<Rightarrow> 0 | Some v \<Rightarrow> v))"
proof -
  let ?call = "\<lambda>batch_df. scattered_points cv (map (\<lambda>r. fst (snd r)) batch_df) (cx, cy, cz)"
  from scatter_result_rows_run [OF assms(3)] obtain maps sf where
    maps: "traverse ?call (batches batch_size (sort_values pts_df)) = Inr maps" and
    sf: "scale_factor (resolution cv) (cx, cy, cz) = Some sf" and
    run: "traverse (result_row sf (merge_batches maps)) (sort_values pts_df) = Inr rows"
    by blast
  obtain sx sy sz where sf_eq: "sf = (sx, sy, sz)" by (cases sf)
  from sf have scale:
    "float64_quotient rx cx = Some sx" "float64_quotient ry cy = Some sy"
    "float64_quotient rz cz = Some sz"
    by (auto simp: scale_factor_def assms(1) sf_eq split: option.splits)
  note answers = traverse_nth [OF maps]
  let ?svid = "\<lambda>pt. match_point_and_get_value (the (normalize_positions pt sf)) (merge_batches maps)"
  have rows: "rows = map (\<lambda>(i, pt, t). (i, t, pt, ?svid pt)) (sort_values pts_df)"
    using run by (rule traverse_map) (auto dest!: result_row_Inr)
  have "map (\<lambda>(i, t, pt, svid). (i, pt, t)) rows = sort_values pts_df"
    by (intro nth_equalityI) (simp_all add: rows split_def)
  with assms(2) have once: "mset (map (\<lambda>(i, t, pt, svid). (i, pt, t)) rows) = mset pts_df"
    by simp
  have keys: "\<exists>qx qy qz.
           float64_quotient (of_int x) sx = Some qx \<and> float64_quotient (of_int y) sy = Some qy \<and>
           float64_quotient (of_int z) sz = Some qz \<and>
           svid = (case merge_batches maps (\<lfloor>qx\<rfloor>, \<lfloor>qy\<rfloor>, \<lfloor>qz\<rfloor>) of
                     None \<Rightarrow> 0 | Some v \<Rightarrow> v)"
    if "(i, t, (x, y, z), svid) \<in> set rows" for i t x y z svid
  proof -
    from that traverse_member [OF run] obtain r where
      "result_row sf (merge_batches maps) r = Inr (i, t, (x, y, z), svid)"
      by blast
    then obtain key where
      key: "normalize_positions (x, y, z) sf = Some key"
        "svid = match_point_and_get_value key (merge_batches maps)"
      by (cases r) (auto dest!: result_row_Inr)
    from key(1) obtain qx qy qz where
      "float64_quotient (of_int x) sx = Some qx" "float64_quotient (of_int y) sy = Some qy"
      "float64_quotient (of_int z) sz = Some qz" "key = (\<lfloor>qx\<rfloor>, \<lfloor>qy\<rfloor>, \<lfloor>qz\<rfloor>)"
      by (auto simp: normalize_positions_def sf_eq split: option.splits if_splits)
    with key(2) show ?thesis
      by (auto simp: match_point_and_get_value_def)
  qed
  from answers have len: "length maps = length (batches batch_size (sort_values pts_df))"
    and per_batch: "\<forall>j < length maps.
         scattered_points cv (map (\<lambda>r. fst (snd r)) (batches batch_size (sort_values pts_df) ! j))
           (cx, cy, cz) = Inr (maps ! j)"
    by simp_all
  have merged: "\<forall>key. merge_batches maps key =
         (if filter (\<lambda>b. map_of b key \<noteq> None) maps = [] then None
          else map_of (last (filter (\<lambda>b. map_of b key \<noteq> None) maps)) key)"
    by (simp only: merge_batches_last) simp
  have all_keys: "\<forall>(i, t, (x, y, z), svid) \<in> set rows.
         \<exists>qx qy qz.
           float64_quotient (of_int x) sx = Some qx \<and> float64_quotient (of_int y) sy = Some qy \<and>
           float64_quotient (of_int z) sz = Some qz \<and>
           svid = (case merge_batches maps (\<lfloor>qx\<rfloor>, \<lfloor>qy\<rfloor>, \<lfloor>qz\<rfloor>) of
                     None \<Rightarrow> 0 | Some v \<Rightarrow> v)"
    by clarify (erule keys)
  show ?thesis
    apply (rule exI [of _ sx])
    apply (rule exI [of _ sy])
    apply (rule exI [of _ sz])
    apply (rule exI [of _ maps])
    apply (intro conjI)
           apply (rule scale(1))
          apply (rule scale(2))
         apply (rule scale(3))
        apply (rule len)
       apply (rule per_batch)
      apply (rule merged)
     apply (rule once)
    apply (rule all_keys)
    done
qed

text \<open>
  Scenario S1, with a second point in a second sub-batch: the point \<open>(10, 20, 30)\<close>
  with coordinate resolution \<open>(4, 4, 40)\<close> and segmentation resolution \<open>(8, 8, 40)\<close> has
  scale \<open>(2, 2, 1)\<close> and key \<open>(5, 10, 30)\<close>; the key \<open>(62, 10, 30)\<close> of the second point is
  returned by the second sub-batch only.
\<close>

theorem scaled_key_lookup_witness:
  "scale_factor (8, 8, 40) (4, 4, 40) = Some (2, 2, 1) \<and>
   normalize_positions (10, 20, 30) (2, 2, 1) = Some (5, 10, 30) \<and>
   scatter_result_rows pointwise_volume id (4, 4, 40) 1
     [(7, (10, 20, 30), ''pt''), (8, (125, 20, 30), ''pt'')] =
     Inr [(7, ''pt'', (10, 20, 30), 111), (8, ''pt'', (125, 20, 30), 222)] \<and>
   (\<exists>maps. length maps = 2 \<and>
      scattered_points pointwise_volume [(125, 20, 30)] (4, 4, 40) = Inr (maps ! 1) \<and>
      merge_batches maps (62, 10, 30) = Some 222)"
proof -
  let ?pts = "[(7 :: int, (10 :: int, 20 :: int, 30 :: int), ''pt''), (8, (125, 20, 30), ''pt'')]"
  let ?rows = "[(7 :: int, ''pt'', (10 :: int, 20 :: int, 30 :: int), 111 :: int),
                (8, ''pt'', (125, 20, 30), 222)]"
  have r: "resolution pointwise_volume = (8, 8, 40)"
    by (simp add: pointwise_volume_def)
  have perm: "mset (id ?pts) = mset ?pts" by simp
  have run: "scatter_result_rows pointwise_volume id (4, 4, 40) 1 ?pts = Inr ?rows"
    by code_simp
  have s: "scale_factor (8, 8, 40) (4, 4, 40) = Some (2, 2, 1)"
    by code_simp
  have n: "normalize_positions (10, 20, 30) (2, 2, 1) = Some (5, 10, 30)"
    by code_simp
  have b: "batches 1 (id ?pts) = [[(7, (10, 20, 30), ''pt'')], [(8, (125, 20, 30), ''pt'')]]"
    by code_simp
  from scaled_key_lookup [OF r perm run] obtain sx sy sz maps where
    len: "length maps = length (batches 1 (id ?pts))" and
    answers: "\<forall>j < length maps.
         scattered_points pointwise_volume (map (\<lambda>r. fst (snd r)) (batches 1 (id ?pts) ! j))
           (4, 4, 40) = Inr (maps ! j)" and
    merged: "\<forall>key. merge_batches maps key =
         (if filter (\<lambda>b. map_of b key \<noteq> None) maps = [] then None
          else map_of (last (filter (\<lambda>b. map_of b key \<noteq> None) maps)) key)"
    by blast
  from len b have len2: "length maps = 2" by simp
  then have "0 < length maps" "1 < length maps" by simp_all
  with answers have
    "scattered_points pointwise_volume (map (\<lambda>r. fst (snd r)) (batches 1 (id ?pts) ! 0))
           (4, 4, 40) = Inr (maps ! 0)"
    "scattered_points pointwise_volume (map (\<lambda>r. fst (snd r)) (batches 1 (id ?pts) ! 1))
           (4, 4, 40) = Inr (maps ! 1)"
    by blast+
  then have first: "scattered_points pointwise_volume [(10, 20, 30)] (4, 4, 40) = Inr (maps ! 0)"
    and second: "scattered_points pointwise_volume [(125, 20, 30)] (4, 4, 40) = Inr (maps ! 1)"
    unfolding b by simp_all
  have "scattered_points pointwise_volume [(125, 20, 30)] (4, 4, 40) = Inr [((62, 10, 30), 222)]"
    and "scattered_points pointwise_volume [(10, 20, 30)] (4, 4, 40) = Inr [((5, 10, 30), 111)]"
    by (simp_all add: pointwise_volume_def)
  with first second have m: "maps ! 0 = [((5, 10, 30), 111)]" "maps ! 1 = [((62, 10, 30), 222)]"
    by simp_all
  from len2 obtain m0 m1 where maps: "maps = [m0, m1]"
    by (cases maps; cases "tl maps") auto
  with m have "maps = [[((5, 10, 30), 111)], [((62, 10, 30), 222)]]" by simp
  with merged have "merge_batches maps (62, 10, 30) = Some 222" by simp
  with s n run len2 second show ?thesis by blast
qed


subsection \<open>Column names and cells of the pivoted result\<close>

lemma map_of_keyed:
  "t \<in> set cs \<Longrightarrow> map_of (map (\<lambda>c. (c, f c)) cs) t = Some (f t)"
  by (induction cs) auto

lemma kept_svid_absent:
  "\<not> (\<exists>r \<in> set df. fst r = i \<and> fst (snd r) = t) \<Longrightarrow> kept_svid df i t = 0"
  by (simp add: kept_svid_def filter_empty_conv)

text \<open>
  Claim C10 as stated fails on a frame whose \<open>type\<close> column holds the string \<open>id\<close>: that
  tag shares the dictionary entry of the id column, and the id \<open>1\<close> is emitted twice.
\<close>

theorem pivot_type_named_id_counterexample:
  "safe_pivot_svid_df_to_dict [(1, ''id'', 1)] = Inr [(''id'', [1, 1])]"
  by (simp add: safe_pivot_svid_df_to_dict_def groupby_id_def unique_def pivot_group_def)

text \<open>
  Claim C10, amended. For every frame in which no type tag is the string \<open>id\<close> (every
  frame \<open>get_scatter_points\<close> passes: its tags end in \<open>_supervoxel_id\<close>), the pivot returns
  a dictionary whose \<open>id\<close> list holds each distinct id of the input exactly once, and
  whose cell for id \<open>i\<close> and type \<open>t\<close> is the supervoxel id of the last input row with
  that id and type.
\<close>

theorem pivot_ids_once_last_wins:
  assumes "\<forall>r \<in> set df. fst (snd r) \<noteq> ''id''"
  shows "\<exists>out ids.
      safe_pivot_svid_df_to_dict df = Inr out \<and>
      map_of out ''id'' = Some ids \<and> distinct ids \<and> set ids = fst ` set df \<and>
      (\<forall>t \<in> (\<lambda>r. fst (snd r)) ` set df.
         \<exists>col. map_of out t = Some col \<and> length col = length ids \<and>
           (\<forall>k < length ids. \<forall>rs.
              rs = filter (\<lambda>r. fst r = ids ! k \<and> fst (snd r) = t) df \<and> rs \<noteq> [] \<longrightarrow>
              col ! k = snd (snd (last rs))))"
proof -
  let ?ids = "sort (remdups (map fst df))"
  let ?cols = "unique (map (\<lambda>r. fst (snd r)) df)"
  let ?out = "(''id'', ?ids) # map (\<lambda>t. (t, map (\<lambda>i. kept_svid df i t) ?ids)) ?cols"
  from assms have nid: "''id'' \<notin> (\<lambda>r. fst (snd r)) ` set df" by force
  have out: "safe_pivot_svid_df_to_dict df = Inr ?out"
    by (rule pivot_closed_form [OF nid])
  have cells: "\<exists>col. map_of ?out t = Some col \<and> length col = length ?ids \<and>
           (\<forall>k < length ?ids. \<forall>rs.
              rs = filter (\<lambda>r. fst r = ?ids ! k \<and> fst (snd r) = t) df \<and> rs \<noteq> [] \<longrightarrow>
              col ! k = snd (snd (last rs)))"
    if t: "t \<in> (\<lambda>r. fst (snd r)) ` set df" for t
  proof -
    from t assms have "t \<noteq> ''id''" by auto
    moreover from t have "t \<in> set ?cols" by simp
    ultimately have "map_of ?out t = Some (map (\<lambda>i. kept_svid df i t) ?ids)"
      by (simp add: map_of_keyed)
    then show ?thesis
      by (simp add: kept_svid_def Let_def)
  qed
  have "map_of ?out ''id'' = Some ?ids" by simp
  moreover have "distinct ?ids" by simp
  moreover have "set ?ids = fst ` set df" by simp
  ultimately show ?thesis
    using out cells by blast
qed

theorem pivot_ids_once_last_wins_witness:
  "list_all (\<lambda>r. fst (snd r) \<noteq> ''id'') [(2 :: int, ''a'', 5 :: int), (1, ''b'', 6), (2, ''a'', 7)] \<and>
   safe_pivot_svid_df_to_dict [(2, ''a'', 5), (1, ''b'', 6), (2, ''a'', 7)] =
     Inr [(''id'', [1, 2]), (''a'', [0, 7]), (''b'', [6, 0])] \<and>
   (\<exists>out ids. safe_pivot_svid_df_to_dict [(2, ''a'', 5), (1, ''b'', 6), (2, ''a'', 7)] = Inr out \<and>
      map_of out ''id'' = Some ids \<and> distinct ids \<and> set ids = {1, 2})"
proof -
  let ?df = "[(2 :: int, ''a'', 5 :: int), (1, ''b'', 6), (2, ''a'', 7)]"
  have h: "\<forall>r \<in> set ?df. fst (snd r) \<noteq> ''id''" by simp
  have run: "safe_pivot_svid_df_to_dict ?df =
     Inr [(''id'', [1, 2]), (''a'', [0, 7]), (''b'', [6, 0])]"
    by (simp add: safe_pivot_svid_df_to_dict_def groupby_id_def unique_def pivot_group_def)
  from pivot_ids_once_last_wins [OF h] obtain out ids where
    "safe_pivot_svid_df_to_dict ?df = Inr out" "map_of out ''id'' = Some ids"
    "distinct ids" "set ids = fst ` set ?df"
    by blast
  moreover have "fst ` set ?df = {1, 2}" by auto
  ultimately show ?thesis using run by auto
qed


text \<open>
  Claim C3 as stated fails for a type tag that contains \<open>pt\<close> without ending in it: the
  code tests \<open>str.contains("pt")\<close>, so the tag \<open>pts\<close> gets the column
  \<open>pts_supervoxel_id\<close>, not the \<open>pts_pt_supervoxel_id\<close> of the specification.
\<close>

theorem column_name_counterexample:
  "get_scatter_points example_volume id (4, 4, 40) 50 [(7, (10, 20, 30), ''pts'')] =
     Inr [(''id'', [7]), (''pts_supervoxel_id'', [111])] \<and>
   spec_column_name ''pts'' = ''pts_pt_supervoxel_id''"
  by code_simp

lemma rename_types_closed_form:
  "rename_types rows =
     map (\<lambda>(i, t, pt, svids).
        (i, t @ (if \<forall>r \<in> set rows. str_contains (fst (snd r)) ''pt''
                 then ''_supervoxel_id'' else ''_pt_supervoxel_id''), svids)) rows"
  by (simp add: rename_types_def Let_def list_all_iff)

text \<open>
  Claim C3, amended. The result is a dictionary with the column \<open>id\<close> and one column per
  type tag, named \<open>{type}_supervoxel_id\<close> when every type tag of the frame contains the
  substring \<open>pt\<close> and \<open>{type}_pt_supervoxel_id\<close> (for every tag) otherwise; the \<open>id\<close>
  column holds each id once, and an id without an input row of a given type has 0 in
  that type's column.
\<close>

theorem pivot_columns_and_zero_fill:
  assumes run: "get_scatter_points cv sort_values cres batch_size pts_df = Inr out"
    and perm: "mset (sort_values pts_df) = mset pts_df"
    and suffix: "suffix = (if \<forall>r \<in> set pts_df. str_contains (snd (snd r)) ''pt''
                           then ''_supervoxel_id'' else ''_pt_supervoxel_id'')"
  shows "set (map fst out) = insert ''id'' ((\<lambda>r. snd (snd r) @ suffix) ` set pts_df) \<and>
     distinct (map fst out) \<and>
     (\<exists>ids. map_of out ''id'' = Some ids \<and> distinct ids \<and> set ids = fst ` set pts_df \<and>
        (\<forall>r \<in> set pts_df.
           \<exists>col. map_of out (snd (snd r) @ suffix) = Some col \<and> length col = length ids \<and>
             (\<forall>k < length ids.
                \<not> (\<exists>r' \<in> set pts_df. fst r' = ids ! k \<and> snd (snd r') = snd (snd r))
                \<longrightarrow> col ! k = 0)))"
proof -
  from run obtain rows where
    rows: "scatter_result_rows cv sort_values cres batch_size pts_df = Inr rows" and
    piv: "safe_pivot_svid_df_to_dict (rename_types rows) = Inr out"
    by (auto simp: get_scatter_points_def split: sum.splits)
  from scatter_result_rows_closed_form [OF rows] obtain sv where
    rows_eq: "rows = map (\<lambda>(i, pt, t). (i, t, pt, sv pt)) (sort_values pts_df)"
    by blast
  define df where "df = map (\<lambda>(i, pt, t). (i, t @ suffix, sv pt)) (sort_values pts_df)"
  from perm have same_set: "set (sort_values pts_df) = set pts_df"
    by (rule mset_eq_setD)
  have all: "(\<forall>r \<in> set rows. str_contains (fst (snd r)) ''pt'') =
             (\<forall>r \<in> set pts_df. str_contains (snd (snd r)) ''pt'')"
    by (auto simp: rows_eq same_set)
  have renamed: "rename_types rows = df"
    unfolding rename_types_closed_form all
    by (simp add: rows_eq df_def suffix split_def)
  have types: "(\<lambda>r. fst (snd r)) ` set df = (\<lambda>r. snd (snd r) @ suffix) ` set pts_df"
    by (force simp: df_def same_set)
  have ids: "fst ` set df = fst ` set pts_df"
    by (force simp: df_def same_set)
  have suffix_len: "2 < length suffix" by (simp add: suffix)
  have nid: "''id'' \<notin> (\<lambda>r. fst (snd r)) ` set df"
  proof
    assume "''id'' \<in> (\<lambda>r. fst (snd r)) ` set df"
    then obtain t where "''id'' = t @ suffix" by (auto simp: types)
    then have "length ''id'' = length t + length suffix" by (metis length_append)
    with suffix_len show False by simp
  qed
  let ?ids = "sort (remdups (map fst df))"
  let ?cols = "unique (map (\<lambda>r. fst (snd r)) df)"
  let ?out = "(''id'', ?ids) # map (\<lambda>t. (t, map (\<lambda>i. kept_svid df i t) ?ids)) ?cols"
  from pivot_closed_form [OF nid] piv renamed have out: "out = ?out" by simp
  have keys: "map fst ?out = ''id'' # ?cols" by (simp add: comp_def)
  have c1: "set (map fst out) = insert ''id'' ((\<lambda>r. snd (snd r) @ suffix) ` set pts_df)"
    unfolding out keys using types by simp
  have c2: "distinct (map fst out)"
    unfolding out keys using nid by simp
  have c3: "map_of out ''id'' = Some ?ids" by (simp add: out)
  have c4: "set ?ids = fst ` set pts_df" using ids by simp
  have c5: "\<exists>col. map_of out (snd (snd r) @ suffix) = Some col \<and> length col = length ?ids \<and>
             (\<forall>k < length ?ids.
                \<not> (\<exists>r' \<in> set pts_df. fst r' = ?ids ! k \<and> snd (snd r') = snd (snd r))
                \<longrightarrow> col ! k = 0)"
    if r: "r \<in> set pts_df" for r
  proof -
    let ?t = "snd (snd r) @ suffix"
    from r types have mem: "?t \<in> (\<lambda>r. fst (snd r)) ` set df" by blast
    with nid have "?t \<noteq> ''id''" by metis
    moreover from mem have "?t \<in> set ?cols" by simp
    ultimately have col: "map_of out ?t = Some (map (\<lambda>i. kept_svid df i ?t) ?ids)"
      by (simp add: out map_of_keyed)
    have zero: "kept_svid df i ?t = 0"
      if "\<not> (\<exists>r' \<in> set pts_df. fst r' = i \<and> snd (snd r') = snd (snd r))" for i
    proof (rule kept_svid_absent)
      show "\<not> (\<exists>x \<in> set df. fst x = i \<and> fst (snd x) = ?t)"
        using that by (auto simp: df_def same_set)
    qed
    show ?thesis
      using col zero by simp
  qed
  show ?thesis
    using c1 c2 c3 c4 c5 by (intro conjI exI [of _ ?ids]) simp_all
qed

text \<open>
  Two tags without \<open>pt\<close>: both columns get the \<open>_pt_supervoxel_id\<close> suffix, and the id 8,
  which has no \<open>post\<close> row, has 0 in that column.
\<close>

theorem pivot_columns_and_zero_fill_witness:
  "get_scatter_points example_volume id (4, 4, 40) 1
      [(7, (10, 20, 30), ''pre''), (7, (11, 21, 30), ''post''), (8, (10, 20, 30), ''pre'')] =
     Inr [(''id'', [7, 8]), (''pre_pt_supervoxel_id'', [111, 111]),
          (''post_pt_supervoxel_id'', [111, 0])] \<and>
   set (map fst [(''id'', [7, 8 :: int]), (''pre_pt_supervoxel_id'', [111, 111 :: int]),
          (''post_pt_supervoxel_id'', [111, 0])]) =
     insert ''id'' ((\<lambda>r. snd (snd r) @ ''_pt_supervoxel_id'') `
        set [(7 :: int, (10 :: int, 20 :: int, 30 :: int), ''pre''), (7, (11, 21, 30), ''post''),
             (8, (10, 20, 30), ''pre'')])"
proof -
  let ?pts = "[(7 :: int, (10 :: int, 20 :: int, 30 :: int), ''pre''), (7, (11, 21, 30), ''post''),
             (8, (10, 20, 30), ''pre'')]"
  let ?out = "[(''id'', [7, 8 :: int]), (''pre_pt_supervoxel_id'', [111, 111 :: int]),
          (''post_pt_supervoxel_id'', [111, 0])]"
  have run: "get_scatter_points example_volume id (4, 4, 40) 1 ?pts = Inr ?out"
    by code_simp
  have perm: "mset (id ?pts) = mset ?pts" by simp
  have suffix: "''_pt_supervoxel_id'' =
      (if \<forall>r \<in> set ?pts. str_contains (snd (snd r)) ''pt''
       then ''_supervoxel_id'' else ''_pt_supervoxel_id'')"
    by simp
  from pivot_columns_and_zero_fill [OF run perm suffix] run show ?thesis
    by blast
qed


subsection \<open>Processing one chunk\<close>

lemma report_submitted:
  assumes "db \<noteq> []" and "table \<noteq> []" and "checkpoints st table = Some cp"
  shows "report (submit_task lo hi mat roots upload idx n db table bs) rows st =
     st\<lparr>checkpoints := (checkpoints st)(table \<mapsto> cp\<lparr>completed_chunks := completed_chunks cp + 1\<rparr>),
        calls := calls st @ [IncrementCompleted table rows]\<rparr>"
  using assms
  by (simp add: report_def submit_task_def truthy_def record_call_def increment_completed_def
        update_workflow_def)

text \<open>
  Claim C5. A task the driver submitted for a chunk whose spatial query returns no point
  returns without an exception; besides the spatial query its only call is
  \<open>increment_completed\<close> with \<open>rows_processed = 0\<close> (no supervoxel lookup, no root lookup,
  no upsert), and the completed count of the table's checkpoint advances by one.
\<close>

theorem empty_chunk_is_success:
  assumes "pts_from_bbox env lo hi mat = Inr []"
    and "db \<noteq> []" and "table \<noteq> []"
    and "checkpoints st table = Some cp"
  shows "fst (process_chunk env (submit_task lo hi mat roots upload idx n db table bs) st) =
           ReturnedNone \<and>
         calls (snd (process_chunk env (submit_task lo hi mat roots upload idx n db table bs) st)) =
           calls st @ [SpatialQuery, IncrementCompleted table 0] \<and>
         checkpoints (snd (process_chunk env (submit_task lo hi mat roots upload idx n db table bs) st))
           table = Some (cp\<lparr>completed_chunks := completed_chunks cp + 1\<rparr>)"
proof -
  let ?t = "submit_task lo hi mat roots upload idx n db table bs"
  let ?st1 = "record_call SpatialQuery st"
  have args: "min_corner ?t = lo" "max_corner ?t = hi" "mat_info ?t = mat"
    by (simp_all add: submit_task_def)
  have pts: "get_pts_from_bbox env lo hi mat = Inr None"
    using assms(1) by (simp add: get_pts_from_bbox_def)
  have run: "process_chunk env ?t st = (ReturnedNone, report ?t 0 ?st1)"
    by (simp add: process_chunk_def Let_def args pts)
  have cp: "checkpoints ?st1 table = Some cp"
    using assms(4) by (simp add: record_call_def)
  show ?thesis
    unfolding run report_submitted [OF assms(2,3) cp]
    by (simp add: record_call_def)
qed

text \<open>Scenario S3: an empty chunk of a table with 4 of 10 chunks completed.\<close>

theorem empty_chunk_is_success_witness:
  "fst (process_chunk empty_chunk_env
          (submit_task (0, 0, 0) (1024, 1024, 1024) example_mat True True 4 10 ''volume''
             ''synapses'' 50)
          \<lparr>checkpoints = [''synapses'' \<mapsto> example_checkpoint], calls = []\<rparr>) = ReturnedNone \<and>
   calls (snd (process_chunk empty_chunk_env
          (submit_task (0, 0, 0) (1024, 1024, 1024) example_mat True True 4 10 ''volume''
             ''synapses'' 50)
          \<lparr>checkpoints = [''synapses'' \<mapsto> example_checkpoint], calls = []\<rparr>)) =
     [SpatialQuery, IncrementCompleted ''synapses'' 0] \<and>
   map_option completed_chunks
     (checkpoints (snd (process_chunk empty_chunk_env
          (submit_task (0, 0, 0) (1024, 1024, 1024) example_mat True True 4 10 ''volume''
             ''synapses'' 50)
          \<lparr>checkpoints = [''synapses'' \<mapsto> example_checkpoint], calls = []\<rparr>)) ''synapses'') =
     Some 5"
proof -
  let ?st = "\<lparr>checkpoints = [''synapses'' \<mapsto> example_checkpoint], calls = []\<rparr>"
  have a: "pts_from_bbox empty_chunk_env (0, 0, 0) (1024, 1024, 1024) example_mat = Inr []"
    by (simp add: empty_chunk_env_def)
  have b: "''volume'' \<noteq> []" "''synapses'' \<noteq> []" by simp_all
  have c: "checkpoints ?st ''synapses'' = Some example_checkpoint" by simp
  from empty_chunk_is_success [OF a b c, of True True 4 10 50] show ?thesis
    by (simp add: example_checkpoint_def)
qed

text \<open>
  Claim C9. With \<open>get_root_ids = False\<close> and \<open>upload_to_database = True\<close>, a chunk with at
  least one point never returns the success dictionary and never increments the
  checkpoint; when the supervoxel lookup returns its dictionary, the upload condition
  reads the unbound variable \<open>root_id_data\<close> and the task's handler retries with that
  error.
\<close>

theorem unbound_root_id_data:
  assumes "pts_from_bbox env (min_corner t) (max_corner t) (mat_info t) = Inr pts"
    and "pts \<noteq> []"
    and "\<not> get_root_ids t" and "upload_to_database t"
  shows "(\<forall>n m. fst (process_chunk env t st) \<noteq> Success n m) \<and>
         checkpoints (snd (process_chunk env t st)) = checkpoints st \<and>
         (scatter_points env pts (mat_info t) (supervoxel_batch_size t) = Inr (Some data) \<and>
          map_of data ''id'' = Some ids
          \<longrightarrow> fst (process_chunk env t st) = Retry (UnboundLocalError ''root_id_data''))"
proof -
  have pts: "get_pts_from_bbox env (min_corner t) (max_corner t) (mat_info t) = Inr (Some pts)"
    using assms(1,2) by (simp add: get_pts_from_bbox_def)
  have upload: "resolve_and_upload env t d p s st' =
      (Retry (UnboundLocalError ''root_id_data''), st')" for d p s st'
    using assms(3,4) by (simp add: resolve_and_upload_def)
  show ?thesis
    by (auto simp: process_chunk_def Let_def pts upload record_call_def
          split: sum.splits option.splits)
qed

text \<open>The annotation of scenario S1, processed without root-id lookup.\<close>

theorem unbound_root_id_data_witness:
  "fst (process_chunk example_chunk_env
          \<lparr>min_corner = (0, 0, 0), max_corner = (1024, 1024, 1024), mat_info = example_mat,
           get_root_ids = False, upload_to_database = True, chunk_info = (1, 1),
           database = Some ''volume'', table_name = Some ''synapses'',
           report_completion = True, supervoxel_batch_size = 50\<rparr>
          \<lparr>checkpoints = [''synapses'' \<mapsto> example_checkpoint], calls = []\<rparr>) =
     Retry (UnboundLocalError ''root_id_data'') \<and>
   map_option completed_chunks
     (checkpoints (snd (process_chunk example_chunk_env
          \<lparr>min_corner = (0, 0, 0), max_corner = (1024, 1024, 1024), mat_info = example_mat,
           get_root_ids = False, upload_to_database = True, chunk_info = (1, 1),
           database = Some ''volume'', table_name = Some ''synapses'',
           report_completion = True, supervoxel_batch_size = 50\<rparr>
          \<lparr>checkpoints = [''synapses'' \<mapsto> example_checkpoint], calls = []\<rparr>)) ''synapses'') =
     Some 4"
proof -
  let ?t = "\<lparr>min_corner = (0, 0, 0), max_corner = (1024, 1024, 1024), mat_info = example_mat,
           get_root_ids = False, upload_to_database = True, chunk_info = (1, 1),
           database = Some ''volume'', table_name = Some ''synapses'',
           report_completion = True, supervoxel_batch_size = 50\<rparr>"
  let ?st = "\<lparr>checkpoints = [''synapses'' \<mapsto> example_checkpoint], calls = []\<rparr>"
  let ?data = "[(''id'', [7 :: int]), (''pt_supervoxel_id'', [111 :: int])]"
  have a: "pts_from_bbox example_chunk_env (min_corner ?t) (max_corner ?t) (mat_info ?t) =
      Inr [(7, (10, 20, 30), ''pt'')]"
    by (simp add: example_chunk_env_def)
  have b: "[(7 :: int, (10 :: int, 20 :: int, 30 :: int), ''pt'')] \<noteq> []" by simp
  have c: "\<not> get_root_ids ?t" "upload_to_database ?t" by simp_all
  have gsp: "get_scatter_points example_volume id (4, 4, 40) 50 [(7, (10, 20, 30), ''pt'')] =
      Inr ?data"
    by code_simp
  have d: "scatter_points example_chunk_env [(7, (10, 20, 30), ''pt'')] (mat_info ?t)
      (supervoxel_batch_size ?t) = Inr (Some ?data)"
    by (simp add: example_chunk_env_def example_mat_def gsp)
  have e: "map_of ?data ''id'' = Some [7]" by simp
  from unbound_root_id_data [OF a b c, of ?st ?data "[7]"] d e show ?thesis
    by (simp add: example_checkpoint_def)
qed


subsection \<open>The workflow driver\<close>

lemma submit_chunks_corners:
  "map (\<lambda>t. (min_corner t, max_corner t))
     (submit_chunks generator completed mat roots upload n db table bs) = generator"
  by (rule nth_equalityI) (simp_all add: submit_chunks_def submit_task_def split_def)

lemma submit_chunks_numbers:
  "map (\<lambda>t. fst (chunk_info t))
     (submit_chunks generator completed mat roots upload n db table bs) =
   map Suc [completed ..< completed + length generator]"
  by (rule nth_equalityI) (simp_all add: submit_chunks_def submit_task_def split_def)

lemma length_submit_chunks:
  "length (submit_chunks generator completed mat roots upload n db table bs) = length generator"
  by (simp add: submit_chunks_def)

lemma initialize_workflow_record:
  "\<exists>cp. initialize_workflow s table tid table = Some cp \<and>
        completed_chunks cp = (case s table of None \<Rightarrow> 0 | Some c \<Rightarrow> completed_chunks c)"
  by (simp add: initialize_workflow_def split: option.splits)

text \<open>
  What the driver submits. Let \<open>k\<close> and \<open>chunking\<close> be the completed count and the
  strategy the driver restores: \<open>k\<close> is the checkpoint's \<open>completed_chunks\<close> when resume is
  enabled and a checkpoint exists, and 0 when resume is disabled or there is none. For a
  single table the driver submits exactly the chunks after the first \<open>k\<close> of the
  strategy's order (\<open>skip_to_index k\<close> when \<open>k > 0\<close>, the whole sequence from the beginning
  when \<open>k = 0\<close>), numbered \<open>k + 1\<close> to the total, each once. When it returns, the driver
  itself has set \<open>completed_chunks\<close> to \<open>k\<close> plus the number of tasks submitted: the total
  (\<open>k\<close> when \<open>k\<close> exceeds the total), whether or not a task has run.
\<close>

lemma resume_skips_completed:
  assumes run: "st' = run_spatial_lookup_workflow tid db table bs roots upload resume chunking0
                        from_checkpoint [mat] st"
    and res: "restore resume (get_workflow_data (initialize_workflow (store st) table tid) table)
                chunking0 from_checkpoint = (k, chunking)"
  shows "(resume \<and> store st table = Some cp \<longrightarrow> k = completed_chunks cp) \<and>
         (\<not> resume \<or> store st table = None \<longrightarrow> k = 0) \<and>
         (\<exists>new. submitted st' = submitted st @ new \<and>
            map (\<lambda>t. (min_corner t, max_corner t)) new = drop k (create_chunk_generator chunking) \<and>
            (0 < k \<longrightarrow> map (\<lambda>t. (min_corner t, max_corner t)) new = skip_to_index chunking k) \<and>
            take k (create_chunk_generator chunking) @ map (\<lambda>t. (min_corner t, max_corner t)) new =
              create_chunk_generator chunking \<and>
            map (\<lambda>t. fst (chunk_info t)) new = [k + 1 ..< strategy_total_chunks chunking + 1] \<and>
            distinct (map (\<lambda>t. fst (chunk_info t)) new)) \<and>
         (\<exists>cp'. store st' table = Some cp' \<and>
            completed_chunks cp' = max k (strategy_total_chunks chunking) \<and>
            status cp' = ''submitted'')"
proof -
  let ?s1 = "initialize_workflow (store st) table tid"
  let ?n = "strategy_total_chunks chunking"
  let ?gen = "drop k (chunk_sequence chunking)"
  let ?new = "submit_chunks ?gen k mat roots upload ?n db table bs"
  obtain cp1 where cp1: "?s1 table = Some cp1"
    and cp1_completed:
      "completed_chunks cp1 = (case store st table of None \<Rightarrow> 0 | Some c \<Rightarrow> completed_chunks c)"
    using initialize_workflow_record by blast
  have gen: "(if k > 0 then skip_to_index chunking k else create_chunk_generator chunking) = ?gen"
    by (simp add: skip_to_index_def create_chunk_generator_def)
  have k_resume: "resume \<Longrightarrow> k = completed_chunks cp1"
    using res cp1 by (simp add: restore_def get_workflow_data_def)
  have k_fresh: "\<not> resume \<Longrightarrow> k = 0"
    using res by (simp add: restore_def)
  have a: "resume \<and> store st table = Some cp \<longrightarrow> k = completed_chunks cp"
    using k_resume cp1_completed by auto
  have b: "\<not> resume \<or> store st table = None \<longrightarrow> k = 0"
    using k_resume k_fresh cp1_completed by (cases resume) auto
  have sub: "submitted st' = submitted st @ ?new"
    by (simp add: run run_spatial_lookup_workflow_def Let_def res gen)
  have numbers: "map (\<lambda>t. fst (chunk_info t)) ?new = [k + 1 ..< ?n + 1]"
  proof (cases "k \<le> ?n")
    case True
    then have "k + length ?gen = ?n" by (simp add: strategy_total_chunks_def)
    then have "map (\<lambda>t. fst (chunk_info t)) ?new = map Suc [k ..< ?n]"
      by (simp add: submit_chunks_numbers)
    then show ?thesis by (simp add: map_Suc_upt)
  next
    case False
    then have "?gen = []" by (simp add: strategy_total_chunks_def)
    with False show ?thesis by (simp add: submit_chunks_def)
  qed
  have c: "\<exists>new. submitted st' = submitted st @ new \<and>
            map (\<lambda>t. (min_corner t, max_corner t)) new = drop k (create_chunk_generator chunking) \<and>
            (0 < k \<longrightarrow> map (\<lambda>t. (min_corner t, max_corner t)) new = skip_to_index chunking k) \<and>
            take k (create_chunk_generator chunking) @ map (\<lambda>t. (min_corner t, max_corner t)) new =
              create_chunk_generator chunking \<and>
            map (\<lambda>t. fst (chunk_info t)) new = [k + 1 ..< strategy_total_chunks chunking + 1] \<and>
            distinct (map (\<lambda>t. fst (chunk_info t)) new)"
  proof (intro exI [of _ ?new] conjI)
    show "submitted st' = submitted st @ ?new" by (rule sub)
    show "map (\<lambda>t. (min_corner t, max_corner t)) ?new = drop k (create_chunk_generator chunking)"
      by (simp add: submit_chunks_corners create_chunk_generator_def)
    show "0 < k \<longrightarrow> map (\<lambda>t. (min_corner t, max_corner t)) ?new = skip_to_index chunking k"
      by (simp add: submit_chunks_corners skip_to_index_def)
    show "take k (create_chunk_generator chunking) @ map (\<lambda>t. (min_corner t, max_corner t)) ?new =
              create_chunk_generator chunking"
      by (simp add: submit_chunks_corners create_chunk_generator_def)
    show "map (\<lambda>t. fst (chunk_info t)) ?new = [k + 1 ..< ?n + 1]" by (rule numbers)
    show "distinct (map (\<lambda>t. fst (chunk_info t)) ?new)" by (simp add: numbers)
  qed
  have len: "length ?new = ?n - k"
    by (simp add: length_submit_chunks strategy_total_chunks_def)
  have d: "\<exists>cp'. store st' table = Some cp' \<and>
            completed_chunks cp' = max k ?n \<and> status cp' = ''submitted''"
    using cp1 len
    by (auto simp: run run_spatial_lookup_workflow_def Let_def res gen update_workflow_def
          max_def)
  from a b c d show ?thesis by blast
qed

text \<open>
  Scenario S2: ten chunks, four completed. The restart submits the chunks numbered 5 to
  10, and the driver's own write leaves \<open>completed_chunks\<close> at 10.
\<close>

lemma resume_skips_completed_witness:
  "map chunk_info (submitted (run_spatial_lookup_workflow ''restart'' ''volume'' ''synapses'' 50
       True True True ten_chunks (\<lambda>cp. Some ten_chunks) [example_mat]
       \<lparr>store = [''synapses'' \<mapsto> example_checkpoint], submitted = [], monitors = []\<rparr>)) =
     [(5, 10), (6, 10), (7, 10), (8, 10), (9, 10), (10, 10)] \<and>
   (\<exists>cp'. store (run_spatial_lookup_workflow ''restart'' ''volume'' ''synapses'' 50
       True True True ten_chunks (\<lambda>cp. Some ten_chunks) [example_mat]
       \<lparr>store = [''synapses'' \<mapsto> example_checkpoint], submitted = [], monitors = []\<rparr>) ''synapses'' =
         Some cp' \<and> completed_chunks cp' = 10 \<and> status cp' = ''submitted'')"
proof -
  let ?st = "\<lparr>store = [''synapses'' \<mapsto> example_checkpoint], submitted = [], monitors = []\<rparr>"
  let ?st' = "run_spatial_lookup_workflow ''restart'' ''volume'' ''synapses'' 50
       True True True ten_chunks (\<lambda>cp. Some ten_chunks) [example_mat] ?st"
  have res: "restore True (get_workflow_data (initialize_workflow (store ?st) ''synapses'' ''restart'')
                ''synapses'') ten_chunks (\<lambda>cp. Some ten_chunks) = (4, ten_chunks)"
    by (simp add: restore_def get_workflow_data_def initialize_workflow_def example_checkpoint_def)
  have n: "strategy_total_chunks ten_chunks = 10"
    by (simp add: strategy_total_chunks_def ten_chunks_def)
  from resume_skips_completed [where bs = 50 and roots = True and upload = True
      and mat = example_mat and cp = example_checkpoint, OF refl res]
  obtain new cp' where
    new: "submitted ?st' = submitted ?st @ new"
      "map (\<lambda>t. fst (chunk_info t)) new = [4 + 1 ..< strategy_total_chunks ten_chunks + 1]" and
    cp': "store ?st' ''synapses'' = Some cp'"
      "completed_chunks cp' = max 4 (strategy_total_chunks ten_chunks)"
      "status cp' = ''submitted''"
    by blast
  have info: "map chunk_info (submitted ?st') =
      [(5, 10), (6, 10), (7, 10), (8, 10), (9, 10), (10, 10)]"
    by code_simp
  from cp' n info show ?thesis by simp
qed

text \<open>
  Claim C4, on scenario S2. The restart obtains its chunks by \<open>skip_to_index 4\<close> and
  submits the chunks 5 to 10 only, each once, as the claim says. The final
  \<open>completed_chunks\<close> is not 10: the driver writes \<open>completed_chunks = 4 + 6\<close> when it has
  submitted the six tasks, before any of them has run, so the completion condition of
  the monitor holds as soon as the queue is empty; and each of the six tasks, when it
  has committed its upsert, increments the counter again, which ends at 16.
\<close>

theorem resume_counts_submitted_as_completed:
  "map (\<lambda>t. (min_corner t, max_corner t)) (submitted restart_after_four) =
     skip_to_index ten_chunks 4 \<and>
   map chunk_info (submitted restart_after_four) =
     [(5, 10), (6, 10), (7, 10), (8, 10), (9, 10), (10, 10)] \<and>
   map_option completed_chunks (store restart_after_four ''synapses'') = Some 10 \<and>
   all_done (0, store restart_after_four) ''synapses'' 10 \<and>
   length (filter is_upsert (calls (run_submitted example_chunk_env restart_after_four))) = 6 \<and>
   filter is_increment (calls (run_submitted example_chunk_env restart_after_four)) =
     replicate 6 (IncrementCompleted ''synapses'' 1) \<and>
   map_option completed_chunks
     (checkpoints (run_submitted example_chunk_env restart_after_four) ''synapses'') = Some 16"
  by code_simp


subsection \<open>The completion monitor\<close>

text \<open>
  The loop stops at the first poll at which the work is done or the deadline has passed,
  and its result is that of this last round.
\<close>

lemma monitor_loop_stops:
  assumes "now = poll_clock busy start n"
  shows "\<exists>m \<ge> n.
      (\<forall>i. n \<le> i \<and> i < m \<longrightarrow>
           \<not> all_done (observe i) table n_chunks \<and>
           poll_clock busy start i - start \<le> max_wait_time) \<and>
      (all_done (observe m) table n_chunks \<or> poll_clock busy start m - start > max_wait_time) \<and>
      monitor_loop observe busy rebuild_error table n_chunks start now n =
        monitor_loop observe busy rebuild_error table n_chunks start (poll_clock busy start m) m"
  using assms
proof (induction observe busy rebuild_error table n_chunks start now n rule: monitor_loop.induct)
  case (1 observe busy rebuild_error table n_chunks start now n)
  show ?case
  proof (cases "all_done (observe n) table n_chunks \<or> now - start > max_wait_time")
    case True
    with "1.prems" show ?thesis
      by (intro exI [of _ n]) auto
  next
    case False
    have next_clock: "now + busy n + polling_interval = poll_clock busy start (n + 1)"
      using "1.prems" by simp
    from "1.IH" [OF _ _ next_clock] False obtain m where
      m: "n + 1 \<le> m"
        "\<forall>i. n + 1 \<le> i \<and> i < m \<longrightarrow>
             \<not> all_done (observe i) table n_chunks \<and>
             poll_clock busy start i - start \<le> max_wait_time"
        "all_done (observe m) table n_chunks \<or> poll_clock busy start m - start > max_wait_time"
        "monitor_loop observe busy rebuild_error table n_chunks start
            (now + busy n + polling_interval) (n + 1) =
         monitor_loop observe busy rebuild_error table n_chunks start (poll_clock busy start m) m"
      by auto
    have step: "monitor_loop observe busy rebuild_error table n_chunks start now n =
        monitor_loop observe busy rebuild_error table n_chunks start
            (now + busy n + polling_interval) (n + 1)"
      using False by (subst monitor_loop.simps) simp
    have before: "\<not> all_done (observe i) table n_chunks \<and>
             poll_clock busy start i - start \<le> max_wait_time" if "n \<le> i" "i < m" for i
    proof (cases "i = n")
      case True
      with False "1.prems" show ?thesis by simp
    next
      case False
      with that m(2) show ?thesis by simp
    qed
    show ?thesis
      using m(1,3,4) before step by (intro exI [of _ m]) auto
  qed
qed

lemma monitor_loop_last_round:
  assumes "all_done (observe m) table n_chunks \<or> now - start > max_wait_time"
    and "r = monitor_loop observe busy rebuild_error table n_chunks start now m"
  shows "polls r = m + 1 \<and> finished_at r = now \<and>
         rebuild_called r = all_done (observe m) table n_chunks \<and>
         (outcome r = MonitorCompleted) = (all_done (observe m) table n_chunks \<and> rebuild_error = None) \<and>
         (outcome r = MonitorCompleted \<longrightarrow>
            final_store r = update_workflow (snd (observe m)) table
              (\<lambda>cp. cp\<lparr>status := ''completed'', index_rebuild_complete := True\<rparr>)) \<and>
         (\<not> all_done (observe m) table n_chunks \<longrightarrow>
            outcome r = MonitorError ''Monitoring timed out'' \<and>
            final_store r = update_workflow (snd (observe m)) table
              (\<lambda>cp. cp\<lparr>status := ''error'', last_error := Some ''Monitoring timed out''\<rparr>))"
  using assms
  by (subst (asm) monitor_loop.simps) (auto split: option.splits)

text \<open>
  Claim C6. The monitor always stops. Successive polls are at least 360 seconds apart
  (\<open>poll_clock\<close>). It calls the index rebuild exactly when, at its last poll, the queue is
  empty and \<open>completed_chunks \<ge> total_chunks\<close>, and only then can it write status
  \<open>completed\<close> with \<open>index_rebuild_complete = True\<close>; at every earlier poll the condition
  failed and no more than 72 hours had passed. When the condition fails at the last poll,
  more than 72 hours have passed and the monitor writes status \<open>error\<close> with
  \<open>last_error = "Monitoring timed out"\<close>.
\<close>

theorem monitor_completes_or_times_out:
  assumes "r = monitor_spatial_lookup_completion observe busy rebuild_error table n_chunks start"
  shows "0 < polls r \<and>
     finished_at r = poll_clock busy start (polls r - 1) \<and>
     (\<forall>i < polls r - 1.
        \<not> all_done (observe i) table n_chunks \<and>
        poll_clock busy start i - start \<le> max_wait_time \<and>
        poll_clock busy start (Suc i) = poll_clock busy start i + busy i + 360) \<and>
     rebuild_called r = all_done (observe (polls r - 1)) table n_chunks \<and>
     (outcome r = MonitorCompleted) =
        (all_done (observe (polls r - 1)) table n_chunks \<and> rebuild_error = None) \<and>
     (outcome r = MonitorCompleted \<longrightarrow>
        fst (observe (polls r - 1)) = 0 \<and>
        (\<exists>cp. snd (observe (polls r - 1)) table = Some cp \<and> completed_chunks cp \<ge> n_chunks \<and>
           final_store r table = Some (cp\<lparr>status := ''completed'', index_rebuild_complete := True\<rparr>))) \<and>
     (\<not> all_done (observe (polls r - 1)) table n_chunks \<longrightarrow>
        outcome r = MonitorError ''Monitoring timed out'' \<and>
        finished_at r - start > 72 * 3600 \<and>
        final_store r = update_workflow (snd (observe (polls r - 1))) table
          (\<lambda>cp. cp\<lparr>status := ''error'', last_error := Some ''Monitoring timed out''\<rparr>))"
proof -
  have "start = poll_clock busy start 0" by simp
  from monitor_loop_stops [OF this, of observe table n_chunks rebuild_error] obtain m where
    before: "\<forall>i. i < m \<longrightarrow> \<not> all_done (observe i) table n_chunks \<and>
               poll_clock busy start i - start \<le> max_wait_time" and
    last: "all_done (observe m) table n_chunks \<or> poll_clock busy start m - start > max_wait_time" and
    r: "r = monitor_loop observe busy rebuild_error table n_chunks start (poll_clock busy start m) m"
    unfolding assms monitor_spatial_lookup_completion_def by auto
  note round = monitor_loop_last_round [OF last r]
  from round have m: "polls r - 1 = m" by simp
  have deadline: "\<not> all_done (observe m) table n_chunks \<Longrightarrow> finished_at r - start > 72 * 3600"
    using last round by (simp add: max_wait_time_def)
  have completed: "fst (observe m) = 0 \<and>
        (\<exists>cp. snd (observe m) table = Some cp \<and> completed_chunks cp \<ge> n_chunks \<and>
           final_store r table = Some (cp\<lparr>status := ''completed'', index_rebuild_complete := True\<rparr>))"
    if "outcome r = MonitorCompleted"
  proof -
    from that round have fin: "all_done (observe m) table n_chunks"
      and store: "final_store r = update_workflow (snd (observe m)) table
              (\<lambda>cp. cp\<lparr>status := ''completed'', index_rebuild_complete := True\<rparr>)"
      by simp_all
    from fin show ?thesis
      by (auto simp: all_done_def get_workflow_data_def store update_workflow_def
            split: option.splits)
  qed
  show ?thesis
    unfolding m using round before deadline completed
    by (simp add: polling_interval_def)
qed

text \<open>
  Scenario S6: a workflow of three chunks whose increments have all arrived; the first
  poll finds the queue empty, rebuilds the indices and marks the workflow completed.
\<close>

theorem monitor_completes_or_times_out_witness:
  "outcome (monitor_spatial_lookup_completion three_done (\<lambda>n. 0) None ''synapses'' 3 1000) =
     MonitorCompleted \<and>
   rebuild_called (monitor_spatial_lookup_completion three_done (\<lambda>n. 0) None ''synapses'' 3 1000) \<and>
   (\<exists>cp. final_store (monitor_spatial_lookup_completion three_done (\<lambda>n. 0) None ''synapses'' 3 1000)
            ''synapses'' = Some cp \<and>
      status cp = ''completed'' \<and> index_rebuild_complete cp \<and> completed_chunks cp = 3)"
proof -
  let ?r = "monitor_spatial_lookup_completion three_done (\<lambda>n. 0) None ''synapses'' 3 1000"
  have fin: "all_done (three_done n) ''synapses'' 3" for n
    by (simp add: all_done_def three_done_def get_workflow_data_def example_checkpoint_def)
  from monitor_completes_or_times_out [OF refl, of three_done "\<lambda>n. 0" None "''synapses''" 3 1000]
  have a: "(outcome ?r = MonitorCompleted) = (all_done (three_done (polls ?r - 1)) ''synapses'' 3 \<and>
        (None :: string option) = None)"
    and b: "rebuild_called ?r = all_done (three_done (polls ?r - 1)) ''synapses'' 3"
    and c: "outcome ?r = MonitorCompleted \<longrightarrow>
        fst (three_done (polls ?r - 1)) = 0 \<and>
        (\<exists>cp. snd (three_done (polls ?r - 1)) ''synapses'' = Some cp \<and> completed_chunks cp \<ge> 3 \<and>
           final_store ?r ''synapses'' =
             Some (cp\<lparr>status := ''completed'', index_rebuild_complete := True\<rparr>))"
    by blast+
  from a fin have o: "outcome ?r = MonitorCompleted" by simp
  from b fin have rb: "rebuild_called ?r" by simp
  from c o obtain cp where
    cp: "snd (three_done (polls ?r - 1)) ''synapses'' = Some cp"
      "final_store ?r ''synapses'' =
         Some (cp\<lparr>status := ''completed'', index_rebuild_complete := True\<rparr>)"
    by blast
  from cp(1) have "completed_chunks cp = 3"
    by (auto simp: three_done_def example_checkpoint_def)
  with o rb cp(2) show ?thesis by simp
qed


subsection \<open>The root-id resolver\<close>

lemma str_contains_iff: "str_contains s pat = (\<exists>xs ys. s = xs @ pat @ ys)"
proof (induction s)
  case Nil
  then show ?case by auto
next
  case (Cons c cs)
  show ?case
  proof
    assume "str_contains (c # cs) pat"
    then consider "take (length pat) (c # cs) = pat" | "str_contains cs pat" by auto
    then show "\<exists>xs ys. c # cs = xs @ pat @ ys"
    proof cases
      case 1
      then have "c # cs = [] @ pat @ drop (length pat) (c # cs)"
        by (metis append_Nil append_take_drop_id)
      then show ?thesis by blast
    next
      case 2
      with Cons.IH obtain xs ys where "cs = xs @ pat @ ys" by blast
      then have "c # cs = (c # xs) @ pat @ ys" by simp
      then show ?thesis by blast
    qed
  next
    assume "\<exists>xs ys. c # cs = xs @ pat @ ys"
    then obtain xs ys where eq: "c # cs = xs @ pat @ ys" by blast
    show "str_contains (c # cs) pat"
    proof (cases xs)
      case Nil
      with eq have "take (length pat) (c # cs) = pat" by simp
      then show ?thesis by simp
    next
      case (Cons x xs')
      with eq have "cs = xs' @ pat @ ys" by simp
      with Cons.IH have "str_contains cs pat" by blast
      then show ?thesis by simp
    qed
  qed
qed

lemma endswith_contains: "endswith s suf \<Longrightarrow> str_contains s suf"
proof -
  assume "endswith s suf"
  then have "s = take (length s - length suf) s @ suf @ []"
    by (simp add: endswith_def) (metis append_take_drop_id)
  then show ?thesis unfolding str_contains_iff by blast
qed

lemma str_replace_contains:
  "old \<noteq> [] \<Longrightarrow> str_contains s old \<Longrightarrow> str_contains (str_replace old new s) new"
proof (induction old new s rule: str_replace.induct)
  case (1 old new s)
  from "1.prems" have s: "s \<noteq> []" by (cases s) auto
  show ?case
  proof (cases "take (length old) s = old")
    case True
    with s "1.prems" have "str_replace old new s = [] @ new @ str_replace old new (drop (length old) s)"
      by (subst str_replace.simps) simp
    then show ?thesis unfolding str_contains_iff by blast
  next
    case False
    with s "1.prems" have eq: "str_replace old new s = hd s # str_replace old new (tl s)"
      by (subst str_replace.simps) simp
    from s False "1.prems" have "str_contains (tl s) old" by (cases s) auto
    with "1.IH"(2) s False "1.prems" have "str_contains (str_replace old new (tl s)) new" by simp
    then show ?thesis by (simp add: eq)
  qed
qed

lemma fold_assign_rows:
  assumes "distinct index" and "\<forall>i \<in> set index. i < length rs" and "length vals = length index"
  shows "length (fold (\<lambda>(i, v) rs. rs[i := (rs ! i)(name := PInt v)]) (zip index vals) rs) = length rs \<and>
     (\<forall>k < length index.
        fold (\<lambda>(i, v) rs. rs[i := (rs ! i)(name := PInt v)]) (zip index vals) rs ! (index ! k) =
          (rs ! (index ! k))(name := PInt (vals ! k))) \<and>
     (\<forall>i. i \<notin> set index \<longrightarrow>
        fold (\<lambda>(i, v) rs. rs[i := (rs ! i)(name := PInt v)]) (zip index vals) rs ! i = rs ! i)"
  using assms
proof (induction index arbitrary: vals rs)
  case Nil
  then show ?case by simp
next
  case (Cons j index)
  then obtain v vals' where vals: "vals = v # vals'" by (cases vals) auto
  let ?rs1 = "rs[j := (rs ! j)(name := PInt v)]"
  let ?f = "\<lambda>(i, v) rs. rs[i := (rs ! i)(name := PInt v)]"
  have IH: "length (fold ?f (zip index vals') ?rs1) = length ?rs1 \<and>
     (\<forall>k < length index. fold ?f (zip index vals') ?rs1 ! (index ! k) =
          (?rs1 ! (index ! k))(name := PInt (vals' ! k))) \<and>
     (\<forall>i. i \<notin> set index \<longrightarrow> fold ?f (zip index vals') ?rs1 ! i = ?rs1 ! i)"
    using Cons.prems vals by (intro Cons.IH) auto
  have j: "j < length rs" "j \<notin> set index" using Cons.prems by auto
  have a: "length (fold ?f (zip (j # index) vals) rs) = length rs"
    using IH by (simp add: vals)
  have b: "fold ?f (zip (j # index) vals) rs ! ((j # index) ! k) =
          (rs ! ((j # index) ! k))(name := PInt (vals ! k))" if "k < length (j # index)" for k
  proof (cases k)
    case 0
    with IH j show ?thesis by (simp add: vals)
  next
    case (Suc k')
    with that have k': "k' < length index" by simp
    then have "index ! k' \<noteq> j" using j by auto
    with IH k' Suc show ?thesis by (simp add: vals)
  qed
  have c: "fold ?f (zip (j # index) vals) rs ! i = rs ! i" if "i \<notin> set (j # index)" for i
    using IH that by (simp add: vals)
  from a b c show ?case by blast
qed

lemma assign_column_result:
  assumes "assign_column df index name arr = Inr df'"
    and "distinct index" and "\<forall>i \<in> set index. i < length (frame_rows df)"
  shows "length (frame_rows df') = length (frame_rows df) \<and>
     set (frame_columns df') = insert name (set (frame_columns df)) \<and>
     (length arr = length index \<or> length arr = 1) \<and>
     (\<forall>k < length index.
        (frame_rows df' ! (index ! k)) name =
          PInt ((if length arr = length index then arr else replicate (length index) (arr ! 0)) ! k)) \<and>
     (\<forall>i c. i \<notin> set index \<or> c \<noteq> name \<longrightarrow> (frame_rows df' ! i) c = (frame_rows df ! i) c)"
proof -
  let ?vals = "if length arr = length index then arr else replicate (length index) (arr ! 0)"
  let ?f = "\<lambda>(i, v) rs. rs[i := (rs ! i)(name := PInt v)]"
  from assms(1) have len: "length arr = length index \<or> length arr = 1"
    by (auto simp: assign_column_def split: if_splits)
  with assms(1) have df': "df' = \<lparr>frame_columns = (if name \<in> set (frame_columns df) then frame_columns df
                                       else frame_columns df @ [name]),
                    frame_rows = fold ?f (zip index ?vals) (frame_rows df)\<rparr>"
    by (auto simp: assign_column_def Let_def split: if_splits)
  have lv: "length ?vals = length index" by simp
  note rows = fold_assign_rows [OF assms(2,3) lv, of name]
  have cells: "(fold ?f (zip index ?vals) (frame_rows df) ! i) c = (frame_rows df ! i) c"
    if "i \<notin> set index \<or> c \<noteq> name" for i c
  proof (cases "i \<in> set index")
    case False
    with rows show ?thesis by simp
  next
    case True
    then obtain k where k: "k < length index" "index ! k = i"
      by (auto simp: in_set_conv_nth)
    with that True rows show ?thesis by auto
  qed
  show ?thesis
    unfolding df' using len rows cells by (auto simp del: fold_simps)
qed


lemma lookup_missing_requests:
  "lookup_missing gr cols index mrows df reqs = Inr (df', reqs') \<Longrightarrow>
   reqs' = reqs @ map (\<lambda>c. (c, map (\<lambda>r. r c) mrows))
                    (filter (\<lambda>c. str_contains c ''supervoxel_id'') cols)"
proof (induction cols arbitrary: df reqs)
  case Nil
  then show ?case by simp
next
  case (Cons c cols)
  show ?case
  proof (cases "str_contains c ''supervoxel_id''")
    case False
    with Cons show ?thesis by simp
  next
    case True
    with Cons.prems obtain arr df1 where
      "lookup_missing gr cols index mrows df1 (reqs @ [(c, map (\<lambda>r. r c) mrows)]) = Inr (df', reqs')"
      by (auto simp: Let_def split: sum.splits)
    from Cons.IH [OF this] True show ?thesis by simp
  qed
qed

lemma lookup_missing_fails:
  assumes "\<forall>d. gr d = Inl e"
    and "filter (\<lambda>c. str_contains c ''supervoxel_id'') cols \<noteq> []"
  shows "lookup_missing gr cols index mrows df reqs = Inl e"
  using assms(2)
proof (induction cols)
  case Nil
  then show ?case by simp
next
  case (Cons c cols)
  then show ?case using assms(1) by (cases "str_contains c ''supervoxel_id''") (simp_all add: Let_def)
qed

lemma lookup_missing_succeeds:
  assumes "\<forall>d. \<exists>arr. gr d = Inr arr \<and> length arr = length d"
    and "length mrows = length index"
  shows "\<exists>res. lookup_missing gr cols index mrows df reqs = Inr res"
proof (induction cols arbitrary: df reqs)
  case Nil
  then show ?case by simp
next
  case (Cons c cols)
  show ?case
  proof (cases "str_contains c ''supervoxel_id''")
    case False
    with Cons show ?thesis by simp
  next
    case True
    from assms(1) obtain arr where
      arr: "gr (map (\<lambda>r. r c) mrows) = Inr arr" "length arr = length (map (\<lambda>r. r c) mrows)"
      by blast
    with assms(2) have "length arr = length index" by simp
    then obtain df1 where
      "assign_column df index (str_replace ''supervoxel_id'' ''root_id'' c) arr = Inr df1"
      by (simp add: assign_column_def Let_def)
    with True arr(1) Cons.IH [of df1] show ?thesis by (simp add: Let_def)
  qed
qed

text \<open>
  The frame after the loop: each request's answer stands, position by position, in the
  root-id column of its supervoxel column, and nothing else has changed.
\<close>

lemma lookup_missing_cells:
  assumes "lookup_missing gr cols index mrows df reqs = Inr (df', reqs')"
    and "distinct index" and "\<forall>i \<in> set index. i < length (frame_rows df)"
    and "distinct (map (str_replace ''supervoxel_id'' ''root_id'')
                    (filter (\<lambda>c. str_contains c ''supervoxel_id'') cols))"
  shows "length (frame_rows df') = length (frame_rows df) \<and>
     set (frame_columns df') =
       set (frame_columns df) \<union>
       str_replace ''supervoxel_id'' ''root_id'' `
         set (filter (\<lambda>c. str_contains c ''supervoxel_id'') cols) \<and>
     (\<forall>i name.
        i \<notin> set index \<or>
        name \<notin> str_replace ''supervoxel_id'' ''root_id'' `
                 set (filter (\<lambda>c. str_contains c ''supervoxel_id'') cols)
        \<longrightarrow> (frame_rows df' ! i) name = (frame_rows df ! i) name) \<and>
     (\<forall>c \<in> set (filter (\<lambda>c. str_contains c ''supervoxel_id'') cols).
        \<exists>arr. gr (map (\<lambda>r. r c) mrows) = Inr arr \<and>
          (length arr = length index \<or> length arr = 1) \<and>
          (\<forall>k < length index.
             (frame_rows df' ! (index ! k)) (str_replace ''supervoxel_id'' ''root_id'' c) =
               PInt ((if length arr = length index then arr
                      else replicate (length index) (arr ! 0)) ! k)))"
  using assms
proof (induction cols arbitrary: df reqs)
  case Nil
  then show ?case by simp
next
  case (Cons c cols)
  let ?rn = "str_replace ''supervoxel_id'' ''root_id''"
  let ?sv = "\<lambda>cs. filter (\<lambda>c. str_contains c ''supervoxel_id'') cs"
  show ?case
  proof (cases "str_contains c ''supervoxel_id''")
    case False
    with Cons.prems have "lookup_missing gr cols index mrows df reqs = Inr (df', reqs')"
      and "distinct (map ?rn (?sv cols))"
      by simp_all
    from Cons.IH [OF this(1) Cons.prems(2,3) this(2)] False show ?thesis by simp
  next
    case True
    note sv_c = True
    from Cons.prems(1) True obtain arr df1 where
      arr: "gr (map (\<lambda>r. r c) mrows) = Inr arr" and
      df1: "assign_column df index (?rn c) arr = Inr df1" and
      rest: "lookup_missing gr cols index mrows df1 (reqs @ [(c, map (\<lambda>r. r c) mrows)]) =
               Inr (df', reqs')"
      by (auto simp: Let_def split: sum.splits)
    note step = assign_column_result [OF df1 Cons.prems(2,3)]
    from Cons.prems(4) True have later: "?rn c \<notin> ?rn ` set (?sv cols)"
      and dist: "distinct (map ?rn (?sv cols))"
      by auto
    have range1: "\<forall>i \<in> set index. i < length (frame_rows df1)"
      using step Cons.prems(3) by simp
    note ih = Cons.IH [OF rest Cons.prems(2) range1 dist]
    have len: "length (frame_rows df') = length (frame_rows df)"
      using ih step by simp
    have names: "set (frame_columns df') = set (frame_columns df) \<union> ?rn ` set (?sv (c # cols))"
      using ih step True by auto
    have same: "(frame_rows df' ! i) name = (frame_rows df ! i) name"
      if "i \<notin> set index \<or> name \<notin> ?rn ` set (?sv (c # cols))" for i name
    proof -
      from that True have a: "i \<notin> set index \<or> name \<notin> ?rn ` set (?sv cols)"
        and b: "i \<notin> set index \<or> name \<noteq> ?rn c"
        by auto
      from ih a have "(frame_rows df' ! i) name = (frame_rows df1 ! i) name" by blast
      also from step b have "\<dots> = (frame_rows df ! i) name" by blast
      finally show ?thesis .
    qed
    have this_col: "(frame_rows df' ! (index ! k)) (?rn c) =
               PInt ((if length arr = length index then arr
                      else replicate (length index) (arr ! 0)) ! k)" if "k < length index" for k
    proof -
      from ih later have "(frame_rows df' ! (index ! k)) (?rn c) = (frame_rows df1 ! (index ! k)) (?rn c)"
        by blast
      with step that show ?thesis by simp
    qed
    have written: "\<exists>arr. gr (map (\<lambda>r. r c') mrows) = Inr arr \<and>
          (length arr = length index \<or> length arr = 1) \<and>
          (\<forall>k < length index.
             (frame_rows df' ! (index ! k)) (?rn c') =
               PInt ((if length arr = length index then arr
                      else replicate (length index) (arr ! 0)) ! k))"
      if "c' \<in> set (?sv (c # cols))" for c'
    proof (cases "c' = c")
      case True
      with arr step this_col show ?thesis by blast
    next
      case False
      with that sv_c have "c' \<in> set (?sv cols)" by auto
      with ih show ?thesis by blast
    qed
    from len names same written show ?thesis by blast
  qed
qed

lemma missing_root_index_props:
  "distinct (missing_root_index df) \<and>
   (\<forall>i \<in> set (missing_root_index df).
      i < length (frame_rows df) \<and>
      (\<forall>col \<in> set (frame_columns df). str_contains col ''root_id'' \<longrightarrow> (frame_rows df ! i) col = PNaN))"
  by (auto simp: missing_root_index_def Let_def list_all_iff isna_def)

lemma to_records_cell:
  assumes "i < length (frame_rows df)" and "name \<in> set (frame_columns df)"
  shows "map_of (to_records df ! i) name = Some ((frame_rows df ! i) name)"
proof -
  have "map_of (map (\<lambda>c. (c, f c)) cs) name = Some (f name)" if "name \<in> set cs"
    for cs and f :: "string \<Rightarrow> pyval"
    using that by (induction cs) auto
  with assms show ?thesis by (simp add: to_records_def)
qed


lemma frame_of_columns_names:
  "frame_of_columns d = Inr df \<Longrightarrow> frame_columns df = map fst d"
  by (auto simp: frame_of_columns_def split: list.splits if_splits)

lemma endswith_last:
  assumes "endswith s suf" and "suf \<noteq> []"
  shows "last s = last suf"
proof -
  from assms(1) have "s = take (length s - length suf) s @ suf"
    by (simp add: endswith_def) (metis append_take_drop_id)
  with assms(2) show ?thesis by (metis last_appendR)
qed

lemma supervoxel_id_not_position:
  "endswith c ''supervoxel_id'' \<Longrightarrow> \<not> endswith c ''position''"
proof
  assume "endswith c ''supervoxel_id''" and "endswith c ''position''"
  then have "last c = last ''supervoxel_id''" and "last c = last ''position''"
    by (auto dest: endswith_last)
  then show False by simp
qed

lemma id_not_position: "\<not> endswith ''id'' ''position''"
  by (simp add: endswith_def)

lemma frame_of_columns_cells:
  assumes "frame_of_columns d = Inr df"
  shows "(\<forall>c vs. (c, vs) \<in> set d \<longrightarrow> length vs = length (frame_rows df)) \<and>
         (\<forall>i < length (frame_rows df). \<forall>c.
            (frame_rows df ! i) c = (case map_of d c of None \<Rightarrow> PNaN | Some col \<Rightarrow> col ! i))"
proof (cases d)
  case Nil
  with assms show ?thesis by (auto simp: frame_of_columns_def)
next
  case (Cons a rest)
  obtain c0 vs0 where a: "a = (c0, vs0)" by (cases a)
  from assms Cons a have ok: "list_all (\<lambda>(c', vs'). length vs' = length vs0) rest"
    and df: "df = \<lparr>frame_columns = map fst d,
                    frame_rows = map (\<lambda>i c. case map_of d c of None \<Rightarrow> PNaN | Some col \<Rightarrow> col ! i)
                                     [0 ..< length vs0]\<rparr>"
    by (auto simp: frame_of_columns_def split: if_splits)
  have len: "length (frame_rows df) = length vs0" by (simp add: df)
  have "length vs = length vs0" if "(c, vs) \<in> set d" for c vs
    using that ok Cons a by (auto simp: list_all_iff)
  moreover have "(frame_rows df ! i) c = (case map_of d c of None \<Rightarrow> PNaN | Some col \<Rightarrow> col ! i)"
    if "i < length (frame_rows df)" for i c
    using that by (simp add: df split: option.split)
  ultimately show ?thesis using len by simp
qed

lemma root_id_columns_contain:
  "x \<in> set (root_id_columns cols) \<Longrightarrow> str_contains x ''root_id''"
  by (auto simp: root_id_columns_def intro!: str_replace_contains)

text \<open>The frame when the database returns no row.\<close>

lemma root_ids_frame_no_rows:
  assumes "frame_of_columns data = Inr df0" and "''id'' \<in> fst ` set data"
  shows "root_ids_frame (\<lambda>ids. Inr []) data =
           (if distinct (frame_columns (drop_position_columns df0) @
                         root_id_columns (frame_columns (drop_position_columns df0)))
            then Inr ((drop_position_columns df0)
                        \<lparr>frame_columns := frame_columns (drop_position_columns df0) @
                           root_id_columns (frame_columns (drop_position_columns df0))\<rparr>)
            else Inl NotEmbedded)"
proof -
  have names: "frame_columns df0 = map fst data"
    using assms(1) by (rule frame_of_columns_names)
  have "''id'' \<in> set (frame_columns (drop_position_columns df0))"
    using assms(2) by (simp add: drop_position_columns_def names id_not_position)
  then show ?thesis
    by (simp add: root_ids_frame_def assms(1) Let_def)
qed

lemma root_ids_frame_input:
  assumes "root_ids_frame db data = Inr df"
  shows "\<exists>df0. frame_of_columns data = Inr df0 \<and> ''id'' \<in> fst ` set data"
proof (cases "frame_of_columns data")
  case (Inl e)
  with assms show ?thesis by (simp add: root_ids_frame_def)
next
  case (Inr df0)
  have names: "frame_columns df0 = map fst data"
    using Inr by (rule frame_of_columns_names)
  from assms Inr have "''id'' \<in> set (frame_columns (drop_position_columns df0))"
    by (auto simp: root_ids_frame_def Let_def split: if_splits)
  then have "''id'' \<in> fst ` set data"
    by (auto simp: drop_position_columns_def names)
  with Inr show ?thesis by blast
qed

lemma root_ids_frame_without_prior:
  assumes "frame_of_columns data = Inr df0" and "''id'' \<in> fst ` set data"
    and "c \<in> fst ` set data" and "endswith c ''supervoxel_id''"
    and "distinct (frame_columns (drop_position_columns df0) @
                   root_id_columns (frame_columns (drop_position_columns df0)))"
  shows "\<exists>df. root_ids_frame (\<lambda>ids. Inr []) data = Inr df \<and>
              filter (\<lambda>x. str_contains x ''root_id'') (frame_columns df) \<noteq> []"
proof -
  let ?sv = "drop_position_columns df0"
  let ?rn = "str_replace ''supervoxel_id'' ''root_id''"
  let ?df = "?sv\<lparr>frame_columns := frame_columns ?sv @ root_id_columns (frame_columns ?sv)\<rparr>"
  have names: "frame_columns df0 = map fst data"
    using assms(1) by (rule frame_of_columns_names)
  have run: "root_ids_frame (\<lambda>ids. Inr []) data = Inr ?df"
    using assms(5) by (simp add: root_ids_frame_no_rows [OF assms(1,2)])
  have c: "c \<in> set (frame_columns ?sv)"
    using assms(3,4) by (simp add: drop_position_columns_def names supervoxel_id_not_position)
  have sv: "str_contains c ''supervoxel_id''"
    using assms(4) by (rule endswith_contains)
  with c assms(4) have mem: "?rn c \<in> set (root_id_columns (frame_columns ?sv))"
    by (simp add: root_id_columns_def)
  then have "str_contains (?rn c) ''root_id''" by (rule root_id_columns_contain)
  with mem have "filter (\<lambda>x. str_contains x ''root_id'') (frame_columns ?df) \<noteq> []"
    unfolding filter_empty_conv by auto
  with run show ?thesis by blast
qed

lemma root_ids_frame_db_error:
  "is_sqlalchemy_error e \<Longrightarrow>
   root_ids_frame (\<lambda>ids. Inl e) data = root_ids_frame (\<lambda>ids. Inr []) data"
  by (cases "frame_of_columns data") (simp_all add: root_ids_frame_def Let_def)

lemma root_ids_frame_prior:
  assumes "frame_of_columns data = Inr df0"
    and "db (map (\<lambda>r. r ''id'') (frame_rows (drop_position_columns df0))) = Inr found"
    and "found \<noteq> []" and "root_ids_frame db data = Inr df"
  shows "merge_frames (drop_position_columns df0) (frame_of_records found) = Inr df"
  using assms by (simp add: root_ids_frame_def Let_def split: if_splits)

lemma missing_root_index_exact:
  "missing_root_index df =
     filter (\<lambda>i. \<forall>col \<in> set (frame_columns df).
                  str_contains col ''root_id'' \<longrightarrow> (frame_rows df ! i) col = PNaN)
       [0 ..< length (frame_rows df)]"
  by (auto simp: missing_root_index_def Let_def list_all_iff isna_def intro: filter_cong)

lemma get_new_root_ids_run:
  assumes "get_new_root_ids db gr data = Inr (recs, reqs)"
    and "root_ids_frame db data = Inr df"
  shows "(missing_root_index df = [] \<and> recs = to_records df \<and> reqs = []) \<or>
         (missing_root_index df \<noteq> [] \<and>
          (\<exists>df'. lookup_missing gr
                    (filter (\<lambda>c. endswith c ''supervoxel_id'' \<and> \<not> endswith c ''position'')
                       (map fst data))
                    (missing_root_index df)
                    (map (\<lambda>i. frame_rows df ! i) (missing_root_index df)) df [] = Inr (df', reqs) \<and>
                 recs = to_records df'))"
  using assms
  by (auto simp: get_new_root_ids_def Let_def split: if_splits sum.splits)

lemma get_new_root_ids_frame:
  "get_new_root_ids db gr data = Inr res \<Longrightarrow>
   \<exists>df. root_ids_frame db data = Inr df \<and>
        filter (\<lambda>x. str_contains x ''root_id'') (frame_columns df) \<noteq> []"
proof (cases "root_ids_frame db data")
  case (Inl e)
  moreover assume "get_new_root_ids db gr data = Inr res"
  ultimately show ?thesis by (simp add: get_new_root_ids_def)
next
  case (Inr df)
  moreover assume "get_new_root_ids db gr data = Inr res"
  ultimately show ?thesis
    by (cases "filter (\<lambda>x. str_contains x ''root_id'') (frame_columns df) = []")
       (simp_all add: get_new_root_ids_def Let_def)
qed

lemma resolver_db_error_returns:
  assumes "is_sqlalchemy_error e"
    and "frame_of_columns data = Inr df0" and "''id'' \<in> fst ` set data"
    and "c \<in> fst ` set data" and "endswith c ''supervoxel_id''"
    and "distinct (frame_columns (drop_position_columns df0) @
                   root_id_columns (frame_columns (drop_position_columns df0)))"
    and "\<forall>d. \<exists>arr. get_roots d = Inr arr \<and> length arr = length d"
  shows "\<exists>res. get_new_root_ids (\<lambda>ids. Inl e) get_roots data = Inr res"
proof -
  let ?cols = "filter (\<lambda>c. endswith c ''supervoxel_id'' \<and> \<not> endswith c ''position'')
                       (map fst data)"
  from root_ids_frame_without_prior [OF assms(2-6)] obtain df where
    df: "root_ids_frame (\<lambda>ids. Inr []) data = Inr df"
      "filter (\<lambda>x. str_contains x ''root_id'') (frame_columns df) \<noteq> []"
    by blast
  have frame: "root_ids_frame (\<lambda>ids. Inl e) data = Inr df"
    using df(1) assms(1) by (simp add: root_ids_frame_db_error)
  show ?thesis
  proof (cases "missing_root_index df = []")
    case True
    with frame df(2) show ?thesis by (simp add: get_new_root_ids_def Let_def)
  next
    case False
    have "\<exists>res. lookup_missing get_roots ?cols (missing_root_index df)
                    (map (\<lambda>i. frame_rows df ! i) (missing_root_index df)) df [] = Inr res"
      using assms(7) by (intro lookup_missing_succeeds) simp_all
    then obtain df' reqs where "lookup_missing get_roots ?cols (missing_root_index df)
                    (map (\<lambda>i. frame_rows df ! i) (missing_root_index df)) df [] = Inr (df', reqs)"
      by (metis surj_pair)
    with frame df(2) False show ?thesis by (simp add: get_new_root_ids_def Let_def)
  qed
qed

lemma resolver_service_error:
  assumes "\<forall>d. failing d = Inl e"
    and "get_new_root_ids db get_roots data = Inr (recs, reqs)" and "reqs \<noteq> []"
  shows "get_new_root_ids db failing data = Inl e"
proof -
  let ?cols = "filter (\<lambda>c. endswith c ''supervoxel_id'' \<and> \<not> endswith c ''position'')
                       (map fst data)"
  from get_new_root_ids_frame [OF assms(2)] obtain df where
    df: "root_ids_frame db data = Inr df"
      "filter (\<lambda>x. str_contains x ''root_id'') (frame_columns df) \<noteq> []"
    by blast
  from get_new_root_ids_run [OF assms(2) df(1)] assms(3) obtain df' where
    idx: "missing_root_index df \<noteq> []" and
    run: "lookup_missing get_roots ?cols (missing_root_index df)
            (map (\<lambda>i. frame_rows df ! i) (missing_root_index df)) df [] = Inr (df', reqs)"
    by blast
  from lookup_missing_requests [OF run] assms(3)
  have sv: "filter (\<lambda>c. str_contains c ''supervoxel_id'') ?cols \<noteq> []" by auto
  have "lookup_missing failing ?cols (missing_root_index df)
            (map (\<lambda>i. frame_rows df ! i) (missing_root_index df)) df [] = Inl e"
    using assms(1) sv by (rule lookup_missing_fails)
  with df idx show ?thesis by (simp add: get_new_root_ids_def Let_def)
qed

lemma resolver_requests:
  assumes "get_new_root_ids db get_roots data = Inr (recs, reqs)"
    and "root_ids_frame db data = Inr df"
    and "(c, d) \<in> set reqs"
  shows "d = map (\<lambda>i. (frame_rows df ! i) c) (missing_root_index df)"
proof -
  let ?cols = "filter (\<lambda>c. endswith c ''supervoxel_id'' \<and> \<not> endswith c ''position'')
                       (map fst data)"
  from get_new_root_ids_run [OF assms(1,2)] assms(3) obtain df' where
    run: "lookup_missing get_roots ?cols (missing_root_index df)
            (map (\<lambda>i. frame_rows df ! i) (missing_root_index df)) df [] = Inr (df', reqs)"
    by auto
  from lookup_missing_requests [OF run] assms(3) show ?thesis
    by (auto simp: comp_def)
qed

lemma resolver_positional:
  assumes "get_new_root_ids db get_roots data = Inr (recs, reqs)"
    and "root_ids_frame db data = Inr df"
    and "distinct (map (str_replace ''supervoxel_id'' ''root_id'') (map fst reqs))"
    and "(c, d) \<in> set reqs"
  shows "\<exists>arr. get_roots d = Inr arr \<and>
           (length arr = length (missing_root_index df) \<longrightarrow>
            (\<forall>k < length arr.
               map_of (recs ! (missing_root_index df ! k))
                 (str_replace ''supervoxel_id'' ''root_id'' c) = Some (PInt (arr ! k))))"
proof -
  let ?cols = "filter (\<lambda>c. endswith c ''supervoxel_id'' \<and> \<not> endswith c ''position'')
                       (map fst data)"
  let ?sv = "filter (\<lambda>c. str_contains c ''supervoxel_id'') ?cols"
  let ?rn = "str_replace ''supervoxel_id'' ''root_id''"
  let ?idx = "missing_root_index df"
  let ?mrows = "map (\<lambda>i. frame_rows df ! i) ?idx"
  from get_new_root_ids_run [OF assms(1,2)] assms(4) obtain df' where
    run: "lookup_missing get_roots ?cols ?idx ?mrows df [] = Inr (df', reqs)" and
    recs: "recs = to_records df'"
    by auto
  from lookup_missing_requests [OF run]
  have reqs: "reqs = map (\<lambda>c. (c, map (\<lambda>r. r c) ?mrows)) ?sv" by simp
  then have fst_reqs: "map fst reqs = ?sv" by (simp add: comp_def)
  have idx: "distinct ?idx" "\<forall>i \<in> set ?idx. i < length (frame_rows df)"
    using missing_root_index_props [of df] by blast+
  from assms(3) have dist: "distinct (map ?rn ?sv)" by (simp only: fst_reqs)
  note cells = lookup_missing_cells [OF run idx dist]
  from assms(4) reqs have c: "c \<in> set ?sv" and d: "d = map (\<lambda>r. r c) ?mrows" by auto
  from cells c obtain arr where
    arr: "get_roots (map (\<lambda>r. r c) ?mrows) = Inr arr" and
    pos: "\<forall>k < length ?idx. (frame_rows df' ! (?idx ! k)) (?rn c) =
               PInt ((if length arr = length ?idx then arr
                      else replicate (length ?idx) (arr ! 0)) ! k)"
    by blast
  have col: "?rn c \<in> set (frame_columns df')" using cells c by blast
  have len: "length (frame_rows df') = length (frame_rows df)" using cells by blast
  have "map_of (recs ! (?idx ! k)) (?rn c) = Some (PInt (arr ! k))"
    if "length arr = length ?idx" "k < length arr" for k
  proof -
    from that idx(2) len have "?idx ! k < length (frame_rows df')" by simp
    from to_records_cell [OF this col] pos that show ?thesis by (simp add: recs)
  qed
  with arr d show ?thesis by blast
qed

text \<open>
  Without prior roots (the database returns no row) and without an input column named
  after a root id, every row misses its root ids: each request holds a whole input
  column.
\<close>

lemma resolver_all_rows:
  assumes run: "get_new_root_ids (\<lambda>ids. Inr []) get_roots data = Inr (recs, reqs)"
    and dist: "distinct (map fst data)"
    and noroot: "\<forall>c \<in> fst ` set data. \<not> str_contains c ''root_id''"
    and mem: "(c, d) \<in> set reqs"
  shows "map_of data c = Some d"
proof -
  let ?cols = "filter (\<lambda>c. endswith c ''supervoxel_id'' \<and> \<not> endswith c ''position'')
                       (map fst data)"
  from get_new_root_ids_frame [OF run] obtain df where
    df: "root_ids_frame (\<lambda>ids. Inr []) data = Inr df"
    by blast
  from root_ids_frame_input [OF df] obtain df0 where
    df0: "frame_of_columns data = Inr df0" and id: "''id'' \<in> fst ` set data"
    by blast
  let ?sv = "drop_position_columns df0"
  let ?labels = "frame_columns ?sv @ root_id_columns (frame_columns ?sv)"
  from df have form: "df = ?sv\<lparr>frame_columns := ?labels\<rparr>"
    by (simp add: root_ids_frame_no_rows [OF df0 id] split: if_splits)
  note cells = frame_of_columns_cells [OF df0]
  let ?n = "length (frame_rows df0)"
  have rows: "frame_rows df = map (\<lambda>r c. if endswith c ''position'' then PNaN else r c) (frame_rows df0)"
    by (simp add: form drop_position_columns_def)
  have len: "length (frame_rows df) = ?n" by (simp add: rows)
  have blank: "(frame_rows df ! i) col = PNaN" if "i < ?n" "str_contains col ''root_id''" for i col
  proof -
    from that(2) noroot have "col \<notin> fst ` set data" by blast
    then have "map_of data col = None" by (simp add: map_of_eq_None_iff)
    with cells that(1) show ?thesis by (simp add: rows)
  qed
  have "missing_root_index df = filter (\<lambda>i. True) [0 ..< ?n]"
    unfolding missing_root_index_exact len
    by (rule filter_cong) (auto simp: blank)
  then have idx: "missing_root_index df = [0 ..< ?n]" by simp
  from resolver_requests [OF run df mem]
  have d: "d = map (\<lambda>i. (frame_rows df ! i) c) [0 ..< ?n]" by (simp add: idx)
  from get_new_root_ids_run [OF run df] mem obtain df' where
    "lookup_missing get_roots ?cols (missing_root_index df)
       (map (\<lambda>i. frame_rows df ! i) (missing_root_index df)) df [] = Inr (df', reqs)"
    by auto
  from lookup_missing_requests [OF this] mem have c: "c \<in> set ?cols" by auto
  then have c_data: "c \<in> fst ` set data" and c_pos: "\<not> endswith c ''position''" by auto
  then obtain vs where vs: "(c, vs) \<in> set data" by auto
  with dist have m: "map_of data c = Some vs" by simp
  from cells vs have lv: "length vs = ?n" by blast
  have "(frame_rows df ! i) c = vs ! i" if "i < ?n" for i
    using that cells m c_pos by (simp add: rows)
  then have "map (\<lambda>i. (frame_rows df ! i) c) [0 ..< ?n] = map (\<lambda>i. vs ! i) [0 ..< length vs]"
    by (simp add: lv)
  also have "\<dots> = vs" by (rule map_nth)
  finally show ?thesis using d m by simp
qed

text \<open>
  Claim C8. (1) An error caught by \<open>except SQLAlchemyError\<close> while reading the existing
  root ids gives the result of a database without prior roots, and the resolver still
  returns when the chunked graph answers every request. (2) A resolver that sends a
  request fails with the error of a chunked-graph service that raises. (3) The frame
  the lookup starts from is the inner join of the input (position columns dropped)
  with the rows the database returns; when the database fails or returns nothing and
  the input has no root-id column, every request is a whole supervoxel column of the
  input. (4) The rows looked up are exactly those in which every root-id column of
  that frame is missing; every request holds the supervoxel ids of these rows; and each
  row of a request's answer is written to the root-id column of that supervoxel column
  in the row at the same position.
\<close>

theorem resolver_errors_and_lookup:
  shows "(is_sqlalchemy_error e \<longrightarrow>
            get_new_root_ids (\<lambda>ids. Inl e) get_roots data =
            get_new_root_ids (\<lambda>ids. Inr []) get_roots data) \<and>
    (is_sqlalchemy_error e \<and> frame_of_columns data = Inr input_df \<and> ''id'' \<in> fst ` set data \<and>
     (\<exists>c \<in> fst ` set data. endswith c ''supervoxel_id'') \<and>
     distinct (frame_columns (drop_position_columns input_df) @
               root_id_columns (frame_columns (drop_position_columns input_df))) \<and>
     (\<forall>d. \<exists>arr. get_roots d = Inr arr \<and> length arr = length d)
     \<longrightarrow> (\<exists>res. get_new_root_ids (\<lambda>ids. Inl e) get_roots data = Inr res)) \<and>
    ((\<forall>d. failing d = Inl err) \<and> get_new_root_ids db get_roots data = Inr (recs, reqs) \<and>
     reqs \<noteq> []
     \<longrightarrow> get_new_root_ids db failing data = Inl err) \<and>
    (frame_of_columns data = Inr input_df \<and>
     db (map (\<lambda>r. r ''id'') (frame_rows (drop_position_columns input_df))) = Inr found \<and>
     found \<noteq> [] \<and> root_ids_frame db data = Inr df
     \<longrightarrow> merge_frames (drop_position_columns input_df) (frame_of_records found) = Inr df) \<and>
    (is_sqlalchemy_error e \<and>
     get_new_root_ids (\<lambda>ids. Inl e) get_roots data = Inr (all_recs, all_reqs) \<and>
     distinct (map fst data) \<and> (\<forall>c \<in> fst ` set data. \<not> str_contains c ''root_id'')
     \<longrightarrow> (\<forall>(c, d) \<in> set all_reqs. map_of data c = Some d)) \<and>
    (get_new_root_ids db get_roots data = Inr (recs, reqs) \<and> root_ids_frame db data = Inr df
     \<longrightarrow> missing_root_index df =
            filter (\<lambda>i. \<forall>col \<in> set (frame_columns df).
                         str_contains col ''root_id'' \<longrightarrow> (frame_rows df ! i) col = PNaN)
              [0 ..< length (frame_rows df)] \<and>
          (\<forall>(c, d) \<in> set reqs. d = map (\<lambda>i. (frame_rows df ! i) c) (missing_root_index df)) \<and>
          (distinct (map (str_replace ''supervoxel_id'' ''root_id'') (map fst reqs))
           \<longrightarrow> (\<forall>(c, d) \<in> set reqs. \<exists>arr. get_roots d = Inr arr \<and>
                  (length arr = length (missing_root_index df) \<longrightarrow>
                   (\<forall>k < length arr.
                      map_of (recs ! (missing_root_index df ! k))
                        (str_replace ''supervoxel_id'' ''root_id'' c) = Some (PInt (arr ! k)))))))"
proof -
  have one: "get_new_root_ids (\<lambda>ids. Inl e) get_roots data =
           get_new_root_ids (\<lambda>ids. Inr []) get_roots data" if "is_sqlalchemy_error e"
    using that by (simp add: get_new_root_ids_def root_ids_frame_db_error)
  have two: "\<exists>res. get_new_root_ids (\<lambda>ids. Inl e) get_roots data = Inr res"
    if "is_sqlalchemy_error e \<and> frame_of_columns data = Inr input_df \<and> ''id'' \<in> fst ` set data \<and>
     (\<exists>c \<in> fst ` set data. endswith c ''supervoxel_id'') \<and>
     distinct (frame_columns (drop_position_columns input_df) @
               root_id_columns (frame_columns (drop_position_columns input_df))) \<and>
     (\<forall>d. \<exists>arr. get_roots d = Inr arr \<and> length arr = length d)"
    using that resolver_db_error_returns [of e data input_df _ get_roots] by blast
  have three: "get_new_root_ids db failing data = Inl err"
    if "(\<forall>d. failing d = Inl err) \<and> get_new_root_ids db get_roots data = Inr (recs, reqs) \<and>
        reqs \<noteq> []"
    using that resolver_service_error [of failing err db get_roots data recs reqs] by blast
  have prior: "merge_frames (drop_position_columns input_df) (frame_of_records found) = Inr df"
    if "frame_of_columns data = Inr input_df \<and>
     db (map (\<lambda>r. r ''id'') (frame_rows (drop_position_columns input_df))) = Inr found \<and>
     found \<noteq> [] \<and> root_ids_frame db data = Inr df"
    using that root_ids_frame_prior [of data input_df db found df] by blast
  have whole: "\<forall>(c, d) \<in> set all_reqs. map_of data c = Some d"
    if "is_sqlalchemy_error e \<and>
     get_new_root_ids (\<lambda>ids. Inl e) get_roots data = Inr (all_recs, all_reqs) \<and>
     distinct (map fst data) \<and> (\<forall>c \<in> fst ` set data. \<not> str_contains c ''root_id'')"
  proof -
    from that one have "get_new_root_ids (\<lambda>ids. Inr []) get_roots data = Inr (all_recs, all_reqs)"
      by simp
    with that resolver_all_rows [of get_roots data all_recs all_reqs] show ?thesis by blast
  qed
  have four: "missing_root_index df =
            filter (\<lambda>i. \<forall>col \<in> set (frame_columns df).
                         str_contains col ''root_id'' \<longrightarrow> (frame_rows df ! i) col = PNaN)
              [0 ..< length (frame_rows df)]"
    by (rule missing_root_index_exact)
  have five: "\<forall>(c, d) \<in> set reqs. d = map (\<lambda>i. (frame_rows df ! i) c) (missing_root_index df)"
    if "get_new_root_ids db get_roots data = Inr (recs, reqs) \<and> root_ids_frame db data = Inr df"
    using that resolver_requests [of db get_roots data recs reqs df] by blast
  have six: "\<forall>(c, d) \<in> set reqs. \<exists>arr. get_roots d = Inr arr \<and>
                  (length arr = length (missing_root_index df) \<longrightarrow>
                   (\<forall>k < length arr.
                      map_of (recs ! (missing_root_index df ! k))
                        (str_replace ''supervoxel_id'' ''root_id'' c) = Some (PInt (arr ! k))))"
    if "get_new_root_ids db get_roots data = Inr (recs, reqs) \<and> root_ids_frame db data = Inr df"
      and "distinct (map (str_replace ''supervoxel_id'' ''root_id'') (map fst reqs))"
    using that resolver_positional [of db get_roots data recs reqs df] by blast
  from one two three prior whole four five six show ?thesis by blast
qed

text \<open>
  Scenario S5. With a database that fails every row is looked up, and the three root
  ids are written in order. With a database that holds the root id of the annotation 1
  only the supervoxels of the annotations 2 and 3 are sent, and their root ids are
  written to the second and third row. With the chunked graph down the resolver raises
  its error.
\<close>

theorem resolver_errors_and_lookup_witness:
  "get_new_root_ids failing_database answering_graph three_supervoxels =
     Inr ([[(''id'', PInt 1), (''pt_supervoxel_id'', PInt 100), (''pt_root_id'', PInt 1000)],
           [(''id'', PInt 2), (''pt_supervoxel_id'', PInt 200), (''pt_root_id'', PInt 2000)],
           [(''id'', PInt 3), (''pt_supervoxel_id'', PInt 300), (''pt_root_id'', PInt 3000)]],
          [(''pt_supervoxel_id'', [PInt 100, PInt 200, PInt 300])]) \<and>
   get_new_root_ids prior_roots_database answering_graph three_supervoxels =
     Inr ([[(''id'', PInt 1), (''pt_supervoxel_id'', PInt 100), (''pt_root_id'', PInt 5)],
           [(''id'', PInt 2), (''pt_supervoxel_id'', PInt 200), (''pt_root_id'', PInt 2000)],
           [(''id'', PInt 3), (''pt_supervoxel_id'', PInt 300), (''pt_root_id'', PInt 3000)]],
          [(''pt_supervoxel_id'', [PInt 200, PInt 300])]) \<and>
   get_new_root_ids prior_roots_database failing_graph three_supervoxels = Inl ChunkedGraphError \<and>
   get_new_root_ids (\<lambda>ids. Inl ProgrammingError) answering_graph three_supervoxels =
     get_new_root_ids (\<lambda>ids. Inr []) answering_graph three_supervoxels \<and>
   (\<exists>res. get_new_root_ids (\<lambda>ids. Inl SQLAlchemyError) answering_graph three_supervoxels = Inr res) \<and>
   map_of three_supervoxels ''pt_supervoxel_id'' = Some [PInt 100, PInt 200, PInt 300] \<and>
   (\<exists>input_df df. frame_of_columns three_supervoxels = Inr input_df \<and>
      root_ids_frame prior_roots_database three_supervoxels = Inr df \<and>
      merge_frames (drop_position_columns input_df)
        (frame_of_records [[(''id'', PInt 1), (''pt_root_id'', PInt 5)],
                           [(''id'', PInt 2), (''pt_root_id'', PNaN)],
                           [(''id'', PInt 3), (''pt_root_id'', PNaN)]]) = Inr df \<and>
      missing_root_index df = [1, 2] \<and>
      map (\<lambda>i. (frame_rows df ! i) ''pt_supervoxel_id'') (missing_root_index df) =
        [PInt 200, PInt 300])"
proof -
  let ?found = "[[(''id'', PInt 1), (''pt_root_id'', PInt 5)],
                 [(''id'', PInt 2), (''pt_root_id'', PNaN)],
                 [(''id'', PInt 3), (''pt_root_id'', PNaN)]]"
  let ?all_recs = "[[(''id'', PInt 1), (''pt_supervoxel_id'', PInt 100), (''pt_root_id'', PInt 1000)],
           [(''id'', PInt 2), (''pt_supervoxel_id'', PInt 200), (''pt_root_id'', PInt 2000)],
           [(''id'', PInt 3), (''pt_supervoxel_id'', PInt 300), (''pt_root_id'', PInt 3000)]]"
  let ?all_reqs = "[(''pt_supervoxel_id'', [PInt 100, PInt 200, PInt 300])]"
  let ?recs = "[[(''id'', PInt 1), (''pt_supervoxel_id'', PInt 100), (''pt_root_id'', PInt 5)],
           [(''id'', PInt 2), (''pt_supervoxel_id'', PInt 200), (''pt_root_id'', PInt 2000)],
           [(''id'', PInt 3), (''pt_supervoxel_id'', PInt 300), (''pt_root_id'', PInt 3000)]]"
  let ?reqs = "[(''pt_supervoxel_id'', [PInt 200, PInt 300])]"
  have db: "failing_database = (\<lambda>ids. Inl SQLAlchemyError)"
    by (simp add: failing_database_def fun_eq_iff)
  have run0: "get_new_root_ids failing_database answering_graph three_supervoxels =
                Inr (?all_recs, ?all_reqs)"
    by code_simp
  have run: "get_new_root_ids prior_roots_database answering_graph three_supervoxels =
               Inr (?recs, ?reqs)"
    by code_simp
  obtain df0 where frame: "frame_of_columns three_supervoxels = Inr df0"
    by (simp add: frame_of_columns_def three_supervoxels_def)
  have id: "''id'' \<in> fst ` set three_supervoxels"
    and sv: "\<exists>c \<in> fst ` set three_supervoxels. endswith c ''supervoxel_id''"
    by (simp_all add: three_supervoxels_def endswith_def)
  have "case_sum (\<lambda>e. False)
          (\<lambda>df0. distinct (frame_columns (drop_position_columns df0) @
                     root_id_columns (frame_columns (drop_position_columns df0))))
          (frame_of_columns three_supervoxels)"
    by code_simp
  with frame have labels: "distinct (frame_columns (drop_position_columns df0) @
                     root_id_columns (frame_columns (drop_position_columns df0)))"
    by simp
  have answers: "\<forall>d. \<exists>arr. answering_graph d = Inr arr \<and> length arr = length d"
    by (simp add: answering_graph_def)
  have down: "\<forall>d. failing_graph d = Inl ChunkedGraphError"
    by (simp add: failing_graph_def)
  have ne: "?reqs \<noteq> []" by simp
  have caught: "is_sqlalchemy_error SQLAlchemyError" "is_sqlalchemy_error ProgrammingError"
    by (simp_all add: is_sqlalchemy_error_def)
  from get_new_root_ids_frame [OF run] obtain df where
    df: "root_ids_frame prior_roots_database three_supervoxels = Inr df"
    by blast
  have "case_sum (\<lambda>e. []) missing_root_index
          (root_ids_frame prior_roots_database three_supervoxels) = [1, 2]"
    by code_simp
  with df have idx: "missing_root_index df = [1, 2]" by simp
  note inst = resolver_errors_and_lookup [where get_roots = answering_graph
      and data = three_supervoxels and failing = failing_graph and err = ChunkedGraphError
      and db = prior_roots_database and recs = ?recs and reqs = ?reqs and input_df = df0
      and e = SQLAlchemyError and df = df and found = ?found
      and all_recs = ?all_recs and all_reqs = ?all_reqs]
  note prior_if = inst [THEN conjunct2, THEN conjunct2, THEN conjunct2, THEN conjunct1]
  note whole_if = inst [THEN conjunct2, THEN conjunct2, THEN conjunct2, THEN conjunct2,
      THEN conjunct1]
  note returns_if = inst [THEN conjunct2, THEN conjunct1]
  note fails_if = inst [THEN conjunct2, THEN conjunct2, THEN conjunct1]
  note lookup_if = inst [THEN conjunct2, THEN conjunct2, THEN conjunct2, THEN conjunct2,
      THEN conjunct2]
  have ready: "is_sqlalchemy_error SQLAlchemyError \<and>
     frame_of_columns three_supervoxels = Inr df0 \<and> ''id'' \<in> fst ` set three_supervoxels \<and>
     (\<exists>c \<in> fst ` set three_supervoxels. endswith c ''supervoxel_id'') \<and>
     distinct (frame_columns (drop_position_columns df0) @
               root_id_columns (frame_columns (drop_position_columns df0))) \<and>
     (\<forall>d. \<exists>arr. answering_graph d = Inr arr \<and> length arr = length d)"
    using caught(1) frame id sv labels answers by (intro conjI)
  from returns_if [THEN mp, OF ready]
  have returns: "\<exists>res. get_new_root_ids (\<lambda>ids. Inl SQLAlchemyError) answering_graph
                        three_supervoxels = Inr res" .
  have "(\<forall>d. failing_graph d = Inl ChunkedGraphError) \<and>
     get_new_root_ids prior_roots_database answering_graph three_supervoxels = Inr (?recs, ?reqs) \<and>
     ?reqs \<noteq> []"
    using down run ne by (intro conjI)
  from fails_if [THEN mp, OF this]
  have fails: "get_new_root_ids prior_roots_database failing_graph three_supervoxels =
                 Inl ChunkedGraphError" .
  from lookup_if [THEN mp, OF conjI, OF run df, THEN conjunct2, THEN conjunct1]
  have "\<forall>(c, d) \<in> set ?reqs. d = map (\<lambda>i. (frame_rows df ! i) c) (missing_root_index df)" .
  then have sent: "map (\<lambda>i. (frame_rows df ! i) ''pt_supervoxel_id'') (missing_root_index df) =
                     [PInt 200, PInt 300]"
    by simp
  from resolver_errors_and_lookup [where e = ProgrammingError and get_roots = answering_graph
      and data = three_supervoxels, THEN conjunct1, THEN mp, OF caught(2)]
  have wrapped: "get_new_root_ids (\<lambda>ids. Inl ProgrammingError) answering_graph three_supervoxels =
     get_new_root_ids (\<lambda>ids. Inr []) answering_graph three_supervoxels" .
  have "frame_of_columns three_supervoxels = Inr df0 \<and>
     prior_roots_database (map (\<lambda>r. r ''id'') (frame_rows (drop_position_columns df0))) =
       Inr ?found \<and>
     ?found \<noteq> [] \<and> root_ids_frame prior_roots_database three_supervoxels = Inr df"
    using frame df by (simp add: prior_roots_database_def)
  from prior_if [THEN mp, OF this]
  have joined: "merge_frames (drop_position_columns df0) (frame_of_records ?found) = Inr df" .
  have "is_sqlalchemy_error SQLAlchemyError \<and>
     get_new_root_ids (\<lambda>ids. Inl SQLAlchemyError) answering_graph three_supervoxels =
       Inr (?all_recs, ?all_reqs) \<and>
     distinct (map fst three_supervoxels) \<and>
     (\<forall>c \<in> fst ` set three_supervoxels. \<not> str_contains c ''root_id'')"
    using caught(1) run0 unfolding db by (simp add: three_supervoxels_def)
  from whole_if [THEN mp, OF this]
  have column: "map_of three_supervoxels ''pt_supervoxel_id'' = Some [PInt 100, PInt 200, PInt 300]"
    by simp
  from frame df joined idx sent have looked_up:
    "\<exists>input_df df. frame_of_columns three_supervoxels = Inr input_df \<and>
      root_ids_frame prior_roots_database three_supervoxels = Inr df \<and>
      merge_frames (drop_position_columns input_df) (frame_of_records ?found) = Inr df \<and>
      missing_root_index df = [1, 2] \<and>
      map (\<lambda>i. (frame_rows df ! i) ''pt_supervoxel_id'') (missing_root_index df) =
        [PInt 200, PInt 300]"
    by (intro exI [of _ df0] exI [of _ df] conjI)
  show ?thesis
    apply (intro conjI)
          apply (rule run0)
         apply (rule run)
        apply (rule fails)
       apply (rule wrapped)
      apply (rule returns)
     apply (rule column)
    apply (rule looked_up)
    done
qed

subsection \<open>The missing-roots repair\<close>

text \<open>
  Where the smallest and the largest id differ (and neither is 0), the chunks put
  together are the whole range, and each holds at most 500 ids.
\<close>

lemma length_batches: "0 < n \<Longrightarrow> \<forall>b \<in> set (batches n xs). length b \<le> n \<and> b \<noteq> []"
proof (induction n xs rule: batches.induct)
  case (1 n xs)
  show ?case
  proof (cases "xs = []")
    case True
    then show ?thesis by (simp add: batches.simps [of n "[]"])
  next
    case False
    with "1" show ?thesis by (simp add: batches.simps [of n xs])
  qed
qed

lemma missing_roots_chunks_cover:
  assumes "sql_min (ids_missing_a_root table) = Some mn"
    and "sql_max (ids_missing_a_root table) = Some mx"
    and "mn \<noteq> 0" and "mx \<noteq> 0" and "mn < mx"
  shows "get_ids_with_missing_roots table = Some (map ChunkItem (create_chunks [mn .. mx] 500)) \<and>
         concat (create_chunks [mn .. mx] 500) = [mn .. mx] \<and>
         (\<forall>c \<in> set (create_chunks [mn .. mx] 500). length c \<le> 500 \<and> c \<noteq> [])"
  using assms length_batches [of 500 "[mn .. mx]"]
  by (simp add: get_ids_with_missing_roots_def create_chunks_def concat_batches)

text \<open>
  Claim C7 on the code: when exactly one row misses a root id, \<open>get_ids_with_missing_roots\<close>
  returns the bare id instead of a chunk, the workflow schedules a unit for it, and the
  unit fails on its first statement: it neither reads supervoxels from SQL nor updates
  the row. With three rows missing (scenario S5) the range is one chunk and the unit
  updates the three rows.
\<close>

theorem single_missing_root_is_not_repaired:
  "get_ids_with_missing_roots one_missing = Some [IdItem 7] \<and>
   scheduled_repair_units one_missing = [IdItem 7] \<and>
   lookup_root_ids three_rows_sql no_prior_roots answering_graph committing (IdItem 7) =
     RepairRetry TypeError \<and>
   get_ids_with_missing_roots three_missing = Some [ChunkItem [1, 2, 3]] \<and>
   lookup_root_ids three_rows_sql no_prior_roots answering_graph committing (ChunkItem [1, 2, 3]) =
     RepairUpdated
       [[(''id'', PInt 1), (''pt_supervoxel_id'', PInt 100), (''pt_root_id'', PInt 1000)],
        [(''id'', PInt 2), (''pt_supervoxel_id'', PInt 200), (''pt_root_id'', PInt 2000)],
        [(''id'', PInt 3), (''pt_supervoxel_id'', PInt 300), (''pt_root_id'', PInt 3000)]]"
  by code_simp


end
